(* ===== verification/Base.thy ===== *)
theory Base
  imports Main "HOL-Library.Word" "HOL-Library.Signed_Division" "HOL-Library.Monad_Syntax"
begin

text \<open>
  The prelude of the development.  It fixes how the Go code is read:

  \<^item> a Go \<^verbatim>\<open>int\<close> or \<^verbatim>\<open>int64\<close> is \<^typ>\<open>int\<close>; Go's \<open>/\<close> and \<open>%\<close> truncate towards zero and are
    \<open>sdiv\<close> and \<open>smod\<close>; where a wrap-around of 64 bits can be observed it is written out with
    \<open>i64\<close>;
  \<^item> \<^verbatim>\<open>byte\<close>, \<^verbatim>\<open>uint16\<close>, \<^verbatim>\<open>uint32\<close> and \<^verbatim>\<open>uint64\<close> are words of their width;
  \<^item> a Go \<^verbatim>\<open>error\<close> result is an \<open>option\<close> (\<^term>\<open>None\<close> is nil);
  \<^item> an operation that can panic (index out of range, nil dereference, division by zero) has a
    result in \<open>option\<close>, where \<^term>\<open>None\<close> is the panic;
  \<^item> a Go \<^verbatim>\<open>map\<close> that is iterated over is an association list with distinct keys: the order of
    the list is the order of one iteration, and the lemmas hold for every order;
  \<^item> a Go \<^verbatim>\<open>string\<close> is a list of bytes, \<^typ>\<open>string\<close>.

  Besides, it holds the shared lemmas on lists, slices, association lists and decimal numerals.
\<close>

section \<open>Types\<close>

type_synonym byte = "8 word"
type_synonym u16 = "16 word"
type_synonym u32 = "32 word"
type_synonym u64 = "64 word"

named_theorems go_arith "Go's truncated division on non-negative operands"
named_theorems slice_simps "lengths and elements of slices and copies"
named_theorems inv_intro "introduction rules of the components' invariants"

text \<open>The two's complement reading of a 64-bit result.\<close>

definition i64 :: "int \<Rightarrow> int" where
  "i64 x = sint (word_of_int x :: 64 word)"

section \<open>Slices and copies\<close>

text \<open>\<open>xs[lo:hi]\<close>; a bound that is out of order or past the end panics.\<close>

definition go_slice :: "'a list \<Rightarrow> int \<Rightarrow> int \<Rightarrow> 'a list option" where
  "go_slice xs lo hi =
     (if 0 \<le> lo \<and> lo \<le> hi \<and> hi \<le> int (length xs)
      then Some (take (nat hi - nat lo) (drop (nat lo) xs)) else None)"

text \<open>\<open>xs[i]\<close> and \<open>xs[i] = v\<close>.\<close>

definition go_nth :: "'a list \<Rightarrow> int \<Rightarrow> 'a option" where
  "go_nth xs i = (if 0 \<le> i \<and> i < int (length xs) then Some (xs ! nat i) else None)"

definition go_update :: "'a list \<Rightarrow> int \<Rightarrow> 'a \<Rightarrow> 'a list option" where
  "go_update xs i v =
     (if 0 \<le> i \<and> i < int (length xs) then Some (xs[nat i := v]) else None)"

text \<open>\<open>copy(xs[i:], ys)\<close>: as many elements of \<open>ys\<close> as fit.\<close>

definition copy_at :: "'a list \<Rightarrow> nat \<Rightarrow> 'a list \<Rightarrow> 'a list" where
  "copy_at xs i ys = take i xs @ take (length xs - i) ys @ drop (i + length ys) xs"

section \<open>Strings\<close>

definition HasPrefix :: "string \<Rightarrow> string \<Rightarrow> bool" where
  "HasPrefix s p \<longleftrightarrow> take (length p) s = p"

definition HasSuffix :: "string \<Rightarrow> string \<Rightarrow> bool" where
  "HasSuffix s p \<longleftrightarrow> length p \<le> length s \<and> drop (length s - length p) s = p"

definition TrimPrefix :: "string \<Rightarrow> string \<Rightarrow> string" where
  "TrimPrefix s p = (if HasPrefix s p then drop (length p) s else s)"

definition TrimSuffix :: "string \<Rightarrow> string \<Rightarrow> string" where
  "TrimSuffix s p = (if HasSuffix s p then take (length s - length p) s else s)"

fun Contains :: "string \<Rightarrow> string \<Rightarrow> bool" where
  "Contains [] p = (p = [])"
| "Contains (c # s) p = (HasPrefix (c # s) p \<or> Contains s p)"

fun Join :: "string list \<Rightarrow> string \<Rightarrow> string" where
  "Join [] sep = []"
| "Join [x] sep = x"
| "Join (x # xs) sep = x @ sep @ Join xs sep"

section \<open>Decimal numerals\<close>

definition digit_char :: "nat \<Rightarrow> char" where
  "digit_char n = char_of (48 + n)"

definition is_digit :: "char \<Rightarrow> bool" where
  "is_digit c \<longleftrightarrow> 48 \<le> (of_char c :: nat) \<and> (of_char c :: nat) \<le> 57"

definition digit_val :: "char \<Rightarrow> nat" where
  "digit_val c = of_char c - 48"

fun show_nat :: "nat \<Rightarrow> string" where
  "show_nat n =
     (if n < 10 then [digit_char n] else show_nat (n div 10) @ [digit_char (n mod 10)])"

declare show_nat.simps [simp del]

definition show_int :: "int \<Rightarrow> string" where
  "show_int i = (if i < 0 then ''-'' @ show_nat (nat (- i)) else show_nat (nat i))"

definition parse_nat :: "string \<Rightarrow> nat option" where
  "parse_nat s =
     (if s \<noteq> [] \<and> list_all is_digit s
      then Some (foldl (\<lambda>acc c. 10 * acc + digit_val c) 0 s) else None)"

text \<open>\<^verbatim>\<open>strconv.ParseInt(s, 10, 64)\<close>: an optional sign, digits, and the range of \<^verbatim>\<open>int64\<close>.\<close>

definition ParseInt :: "string \<Rightarrow> int option" where
  "ParseInt s =
     (let (neg, digits) =
        (case s of
           [] \<Rightarrow> (False, [])
         | c # cs \<Rightarrow> if c = CHR ''-'' then (True, cs)
                     else if c = CHR ''+'' then (False, cs) else (False, s))
      in case parse_nat digits of
           None \<Rightarrow> None
         | Some n \<Rightarrow>
             let v = (if neg then - int n else int n)
             in if - (2 ^ 63) \<le> v \<and> v < 2 ^ 63 then Some v else None)"

section \<open>Association lists as maps\<close>

fun alookup :: "('k \<times> 'v) list \<Rightarrow> 'k \<Rightarrow> 'v option" where
  "alookup [] k = None"
| "alookup ((k', v) # m) k = (if k' = k then Some v else alookup m k)"

fun aupdate :: "('k \<times> 'v) list \<Rightarrow> 'k \<Rightarrow> 'v \<Rightarrow> ('k \<times> 'v) list" where
  "aupdate [] k v = [(k, v)]"
| "aupdate ((k', w) # m) k v = (if k' = k then (k', v) # m else (k', w) # aupdate m k v)"

definition adelete :: "('k \<times> 'v) list \<Rightarrow> 'k \<Rightarrow> ('k \<times> 'v) list" where
  "adelete m k = filter (\<lambda>(k', _). k' \<noteq> k) m"

definition adistinct :: "('k \<times> 'v) list \<Rightarrow> bool" where
  "adistinct m \<longleftrightarrow> distinct (map fst m)"

section \<open>Lemmas on division\<close>

lemma sdiv_nonneg [go_arith]: "0 \<le> a \<Longrightarrow> 0 \<le> b \<Longrightarrow> a sdiv b = a div (b :: int)"
  by (cases "a = 0 \<or> b = 0") (auto simp: signed_divide_int_def sgn_if)

lemma smod_nonneg [go_arith]: "0 \<le> a \<Longrightarrow> 0 \<le> b \<Longrightarrow> a smod b = a mod (b :: int)"
  by (cases "a = 0 \<or> b = 0") (auto simp: signed_modulo_int_def sgn_if)

lemma sdiv_int [go_arith]: "int a sdiv int b = int (a div b)"
  by (simp add: sdiv_nonneg zdiv_int)

lemma smod_int [go_arith]: "int a smod int b = int (a mod b)"
  by (simp add: smod_nonneg zmod_int)

text \<open>
  Cutting a range of \<open>l\<close> bytes at \<open>o\<close> along blocks of \<open>ss\<close> bytes: the rest of the first block, whole
  blocks, and the beginning of the last block.
\<close>

lemma block_split:
  fixes ss off l :: nat
  assumes "0 < ss" "ss - off mod ss < l"
  defines "S \<equiv> off div ss" and "T \<equiv> (off + l) div ss"
  shows "S + 1 \<le> T" "(ss - off mod ss) + (T - (S + 1)) * ss + (off + l) mod ss = l"
    "off + (ss - off mod ss) = (S + 1) * ss" "off + l - (off + l) mod ss = T * ss"
proof -
  have r: "off mod ss < ss" and off: "off = S * ss + off mod ss"
    using assms by (auto simp: S_def)
  have T: "off + l = T * ss + (off + l) mod ss" by (simp add: T_def)
  show 1: "off + (ss - off mod ss) = (S + 1) * ss" using off r by (simp add: algebra_simps)
  show "S + 1 \<le> T" using 1 assms(1,2) less_eq_div_iff_mult_less_eq [of ss "S + 1" "off + l"]
    by (simp add: T_def)
  then have "(T - (S + 1)) * ss + (S + 1) * ss = T * ss"
    by (metis add_mult_distrib le_add_diff_inverse2)
  then show "(ss - off mod ss) + (T - (S + 1)) * ss + (off + l) mod ss = l"
    using 1 T by linarith
  show "off + l - (off + l) mod ss = T * ss" by (simp add: T_def minus_mod_eq_div_mult)
qed

lemma i64_id: "- (2 ^ 63) \<le> x \<Longrightarrow> x < 2 ^ 63 \<Longrightarrow> i64 x = x"
  by (simp add: i64_def sint_sbintrunc' signed_take_bit_int_eq_self)

section \<open>Lemmas on slices\<close>

lemma length_copy_at [simp, slice_simps]: "length (copy_at xs i ys) = length xs"
  by (auto simp: copy_at_def)

lemma nth_copy_at [slice_simps]:
  "k < length xs \<Longrightarrow>
     copy_at xs i ys ! k = (if i \<le> k \<and> k < i + length ys then ys ! (k - i) else xs ! k)"
  by (auto simp: copy_at_def nth_append min_def)

lemma copy_at_Nil [simp]: "copy_at xs i [] = xs"
  by (simp add: copy_at_def)

lemma copy_at_all: "length ys = length xs \<Longrightarrow> copy_at xs 0 ys = ys"
  by (simp add: copy_at_def)

lemma go_slice_Some:
  "go_slice xs lo hi = Some ys \<longleftrightarrow>
     0 \<le> lo \<and> lo \<le> hi \<and> hi \<le> int (length xs) \<and> ys = take (nat (hi - lo)) (drop (nat lo) xs)"
  by (auto simp: go_slice_def nat_diff_distrib)

lemma length_go_slice [slice_simps]:
  "go_slice xs lo hi = Some ys \<Longrightarrow> int (length ys) = hi - lo"
  by (auto simp: go_slice_Some)

lemma go_nth_Some: "go_nth xs i = Some v \<longleftrightarrow> 0 \<le> i \<and> i < int (length xs) \<and> v = xs ! nat i"
  by (auto simp: go_nth_def)

lemma go_update_Some:
  "go_update xs i v = Some ys \<longleftrightarrow> 0 \<le> i \<and> i < int (length xs) \<and> ys = xs[nat i := v]"
  by (auto simp: go_update_def)

section \<open>Lemmas on strings\<close>

lemma HasPrefix_append [simp]: "HasPrefix (p @ s) p"
  by (simp add: HasPrefix_def)

lemma HasSuffix_append [simp]: "HasSuffix (s @ p) p"
  by (simp add: HasSuffix_def)

lemma TrimPrefix_append [simp]: "TrimPrefix (p @ s) p = s"
  by (simp add: TrimPrefix_def)

lemma TrimSuffix_append [simp]: "TrimSuffix (s @ p) p = s"
  by (simp add: TrimSuffix_def)

lemma HasSuffix_obtain: "HasSuffix s p \<Longrightarrow> \<exists>t. s = t @ p"
  by (metis HasSuffix_def append_take_drop_id)

lemma HasPrefix_obtain: "HasPrefix s p \<Longrightarrow> \<exists>t. s = p @ t"
  by (metis HasPrefix_def append_take_drop_id)

lemma Contains_HasPrefix: "HasPrefix s p \<Longrightarrow> Contains s p"
  by (cases s) (auto simp: HasPrefix_def)

lemma Contains_append: "Contains (s @ p @ t) p"
  by (induction s) (auto intro: Contains_HasPrefix simp del: append_assoc)

section \<open>Lemmas on decimal numerals\<close>

lemma of_char_digit: "n < 10 \<Longrightarrow> (of_char (digit_char n) :: nat) = 48 + n"
  by (simp add: digit_char_def)

lemma is_digit_digit_char [simp]: "n < 10 \<Longrightarrow> is_digit (digit_char n)"
  by (simp add: is_digit_def of_char_digit)

lemma digit_val_digit_char [simp]: "n < 10 \<Longrightarrow> digit_val (digit_char n) = n"
  by (simp add: digit_val_def of_char_digit)

lemma show_nat_digits: "show_nat n \<noteq> [] \<and> list_all is_digit (show_nat n)"
  by (induction n rule: show_nat.induct) (subst (1 2) show_nat.simps, simp)

lemma show_nat_value: "foldl (\<lambda>acc c. 10 * acc + digit_val c) 0 (show_nat n) = n"
proof (induction n rule: show_nat.induct)
  case (1 n)
  then show ?case by (cases "n < 10") (simp_all add: show_nat.simps [of n])
qed

lemma parse_show_nat [simp]: "parse_nat (show_nat n) = Some n"
  by (simp add: parse_nat_def show_nat_digits show_nat_value)

lemma show_nat_inj [simp]: "show_nat m = show_nat n \<longleftrightarrow> m = n"
  by (metis option.inject parse_show_nat)

lemma show_nat_head: "show_nat n = c # cs \<Longrightarrow> is_digit c"
  using show_nat_digits [of n] by simp

lemma ParseInt_show_int:
  assumes "- (2 ^ 63) \<le> i" and "i < 2 ^ 63"
  shows "ParseInt (show_int i) = Some i"
proof (cases "i < 0")
  case True
  then show ?thesis using assms by (simp add: ParseInt_def show_int_def)
next
  case False
  obtain c cs where s: "show_nat (nat i) = c # cs"
    using show_nat_digits [of "nat i"] by (cases "show_nat (nat i)") auto
  from show_nat_head [OF s] have "c \<noteq> CHR ''-''" "c \<noteq> CHR ''+''"
    by (auto simp: is_digit_def)
  then show ?thesis using assms False parse_show_nat [of "nat i"]
    by (simp add: ParseInt_def show_int_def s)
qed

section \<open>Lemmas on association lists\<close>

lemma alookup_map_of: "alookup m = map_of m"
  by (rule ext, induction m) auto

lemma alookup_aupdate [simp]: "alookup (aupdate m k v) k' = (if k' = k then Some v else alookup m k')"
  by (induction m) auto

lemma alookup_adelete [simp]: "alookup (adelete m k) k' = (if k' = k then None else alookup m k')"
  by (induction m) (auto simp: adelete_def)

lemma keys_aupdate: "fst ` set (aupdate m k v) = insert k (fst ` set m)"
  by (induction m k v rule: aupdate.induct) auto

lemma adistinct_Nil [simp]: "adistinct []"
  by (simp add: adistinct_def)

lemma adistinct_aupdate [simp]: "adistinct m \<Longrightarrow> adistinct (aupdate m k v)"
proof (induction m)
  case (Cons x m)
  then show ?case
    using keys_aupdate [of m k v] by (cases x) (auto simp: adistinct_def simp flip: set_map)
qed (simp add: adistinct_def)

lemma adistinct_adelete [simp]: "adistinct m \<Longrightarrow> adistinct (adelete m k)"
  by (induction m) (auto simp: adistinct_def adelete_def)

lemma alookup_None_iff: "alookup m k = None \<longleftrightarrow> k \<notin> fst ` set m"
  by (simp add: alookup_map_of map_of_eq_None_iff)

lemma alookup_in_set: "alookup m k = Some v \<Longrightarrow> (k, v) \<in> set m"
  by (simp add: alookup_map_of map_of_SomeD)

lemma alookup_mem_iff: "adistinct m \<Longrightarrow> (k, v) \<in> set m \<longleftrightarrow> alookup m k = Some v"
  by (simp add: alookup_map_of adistinct_def)

lemma set_adelete: "set (adelete m k) = {(k', v). (k', v) \<in> set m \<and> k' \<noteq> k}"
  by (auto simp: adelete_def)

end
