(* ===== verification/BlockDevice.thy ===== *)
theory BlockDevice
  imports Base
begin

text \<open>
  The contract of a block device (\<^verbatim>\<open>types.ReaderWriterUnmapperAt\<close> as its callers use it): a state that
  stores a list of bytes, a write that overwrites a range and a read that returns one.  The lemmas
  on sequences of requests are proved once here and hold for every provider.
\<close>

fun write_all :: "('s \<Rightarrow> byte list \<Rightarrow> nat \<Rightarrow> 's option) \<Rightarrow> (nat \<times> byte list) list \<Rightarrow> 's \<Rightarrow> 's option" where
  "write_all w [] s = Some s"
| "write_all w ((off, buf) # ws) s = Option.bind (w s buf off) (write_all w ws)"

fun overlay :: "(nat \<times> byte list) list \<Rightarrow> byte list \<Rightarrow> byte list" where
  "overlay [] xs = xs"
| "overlay ((off, buf) # ws) xs = overlay ws (copy_at xs off buf)"

definition in_range :: "nat \<Rightarrow> (nat \<times> byte list) list \<Rightarrow> bool" where
  "in_range n ws \<longleftrightarrow> list_all (\<lambda>(off, buf). off + length buf \<le> n) ws"

lemma length_overlay [simp]: "length (overlay ws xs) = length xs"
  by (induction ws xs rule: overlay.induct) auto

text \<open>A byte of the overlay is the one the last covering write wrote.\<close>

lemma overlay_untouched:
  "k < length xs \<Longrightarrow> list_all (\<lambda>(off, buf). k < off \<or> off + length buf \<le> k) ws \<Longrightarrow> overlay ws xs ! k = xs ! k"
  by (induction ws xs rule: overlay.induct) (auto simp: nth_copy_at)

lemma overlay_append: "overlay (us @ ws) xs = overlay ws (overlay us xs)"
  by (induction us xs rule: overlay.induct) auto

lemma overlay_last_write:
  assumes "off + length buf \<le> length xs" "off \<le> k" "k < off + length buf"
    "list_all (\<lambda>(o', b'). k < o' \<or> o' + length b' \<le> k) ws"
  shows "overlay (us @ (off, buf) # ws) xs ! k = buf ! (k - off)"
  using assms overlay_untouched [of k "copy_at (overlay us xs) off buf" ws]
  by (simp add: overlay_append nth_copy_at)

locale block_device =
  fixes invar :: "'s \<Rightarrow> bool" and contents :: "'s \<Rightarrow> byte list"
    and dev_write :: "'s \<Rightarrow> byte list \<Rightarrow> nat \<Rightarrow> 's option"
    and dev_read :: "'s \<Rightarrow> nat \<Rightarrow> nat \<Rightarrow> ('s \<times> byte list) option"
  assumes write_law: "invar s \<Longrightarrow> off + length buf \<le> length (contents s) \<Longrightarrow>
      dev_write s buf off = Some s' \<Longrightarrow> invar s' \<and> contents s' = copy_at (contents s) off buf"
    and read_law: "invar s \<Longrightarrow> off + n \<le> length (contents s) \<Longrightarrow> dev_read s off n = Some (s', buf) \<Longrightarrow>
      invar s' \<and> contents s' = contents s \<and> buf = take n (drop off (contents s))"
begin

lemma write_all_contents:
  "invar s \<Longrightarrow> in_range (length (contents s)) ws \<Longrightarrow> write_all dev_write ws s = Some s' \<Longrightarrow>
     invar s' \<and> contents s' = overlay ws (contents s)"
proof (induction ws arbitrary: s)
  case (Cons w ws)
  obtain off buf where w: "w = (off, buf)" by fastforce
  then obtain s1 where s1: "dev_write s buf off = Some s1" "write_all dev_write ws s1 = Some s'"
    using Cons.prems(3) by (auto simp: bind_eq_Some_conv)
  then have "invar s1 \<and> contents s1 = copy_at (contents s) off buf"
    using write_law [of s off buf s1] Cons.prems w by (simp add: in_range_def)
  then show ?case using Cons.IH [of s1] Cons.prems s1 w by (simp add: in_range_def)
qed simp

lemma read_after_writes:
  assumes "invar s" "in_range (length (contents s)) ws" "write_all dev_write ws s = Some s'"
    "off + n \<le> length (contents s)" "dev_read s' off n = Some (s'', buf)"
  shows "buf = take n (drop off (overlay ws (contents s)))"
  using write_all_contents [OF assms(1-3)] read_law [of s' off n s'' buf] assms(4,5) by simp

end

text \<open>A device whose requests inside the range never fail.\<close>

locale reliable_device = block_device +
  assumes write_total: "invar s \<Longrightarrow> off + length buf \<le> length (contents s) \<Longrightarrow> \<exists>s'. dev_write s buf off = Some s'"
    and read_total: "invar s \<Longrightarrow> off + n \<le> length (contents s) \<Longrightarrow> \<exists>s' buf. dev_read s off n = Some (s', buf)"
begin

lemma write_all_total:
  "invar s \<Longrightarrow> in_range (length (contents s)) ws \<Longrightarrow> \<exists>s'. write_all dev_write ws s = Some s'"
proof (induction ws arbitrary: s)
  case (Cons w ws)
  obtain off buf where w: "w = (off, buf)" by fastforce
  then obtain s1 where s1: "dev_write s buf off = Some s1"
    using write_total [of s off buf] Cons.prems by (auto simp: in_range_def)
  then have "invar s1 \<and> contents s1 = copy_at (contents s) off buf"
    using write_law [of s off buf s1] Cons.prems w by (simp add: in_range_def)
  then show ?case using Cons.IH [of s1] Cons.prems s1 w by (simp add: in_range_def)
qed simp

lemma reads_back:
  assumes "invar s" "in_range (length (contents s)) ws" "off + n \<le> length (contents s)"
  shows "\<exists>s' s''. write_all dev_write ws s = Some s' \<and>
           dev_read s' off n = Some (s'', take n (drop off (overlay ws (contents s))))"
proof -
  obtain s' where s': "write_all dev_write ws s = Some s'" using write_all_total assms by blast
  moreover have "invar s'" "contents s' = overlay ws (contents s)"
    using write_all_contents [OF assms(1,2) s'] by auto
  moreover from this obtain s'' buf where "dev_read s' off n = Some (s'', buf)"
    using read_total [of s' off n] assms(3) by auto
  ultimately show ?thesis using read_after_writes [OF assms(1,2) s' assms(3)] by blast
qed

end

end
