(* ===== verification/Errors.thy ===== *)
theory Errors
  imports Base
begin

text \<open>
  Go error values (\<^verbatim>\<open>pkg/types/error.go\<close> and the error structs of \<^verbatim>\<open>pkg/controller\<close>): the datatype
  \<open>go_error\<close>, the text \<^verbatim>\<open>Error()\<close> gives it, and the helpers that wrap, combine and classify
  errors together with the outcome of a rollback.
\<close>

datatype ErrorCode =
    ErrorCodeResultUnknown
  | ErrorCodeFunctionFailedWithoutRollback
  | ErrorCodeFunctionFailedRollbackSucceeded
  | ErrorCodeFunctionFailedRollbackFailed

text \<open>
  \<open>Err\<close> is a plain error with a text (\<^verbatim>\<open>errors.New\<close>, \<^verbatim>\<open>fmt.Errorf\<close>), \<open>Wrapped\<close> an error with a
  message in front that \<^verbatim>\<open>errors.Is\<close> sees through, \<open>CodeError\<close> a \<^verbatim>\<open>*types.Error\<close>, and the last
  three the structs of the replicator.
\<close>

datatype go_error =
    Err string
  | EOF
  | ErrUnexpectedEOF
  | ErrNotExist
  | ErrNoSpaceLeftOnDevice
  | Wrapped string go_error
  | CodeError ErrorCode string string
  | MultiWriterError "go_error option list" "int list"
  | MultiUnmapperError "go_error option list"
  | BackendError "(string \<times> go_error) list" "(string \<times> int) list"

fun code_string :: "ErrorCode \<Rightarrow> string" where
  "code_string ErrorCodeResultUnknown = ''ResultUnknown''"
| "code_string ErrorCodeFunctionFailedWithoutRollback = ''FunctionFailedWithoutRollback''"
| "code_string ErrorCodeFunctionFailedRollbackSucceeded = ''FunctionFailedRollbackSucceeded''"
| "code_string ErrorCodeFunctionFailedRollbackFailed = ''FunctionFailedRollbackFailed''"

definition ErrorStringNoSpaceLeftOnDevice :: string where
  "ErrorStringNoSpaceLeftOnDevice = ''no space left on device''"

text \<open>The text of a \<^verbatim>\<open>*types.Error\<close>, with and without a rollback message.\<close>

definition Error_string :: "ErrorCode \<Rightarrow> string \<Rightarrow> string \<Rightarrow> string" where
  "Error_string code msg rb =
     (if rb = [] then ''error: code = '' @ code_string code @ '', message = '' @ msg
      else ''error: code = '' @ code_string code @ '', message = '' @ msg @
           '', rollbackMessage: '' @ rb)"

text \<open>The texts of several errors, as \<^verbatim>\<open>MultiWriterError.Error\<close> and its siblings join them.\<close>

definition join_errors :: "string list \<Rightarrow> string" where
  "join_errors es = (if es = [] then ''Unknown'' else Join es ''; '')"

fun error_string :: "go_error \<Rightarrow> string" where
  "error_string (Err s) = s"
| "error_string EOF = ''EOF''"
| "error_string ErrUnexpectedEOF = ''unexpected EOF''"
| "error_string ErrNotExist = ''file does not exist''"
| "error_string ErrNoSpaceLeftOnDevice = ErrorStringNoSpaceLeftOnDevice"
| "error_string (Wrapped m e) = m @ '': '' @ error_string e"
| "error_string (CodeError c m rb) = Error_string c m rb"
| "error_string (MultiWriterError es wbs) =
     join_errors (concat (map (\<lambda>e. case e of None \<Rightarrow> [] | Some x \<Rightarrow> [error_string x]) es))"
| "error_string (MultiUnmapperError es) =
     join_errors (concat (map (\<lambda>e. case e of None \<Rightarrow> [] | Some x \<Rightarrow> [error_string x]) es))"
| "error_string (BackendError es wbs) =
     join_errors (map (\<lambda>(a, x). a @ '': '' @ error_string x) es)"

text \<open>\<^verbatim>\<open>errors.Is\<close> against a sentinel: the error itself or what it wraps.\<close>

fun errors_Is :: "go_error \<Rightarrow> go_error \<Rightarrow> bool" where
  "errors_Is (Wrapped m e) s = (Wrapped m e = s \<or> errors_Is e s)"
| "errors_Is e s = (e = s)"

definition NewError :: "ErrorCode \<Rightarrow> string \<Rightarrow> string \<Rightarrow> go_error" where
  "NewError code msg rollbackMsg = CodeError code msg rollbackMsg"

fun WrapError :: "go_error option \<Rightarrow> string \<Rightarrow> go_error option" where
  "WrapError None msg = None"
| "WrapError (Some (CodeError c m rb)) msg = Some (CodeError c (msg @ '': '' @ m) rb)"
| "WrapError (Some e) msg =
     Some (NewError ErrorCodeResultUnknown (msg @ '': '' @ error_string e) [])"

fun CombineErrors_from :: "go_error option \<Rightarrow> go_error option list \<Rightarrow> go_error option" where
  "CombineErrors_from ret [] = ret"
| "CombineErrors_from ret (None # es) = CombineErrors_from ret es"
| "CombineErrors_from None (Some e # es) = CombineErrors_from (Some e) es"
| "CombineErrors_from (Some r) (Some e # es) =
     CombineErrors_from (Some (Err (error_string r @ '', '' @ error_string e))) es"

definition CombineErrors :: "go_error option list \<Rightarrow> go_error option" where
  "CombineErrors es = CombineErrors_from None es"

fun GenerateFunctionErrorWithRollback ::
  "go_error option \<Rightarrow> go_error option \<Rightarrow> go_error option" where
  "GenerateFunctionErrorWithRollback (Some f) (Some r) =
     Some (NewError ErrorCodeFunctionFailedRollbackFailed (error_string f) (error_string r))"
| "GenerateFunctionErrorWithRollback (Some f) None =
     Some (NewError ErrorCodeFunctionFailedRollbackSucceeded (error_string f) [])"
| "GenerateFunctionErrorWithRollback None (Some r) =
     Some (NewError ErrorCodeResultUnknown
       (''function succeeds but there is rollback error: '' @ error_string r) [])"
| "GenerateFunctionErrorWithRollback None None = None"

text \<open>The code a caller sees: a type assertion to \<^verbatim>\<open>*types.Error\<close>, else unknown.\<close>

definition error_code :: "go_error \<Rightarrow> ErrorCode" where
  "error_code e = (case e of CodeError c m rb \<Rightarrow> c | _ \<Rightarrow> ErrorCodeResultUnknown)"

section \<open>Lemmas\<close>

lemma CombineErrors_from_None_iff:
  "CombineErrors_from ret es = None \<longleftrightarrow> ret = None \<and> list_all (\<lambda>e. e = None) es"
  by (induction ret es rule: CombineErrors_from.induct) auto

lemma CombineErrors_None_iff: "CombineErrors es = None \<longleftrightarrow> list_all (\<lambda>e. e = None) es"
  by (simp add: CombineErrors_def CombineErrors_from_None_iff)

lemma GenerateFunctionErrorWithRollback_None_iff:
  "GenerateFunctionErrorWithRollback f r = None \<longleftrightarrow> f = None \<and> r = None"
  by (cases f; cases r) auto

lemma WrapError_code:
  "WrapError (Some e) msg = Some e' \<Longrightarrow> error_code e' = error_code e"
  by (cases e) (auto simp: error_code_def NewError_def)

lemma WrapError_None_iff [simp]: "WrapError e msg = None \<longleftrightarrow> e = None"
  by (cases "(e, msg)" rule: WrapError.cases) auto

text \<open>
  The code of a failed function tells the outcome of its rollback, also after it was wrapped:
  \<^verbatim>\<open>replicator.Expand\<close> decides by this code whether a replica is out of sync.
\<close>

lemma rollback_code:
  "WrapError (GenerateFunctionErrorWithRollback (Some f) r) msg = Some e \<Longrightarrow>
     (error_code e = ErrorCodeFunctionFailedRollbackSucceeded \<longleftrightarrow> r = None)"
  by (cases r) (auto simp: NewError_def error_code_def)

end
