(* ===== verification/DiffDisk.thy ===== *)
theory DiffDisk
  imports Errors "HOL-Library.Monad_Syntax"
begin

text \<open>
  The data path of a replica (\<^verbatim>\<open>pkg/replica/diff_disk.go\<close>, \<^verbatim>\<open>pkg/replica/extents.go\<close>): a chain of
  sparse files read through a per-sector location cache.  This theory holds the definitions, one
  per method of \<^verbatim>\<open>diffDisk\<close>; the theories \<open>DiffDiskRead\<close>, \<open>DiffDiskWrite\<close> and \<open>DiffDiskOps\<close>
  prove them correct.

  A file of the chain is an opaque \<open>'f\<close>: the sparse-file library and the FIEMAP ioctl are not part
  of the repository, so their calls are fields of the record \<open>file_ops\<close>, an argument of every
  operation.  An operation returns \<open>None\<close> when the Go code panics (index out of range, nil file,
  division by zero).  The slice \<^verbatim>\<open>buf\<close> a read fills is passed in and returned.
\<close>

section \<open>Files and disks\<close>

record extent =
  Logical :: u64
  Length :: u64
  Flags :: u32

definition FIEMAP_EXTENT_LAST :: u32 where
  "FIEMAP_EXTENT_LAST = 1"

record 'f file_ops =
  f_WriteAt :: "'f \<Rightarrow> byte list \<Rightarrow> int \<Rightarrow> 'f \<times> int \<times> go_error option"
  f_ReadAt :: "'f \<Rightarrow> byte list \<Rightarrow> int \<Rightarrow> byte list \<times> int \<times> go_error option"
  f_UnmapAt :: "'f \<Rightarrow> u32 \<Rightarrow> int \<Rightarrow> 'f \<times> int \<times> go_error option"
  f_Size :: "'f \<Rightarrow> int \<times> go_error option"
  f_Close :: "'f \<Rightarrow> 'f \<times> go_error option"
  f_Fiemap :: "'f \<Rightarrow> u64 \<Rightarrow> u64 \<Rightarrow> nat \<Rightarrow> extent list \<times> go_error option"

record 'f diffDisk =
  location :: "byte list"
  files :: "'f option list"
  sectorSize :: int
  dsize :: int

text \<open>The file at an index: \<^verbatim>\<open>d.files[i]\<close> and the call of a method on it, which panics on nil.\<close>

definition file_at :: "'f diffDisk \<Rightarrow> int \<Rightarrow> 'f option" where
  "file_at d i = Option.bind (go_nth (files d) i) (\<lambda>f. f)"

definition head_index :: "'f diffDisk \<Rightarrow> byte" where
  "head_index d = of_int (int (length (files d)) - 1)"

section \<open>Layers: removing one, growing the volume\<close>

definition shift_location :: "byte \<Rightarrow> byte \<Rightarrow> byte" where
  "shift_location index l = (if l = index then 0 else if l > index then l - 1 else l)"

definition RemoveIndex ::
  "'f file_ops \<Rightarrow> 'f diffDisk \<Rightarrow> int \<Rightarrow> ('f diffDisk \<times> go_error option) option" where
  "RemoveIndex ops d index =
     do { f \<leftarrow> file_at d index;
          case f_Close ops f of
            (f', Some e) \<Rightarrow> Some (d\<lparr>files := (files d)[nat index := Some f']\<rparr>, Some e)
          | (f', None) \<Rightarrow>
              Some (d\<lparr>location := map (shift_location (of_int index)) (location d),
                      files := take (nat index) (files d) @ drop (nat index + 1) (files d)\<rparr>, None) }"

definition Expand :: "'f diffDisk \<Rightarrow> int \<Rightarrow> 'f diffDisk option" where
  "Expand d sz =
     (if sectorSize d = 0 then None
      else
        let q = sz sdiv sectorSize d;
            newLocationSize = (if sz smod sectorSize d \<noteq> 0 then q + 1 else q);
            grow = newLocationSize - int (length (location d))
        in if grow < 0 then None
           else Some (d\<lparr>location := location d @ replicate (nat grow) 0, dsize := sz\<rparr>))"

section \<open>Reading\<close>

text \<open>The downward scan of \<^verbatim>\<open>lookup\<close>: the highest file above index 1 with an extent there.\<close>

fun lookup_scan ::
  "'f file_ops \<Rightarrow> 'f diffDisk \<Rightarrow> int \<Rightarrow> nat \<Rightarrow> (go_error + nat option) option" where
  "lookup_scan ops d sector 0 = Some (Inr None)"
| "lookup_scan ops d sector (Suc 0) = Some (Inr None)"
| "lookup_scan ops d sector (Suc (Suc i)) =
     do { f \<leftarrow> file_at d (int (Suc (Suc i)));
          case f_Fiemap ops f (of_int (sector * sectorSize d)) (of_int (sectorSize d)) 1 of
            (_, Some errno) \<Rightarrow> Some (Inl (Err (error_string errno)))
          | (e, None) \<Rightarrow>
              if e \<noteq> [] then Some (Inr (Some (Suc (Suc i)))) else lookup_scan ops d sector (Suc i) }"

definition lookup ::
  "'f file_ops \<Rightarrow> 'f diffDisk \<Rightarrow> int \<Rightarrow> ('f diffDisk \<times> byte \<times> go_error option) option" where
  "lookup ops d sector =
     (if int (length (location d)) \<le> sector then Some (d, head_index d, None)
      else if length (files d) < 2
      then Some (d, 0, Some (Err ''BUG: replica files cannot be less than 2''))
      else do {
        l \<leftarrow> go_nth (location d) sector;
        if l \<noteq> 0 then Some (d, l, None)
        else do {
          r \<leftarrow> lookup_scan ops d sector (length (files d) - 1);
          case r of
            Inl e \<Rightarrow> Some (d, 0, Some e)
          | Inr found \<Rightarrow>
              let v = (case found of Some i \<Rightarrow> of_nat i | None \<Rightarrow> 0);
                  v' = (if v = 0 then 1 else v)
              in Some (d\<lparr>location := (location d)[nat sector := v']\<rparr>, v', None) } })"

definition read ::
  "'f file_ops \<Rightarrow> 'f diffDisk \<Rightarrow> byte \<Rightarrow> byte list \<Rightarrow> int \<Rightarrow> int \<Rightarrow> int \<Rightarrow>
     (byte list \<times> int \<times> go_error option) option" where
  "read ops d target buf offset startSector sectors =
     (let bufStart = startSector * sectorSize d;
          bufLength = sectors * sectorSize d;
          diskReadStartOffset = offset + bufStart;
          diskReadEndOffset = diskReadStartOffset + bufLength;
          volumeSize = dsize d
      in do {
        f \<leftarrow> file_at d (uint target);
        case f_Size ops f of
          (_, Some e) \<Rightarrow> Some (buf, 0, Some e)
        | (diskSize, None) \<Rightarrow>
            do { (buf', count, err) \<leftarrow>
                   (if diskReadStartOffset < diskSize
                    then do {
                      newBuf \<leftarrow> go_slice buf bufStart
                                 (bufStart + min bufLength (diskSize - diskReadStartOffset));
                      let (b, n, e) = f_ReadAt ops f newBuf diskReadStartOffset
                      in Some (copy_at buf (nat bufStart) b, n, e) }
                    else Some (buf, 0, None));
                 if err \<noteq> None then Some (buf', count, err)
                 else if diskReadEndOffset \<le> diskSize then Some (buf', count, None)
                 else if diskReadEndOffset \<le> volumeSize
                 then Some (buf', count + (diskReadEndOffset - max diskSize diskReadStartOffset), None)
                 else Some (buf', count + (volumeSize - max diskSize diskReadStartOffset),
                            Some ErrUnexpectedEOF) } })"

text \<open>
  The loop of \<^verbatim>\<open>fullReadAt\<close> at index \<open>i\<close> with \<open>n\<close> sectors to look at: \<open>rs\<close> sectors ending before
  \<open>i\<close> are pending, all in the file \<open>target\<close>.
\<close>

fun fullReadAt_loop ::
  "'f file_ops \<Rightarrow> int \<Rightarrow> int \<Rightarrow> nat \<Rightarrow> 'f diffDisk \<Rightarrow> byte list \<Rightarrow> nat \<Rightarrow> byte \<Rightarrow> nat \<Rightarrow> int \<Rightarrow>
     ('f diffDisk \<times> byte list \<times> int \<times> go_error option) option" where
  "fullReadAt_loop ops offset startSector 0 d buf i target rs count =
     (if 0 < rs
      then do { (buf', c, e) \<leftarrow> read ops d target buf offset (int i - int rs) (int rs);
                Some (d, buf', count + c, e) }
      else Some (d, buf, count, None))"
| "fullReadAt_loop ops offset startSector (Suc n) d buf i target rs count =
     do { (d', newTarget, err) \<leftarrow> lookup ops d (startSector + int i);
          if err \<noteq> None then Some (d', buf, count, err)
          else if newTarget = target
          then fullReadAt_loop ops offset startSector n d' buf (Suc i) target (rs + 1) count
          else do {
            (buf', c, e) \<leftarrow> read ops d' target buf offset (int i - int rs) (int rs);
            if e \<noteq> None then Some (d', buf', count + c, e)
            else fullReadAt_loop ops offset startSector n d' buf' (Suc i) newTarget 1 (count + c) } }"

definition fullReadAt ::
  "'f file_ops \<Rightarrow> 'f diffDisk \<Rightarrow> byte list \<Rightarrow> int \<Rightarrow>
     ('f diffDisk \<times> byte list \<times> int \<times> go_error option) option" where
  "fullReadAt ops d buf offset =
     (if sectorSize d = 0 then None
      else if int (length buf) smod sectorSize d \<noteq> 0 \<or> offset smod sectorSize d \<noteq> 0
      then Some (d, buf, 0, Some (Err (''read not a multiple of '' @ show_int (sectorSize d))))
      else if buf = [] then Some (d, buf, 0, None)
      else
        let sectors = int (length buf) sdiv sectorSize d;
            startSector = offset sdiv sectorSize d
        in do {
          (d', target, err) \<leftarrow> lookup ops d startSector;
          if err \<noteq> None then Some (d', buf, 0, err)
          else fullReadAt_loop ops offset startSector (nat (sectors - 1)) d' buf 1 target 1 0 })"

definition ReadAt ::
  "'f file_ops \<Rightarrow> 'f diffDisk \<Rightarrow> byte list \<Rightarrow> int \<Rightarrow>
     ('f diffDisk \<times> byte list \<times> int \<times> go_error option) option" where
  "ReadAt ops d buf offset =
     (if sectorSize d = 0 then None
      else
        let l = int (length buf);
            startOffset = offset smod sectorSize d;
            startCut = sectorSize d - startOffset;
            endOffset = (l + offset) smod sectorSize d
        in if buf = [] then Some (d, buf, 0, None)
           else if startOffset = 0 \<and> endOffset = 0 then fullReadAt ops d buf offset
           else if sectorSize d < 0 then None
           else do {
             (d1, readBuf, _, e1) \<leftarrow>
               fullReadAt ops d (replicate (nat (sectorSize d)) 0) (offset - startOffset);
             if e1 \<noteq> None then Some (d1, buf, 0, e1)
             else do {
               tail \<leftarrow> go_slice readBuf startOffset (int (length readBuf));
               let buf1 = copy_at buf 0 (take (length buf) tail)
               in if l \<le> startCut then Some (d1, buf1, l, None)
                  else do {
                    mid \<leftarrow> go_slice buf1 startCut (l - endOffset);
                    (d2, mid', _, e2) \<leftarrow> fullReadAt ops d1 mid (offset + startCut);
                    let buf2 = copy_at buf1 (nat startCut) mid'
                    in if e2 \<noteq> None then Some (d2, buf2, 0, e2)
                       else if endOffset > 0
                       then do {
                         (d3, readBuf', _, e3) \<leftarrow> fullReadAt ops d2 readBuf (offset + l - endOffset);
                         if e3 \<noteq> None then Some (d3, buf2, 0, e3)
                         else Some (d3, copy_at buf2 (nat (l - endOffset))
                                          (take (nat endOffset) readBuf'), l, None) }
                       else Some (d2, buf2, l, None) } } })"

section \<open>Writing\<close>

definition computeNominalWrittenBytes :: "int \<Rightarrow> int \<Rightarrow> int \<Rightarrow> int \<Rightarrow> int" where
  "computeNominalWrittenBytes bufSize writtenBytes offset readOffset =
     (if offset < readOffset then 0
      else
        let nominalWrittenBytes = writtenBytes - (offset - readOffset);
            n1 = (if nominalWrittenBytes < 0 then 0 else nominalWrittenBytes)
        in if n1 > bufSize then bufSize else n1)"

fun mark_sectors :: "byte list \<Rightarrow> int \<Rightarrow> nat \<Rightarrow> byte \<Rightarrow> byte list option" where
  "mark_sectors loc sector 0 target = Some loc"
| "mark_sectors loc sector (Suc n) target =
     do { loc' \<leftarrow> go_update loc sector target; mark_sectors loc' (sector + 1) n target }"

definition fullWriteAt ::
  "'f file_ops \<Rightarrow> 'f diffDisk \<Rightarrow> byte list \<Rightarrow> int \<Rightarrow>
     ('f diffDisk \<times> int \<times> go_error option) option" where
  "fullWriteAt ops d buf offset =
     (if sectorSize d = 0 then None
      else if int (length buf) smod sectorSize d \<noteq> 0 \<or> offset smod sectorSize d \<noteq> 0
      then Some (d, 0, Some (Err (''write len('' @ show_int (int (length buf)) @ ''), offset '' @
             show_int offset @ '' not a multiple of '' @ show_int (sectorSize d))))
      else
        let target = head_index d;
            startSector = offset sdiv sectorSize d;
            sectors = int (length buf) sdiv sectorSize d
        in do {
          f \<leftarrow> file_at d (uint target);
          let (f', c, err) = f_WriteAt ops f buf offset
          in do {
            loc \<leftarrow> mark_sectors (location d) startSector (nat sectors) target;
            Some (d\<lparr>location := loc, files := (files d)[unat target := Some f']\<rparr>, c, err) } })"

definition readModifyWrite ::
  "'f file_ops \<Rightarrow> 'f diffDisk \<Rightarrow> byte list \<Rightarrow> int \<Rightarrow>
     ('f diffDisk \<times> int \<times> go_error option) option" where
  "readModifyWrite ops d buf offset =
     (if buf = [] then Some (d, 0, None)
      else if sectorSize d \<le> 0 then None
      else
        let readOffset = (offset sdiv sectorSize d) * sectorSize d;
            start = offset smod sectorSize d
        in do {
          (d1, readBuf, _, e1) \<leftarrow> fullReadAt ops d (replicate (nat (sectorSize d)) 0) readOffset;
          if e1 \<noteq> None then Some (d1, 0, e1)
          else if start < 0 then None
          else do {
            (d2, n, e2) \<leftarrow> fullWriteAt ops d1 (copy_at readBuf (nat start) buf) readOffset;
            if e2 \<noteq> None
            then Some (d2, computeNominalWrittenBytes (int (length buf)) n offset readOffset, e2)
            else Some (d2, int (length buf), None) } })"

definition WriteAt ::
  "'f file_ops \<Rightarrow> 'f diffDisk \<Rightarrow> byte list \<Rightarrow> int \<Rightarrow>
     ('f diffDisk \<times> int \<times> go_error option) option" where
  "WriteAt ops d buf offset =
     (if sectorSize d = 0 then None
      else
        let l = int (length buf);
            startOffset = offset smod sectorSize d;
            startCut = sectorSize d - startOffset;
            endOffset = (l + offset) smod sectorSize d
        in if buf = [] then Some (d, 0, None)
           else if startOffset = 0 \<and> endOffset = 0 then fullWriteAt ops d buf offset
           else if startCut \<ge> l then readModifyWrite ops d buf offset
           else do {
             first \<leftarrow> go_slice buf 0 startCut;
             (d1, startWritten, e1) \<leftarrow> readModifyWrite ops d first offset;
             if e1 \<noteq> None then Some (d1, startWritten, e1)
             else do {
               mid \<leftarrow> go_slice buf startCut (l - endOffset);
               (d2, middleWritten, e2) \<leftarrow> fullWriteAt ops d1 mid (offset + startCut);
               if e2 \<noteq> None then Some (d2, middleWritten + startWritten, e2)
               else do {
                 last \<leftarrow> go_slice buf (l - endOffset) l;
                 (d3, endWritten, e3) \<leftarrow> readModifyWrite ops d2 last (offset + l - endOffset);
                 if e3 \<noteq> None then Some (d3, endWritten + startWritten + middleWritten, e3)
                 else Some (d3, l, None) } } })"

section \<open>Unmapping\<close>

text \<open>
  The loop of \<^verbatim>\<open>UnmapAt\<close> over the pairs of a file index and the path the caller gave for it.
  \<open>actual\<close> is the allocated size \<^verbatim>\<open>util.GetFileActualSize\<close> reads for a path (negative on failure).
\<close>

fun UnmapAt_loop ::
  "'f file_ops \<Rightarrow> ('f diffDisk \<Rightarrow> string \<Rightarrow> int) \<Rightarrow> u32 \<Rightarrow> int \<Rightarrow> (nat \<times> string) list \<Rightarrow>
     'f diffDisk \<Rightarrow> bool \<Rightarrow> int \<Rightarrow> ('f diffDisk \<times> int \<times> go_error option) option" where
  "UnmapAt_loop ops actual len offset [] d sizeErr unmapped =
     Some (d, if sizeErr then 0 else unmapped, None)"
| "UnmapAt_loop ops actual len offset ((idx, path) # rest) d sizeErr unmapped =
     (let before = actual d path;
          sizeErr1 = (sizeErr \<or> before < 0)
      in do {
        f \<leftarrow> file_at d (int idx);
        case f_Size ops f of
          (_, Some e) \<Rightarrow>
            Some (d, 0, Some (Wrapped (''failed to get the disk file '' @ path @
                                       '' apparent size before unmap'') e))
        | (apparentSize, None) \<Rightarrow>
            if apparentSize < offset
            then UnmapAt_loop ops actual len offset rest d sizeErr1 unmapped
            else
              let curLength = (if apparentSize < offset + uint len
                               then of_int (apparentSize - offset) else len)
              in if curLength = 0
                 then UnmapAt_loop ops actual len offset rest d sizeErr1 unmapped
                 else
                   (case f_UnmapAt ops f curLength offset of
                      (f', _, Some e) \<Rightarrow>
                        Some (d\<lparr>files := (files d)[idx := Some f']\<rparr>, 0,
                              Some (Wrapped (''failed to do unmap with offset '' @ show_int offset @
                                '' and length '' @ show_nat (unat curLength) @
                                '' for the disk file '' @ path) e))
                    | (f', _, None) \<Rightarrow>
                        let d' = d\<lparr>files := (files d)[idx := Some f']\<rparr>;
                            after = actual d' path;
                            sizeErr2 = (sizeErr1 \<or> after < 0);
                            unmapped' = (if sizeErr2 then unmapped
                                         else unmapped + (before - after))
                        in UnmapAt_loop ops actual len offset rest d' sizeErr2 unmapped') })"

text \<open>The sector-aligned part of a range: what is left of the length and where it starts.\<close>

definition unmap_range :: "int \<Rightarrow> u32 \<Rightarrow> int \<Rightarrow> u32 \<times> int" where
  "unmap_range ss len offset =
     (let startSectorOffset = offset smod ss;
          endSectorOffset = (uint len + offset) smod ss;
          offset1 = (if startSectorOffset \<noteq> 0 then offset + (ss - startSectorOffset) else offset);
          len1 = (if startSectorOffset \<noteq> 0 then len - of_int (ss - startSectorOffset) else len);
          len2 = (if endSectorOffset \<noteq> 0 then len1 - of_int endSectorOffset else len1)
      in (len2, offset1))"

definition UnmapAt ::
  "'f file_ops \<Rightarrow> ('f diffDisk \<Rightarrow> string \<Rightarrow> int) \<Rightarrow> 'f diffDisk \<Rightarrow> string list \<Rightarrow> u32 \<Rightarrow> int \<Rightarrow>
     ('f diffDisk \<times> int \<times> go_error option) option" where
  "UnmapAt ops actual d unmappableDisks len offset =
     (if len < of_int (sectorSize d) then Some (d, 0, None)
      else if sectorSize d = 0 then None
      else
        let (len', offset') = unmap_range (sectorSize d) len offset
        in if len' = 0 then Some (d, 0, None)
           else if len < len'
           then Some (d, 0, Some (Err (''final unmap length('' @ show_nat (unat len') @
                  '') should not be larger than original length('' @ show_nat (unat len) @ '')'')))
           else UnmapAt_loop ops actual len' offset'
                  (zip (rev [1..<length (files d)]) unmappableDisks) d False 0)"

section \<open>Loading the location cache from the extents\<close>

definition MaxExtentsBuffer :: nat where
  "MaxExtentsBuffer = 1024"

fun mark_extent_loop :: "byte list \<Rightarrow> int \<Rightarrow> int \<Rightarrow> int \<Rightarrow> nat \<Rightarrow> byte \<Rightarrow> byte list option" where
  "mark_extent_loop loc ss logical i 0 idx = Some loc"
| "mark_extent_loop loc ss logical i (Suc n) idx =
     do { loc' \<leftarrow> go_update loc ((logical + i) sdiv ss) idx;
          mark_extent_loop loc' ss logical (i + ss) n idx }"

text \<open>One extent; the loop \<open>for i := 0; i < Length; i += sectorSize\<close> never ends or divides by zero
  when the sector size is not positive, which gives \<open>None\<close>.\<close>

definition mark_extent :: "byte list \<Rightarrow> int \<Rightarrow> extent \<Rightarrow> byte \<Rightarrow> byte list option" where
  "mark_extent loc ss e idx =
     (let len = sint (Length e)
      in if len \<le> 0 then Some loc
         else if ss \<le> 0 then None
         else mark_extent_loop loc ss (sint (Logical e)) 0 (nat ((len + ss - 1) div ss)) idx)"

text \<open>The extents of one ioctl reply; the flag says that the last extent of the file was seen.\<close>

fun mark_extents :: "byte list \<Rightarrow> int \<Rightarrow> extent list \<Rightarrow> byte \<Rightarrow> (byte list \<times> bool) option" where
  "mark_extents loc ss [] idx = Some (loc, False)"
| "mark_extents loc ss (e # es) idx =
     do { loc' \<leftarrow> mark_extent loc ss e idx;
          if and (Flags e) FIEMAP_EXTENT_LAST \<noteq> 0 then Some (loc', True)
          else mark_extents loc' ss es idx }"

partial_function (option) LoadDiffDiskLocationList_loop ::
  "'f file_ops \<Rightarrow> 'f \<Rightarrow> int \<Rightarrow> u64 \<Rightarrow> byte \<Rightarrow> u64 \<Rightarrow> byte list \<Rightarrow>
     (byte list \<times> go_error option) option" where
  "LoadDiffDiskLocationList_loop ops f ss stop idx start loc =
     (case f_Fiemap ops f start (stop - start) MaxExtentsBuffer of
        (_, Some errno) \<Rightarrow> Some (loc, Some errno)
      | (extents, None) \<Rightarrow>
          if extents = [] then Some (loc, None)
          else
            Option.bind (mark_extents loc ss extents idx) (\<lambda>(loc', seenLast).
              if seenLast then Some (loc', None)
              else LoadDiffDiskLocationList_loop ops f ss stop idx
                     (Logical (last extents) + Length (last extents)) loc'))"

definition LoadDiffDiskLocationList ::
  "'f file_ops \<Rightarrow> 'f diffDisk \<Rightarrow> 'f \<Rightarrow> byte \<Rightarrow> ('f diffDisk \<times> go_error option) option" where
  "LoadDiffDiskLocationList ops d f idx =
     do { (loc, e) \<leftarrow> LoadDiffDiskLocationList_loop ops f (sectorSize d)
                        (of_nat (length (location d)) * of_int (sectorSize d)) idx 0 (location d);
          Some (d\<lparr>location := loc\<rparr>, e) }"

definition initializeSectorLocation :: "'f diffDisk \<Rightarrow> byte \<Rightarrow> 'f diffDisk" where
  "initializeSectorLocation d v = d\<lparr>location := map (\<lambda>_. v) (location d)\<rparr>"

definition backingFileIndex :: byte where
  "backingFileIndex = 1"

fun preload_loop ::
  "'f file_ops \<Rightarrow> bool \<Rightarrow> nat list \<Rightarrow> 'f diffDisk \<Rightarrow> ('f diffDisk \<times> go_error option) option" where
  "preload_loop ops isThereBackingFile [] d = Some (d, None)"
| "preload_loop ops isThereBackingFile (i # is) d =
     (if i = 0 then preload_loop ops isThereBackingFile is d
      else if int i = uint backingFileIndex \<and> isThereBackingFile
      then preload_loop ops isThereBackingFile is d
      else do {
        f \<leftarrow> file_at d (int i);
        (d1, e1) \<leftarrow> LoadDiffDiskLocationList ops d f (of_nat i);
        if e1 \<noteq> None then Some (d1, e1)
        else if i = length (files d) - 1
        then (case f_Size ops f of
                (_, Some e) \<Rightarrow> Some (d1, Some e)
              | (sz, None) \<Rightarrow> preload_loop ops isThereBackingFile is (d1\<lparr>dsize := sz\<rparr>))
        else preload_loop ops isThereBackingFile is d1 })"

definition preload ::
  "'f file_ops \<Rightarrow> bool \<Rightarrow> 'f diffDisk \<Rightarrow> ('f diffDisk \<times> go_error option) option" where
  "preload ops isThereBackingFile d = preload_loop ops isThereBackingFile [0..<length (files d)] d"

end
