(* ===== verification/DiffDiskView.thy ===== *)
theory DiffDiskView
  imports DiffDisk
begin

text \<open>
  What a chain of files means.  A \<open>file_view\<close> gives the bytes, the length and the allocated offsets
  of an opaque file; the laws relate the calls of the sparse-file library to it (POSIX pread and
  pwrite at a position, FIEMAP, hole punching), each only when the call reports no error.  \<open>vol\<close>
  is the volume the chain stores: every sector is the one of the file the cache names or, when
  the cache does not know, of the highest file that has data there.  \<open>dd_inv\<close> is the invariant
  of the disk.  The last section has an in-memory file that satisfies all the laws.
\<close>

section \<open>Files\<close>

record 'f file_view =
  content :: "'f \<Rightarrow> int \<Rightarrow> byte"
  fsize :: "'f \<Rightarrow> int"
  alloc :: "'f \<Rightarrow> int \<Rightarrow> bool"

definition size_law :: "'f file_ops \<Rightarrow> 'f file_view \<Rightarrow> bool" where
  "size_law ops v \<longleftrightarrow> (\<forall>f n. f_Size ops f = (n, None) \<longrightarrow> n = fsize v f)"

definition read_law :: "'f file_ops \<Rightarrow> 'f file_view \<Rightarrow> bool" where
  "read_law ops v \<longleftrightarrow>
     (\<forall>f buf off buf' n e. f_ReadAt ops f buf off = (buf', n, e) \<longrightarrow>
        length buf' = length buf \<and>
        (e = None \<and> 0 \<le> off \<and> off + int (length buf) \<le> fsize v f \<longrightarrow>
           n = int (length buf) \<and>
           (\<forall>k < length buf. buf' ! k = content v f (off + int k))))"

definition write_law :: "'f file_ops \<Rightarrow> 'f file_view \<Rightarrow> bool" where
  "write_law ops v \<longleftrightarrow>
     (\<forall>f buf off f' n e. f_WriteAt ops f buf off = (f', n, e) \<longrightarrow>
        0 \<le> off \<and> off + int (length buf) \<le> fsize v f \<longrightarrow>
        fsize v f' = fsize v f \<and> 0 \<le> n \<and> n \<le> int (length buf) \<and>
        (\<forall>k. k < off \<or> off + int (length buf) \<le> k \<longrightarrow>
           content v f' k = content v f k \<and> alloc v f' k = alloc v f k) \<and>
        (e = None \<longrightarrow>
           n = int (length buf) \<and>
           (\<forall>k < length buf. content v f' (off + int k) = buf ! k \<and> alloc v f' (off + int k))))"

definition fiemap_law :: "'f file_ops \<Rightarrow> 'f file_view \<Rightarrow> bool" where
  "fiemap_law ops v \<longleftrightarrow>
     (\<forall>f off len es. f_Fiemap ops f (of_int off) (of_int len) 1 = (es, None) \<longrightarrow>
        0 \<le> off \<and> 0 < len \<and> off + len < 2 ^ 63 \<longrightarrow>
        (es \<noteq> [] \<longleftrightarrow> (\<exists>k \<in> {off..<off + len}. alloc v f k)))"

definition unmap_law :: "'f file_ops \<Rightarrow> 'f file_view \<Rightarrow> bool" where
  "unmap_law ops v \<longleftrightarrow>
     (\<forall>f len off f' n e. f_UnmapAt ops f len off = (f', n, e) \<longrightarrow>
        0 \<le> off \<and> off + uint len \<le> fsize v f \<longrightarrow>
        fsize v f' = fsize v f \<and>
        (\<forall>k. k < off \<or> off + uint len \<le> k \<longrightarrow>
           content v f' k = content v f k \<and> alloc v f' k = alloc v f k) \<and>
        (e = None \<longrightarrow> (\<forall>k. off \<le> k \<and> k < off + uint len \<longrightarrow> content v f' k = 0)))"

text \<open>The device does not fail: no call inside a file reports an error.\<close>

definition quiet :: "'f file_ops \<Rightarrow> 'f file_view \<Rightarrow> bool" where
  "quiet ops v \<longleftrightarrow>
     (\<forall>f. snd (f_Size ops f) = None \<and> snd (f_Close ops f) = None \<and>
        (\<forall>a b n. snd (f_Fiemap ops f a b n) = None) \<and>
        (\<forall>buf off. 0 \<le> off \<and> off + int (length buf) \<le> fsize v f \<longrightarrow>
           snd (snd (f_ReadAt ops f buf off)) = None \<and> snd (snd (f_WriteAt ops f buf off)) = None))"

section \<open>The volume of a chain\<close>

definition sector_alloc :: "'f file_view \<Rightarrow> 'f diffDisk \<Rightarrow> 'f \<Rightarrow> int \<Rightarrow> bool" where
  "sector_alloc v d f s \<longleftrightarrow>
     (\<exists>k \<in> {s * sectorSize d..<s * sectorSize d + sectorSize d}. alloc v f k)"

fun top_alloc :: "'f file_view \<Rightarrow> 'f diffDisk \<Rightarrow> nat \<Rightarrow> nat \<Rightarrow> nat" where
  "top_alloc v d s 0 = 1"
| "top_alloc v d s (Suc 0) = 1"
| "top_alloc v d s (Suc (Suc i)) =
     (if sector_alloc v d (the (files d ! Suc (Suc i))) (int s) then Suc (Suc i)
      else top_alloc v d s (Suc i))"

definition file_of :: "'f file_view \<Rightarrow> 'f diffDisk \<Rightarrow> nat \<Rightarrow> nat" where
  "file_of v d s =
     (if location d ! s \<noteq> 0 then unat (location d ! s)
      else top_alloc v d s (length (files d) - 1))"

definition file_byte :: "'f file_view \<Rightarrow> 'f \<Rightarrow> int \<Rightarrow> byte" where
  "file_byte v f k = (if k < fsize v f then content v f k else 0)"

definition vol_byte :: "'f file_view \<Rightarrow> 'f diffDisk \<Rightarrow> nat \<Rightarrow> byte" where
  "vol_byte v d k =
     file_byte v (the (files d ! file_of v d (k div nat (sectorSize d)))) (int k)"

definition vol :: "'f file_view \<Rightarrow> 'f diffDisk \<Rightarrow> byte list" where
  "vol v d = map (vol_byte v d) [0..<nat (dsize d)]"

definition dd_inv :: "'f file_view \<Rightarrow> 'f diffDisk \<Rightarrow> bool" where
  "dd_inv v d \<longleftrightarrow>
     0 < sectorSize d \<and> dsize d = sectorSize d * int (length (location d)) \<and> dsize d < 2 ^ 63 \<and>
     2 \<le> length (files d) \<and> length (files d) \<le> 256 \<and>
     list_all (\<lambda>f. f \<noteq> None) (tl (files d)) \<and>
     list_all (\<lambda>l. unat l < length (files d)) (location d) \<and>
     fsize v (the (last (files d))) = dsize d"

text \<open>The cache is exact when it never disagrees with the files.\<close>

definition file_top :: "'f file_view \<Rightarrow> 'f diffDisk \<Rightarrow> nat \<Rightarrow> nat" where
  "file_top v d s = top_alloc v d s (length (files d) - 1)"

definition exact :: "'f file_view \<Rightarrow> 'f diffDisk \<Rightarrow> bool" where
  "exact v d \<longleftrightarrow> (\<forall>s \<in> {..<length (location d)}. file_of v d s = file_top v d s)"

text \<open>A disk that differs only in what its cache knows.\<close>

definition cache_step :: "'f file_view \<Rightarrow> 'f diffDisk \<Rightarrow> 'f diffDisk \<Rightarrow> bool" where
  "cache_step v d d' \<longleftrightarrow>
     files d' = files d \<and> sectorSize d' = sectorSize d \<and> dsize d' = dsize d \<and>
     length (location d') = length (location d) \<and>
     (\<forall>s < length (location d). file_of v d' s = file_of v d s) \<and> dd_inv v d'"

section \<open>Lemmas on the view\<close>

text \<open>The quantifier over a sector as a search over its offsets, for evaluation.\<close>

lemma sector_alloc_code [code]:
  "sector_alloc v d f s =
     list_ex (\<lambda>k. alloc v f (s * sectorSize d + int k)) [0..<nat (sectorSize d)]"
proof -
  have "(\<exists>k \<in> {s * sectorSize d..<s * sectorSize d + sectorSize d}. alloc v f k) \<longleftrightarrow>
        (\<exists>j < nat (sectorSize d). alloc v f (s * sectorSize d + int j))"
  proof
    assume "\<exists>k \<in> {s * sectorSize d..<s * sectorSize d + sectorSize d}. alloc v f k"
    then obtain k where "s * sectorSize d \<le> k" "k < s * sectorSize d + sectorSize d" "alloc v f k" by auto
    then show "\<exists>j < nat (sectorSize d). alloc v f (s * sectorSize d + int j)"
      by (intro exI [of _ "nat (k - s * sectorSize d)"]) auto
  next
    assume "\<exists>j < nat (sectorSize d). alloc v f (s * sectorSize d + int j)"
    then obtain j where "j < nat (sectorSize d)" "alloc v f (s * sectorSize d + int j)" by auto
    then show "\<exists>k \<in> {s * sectorSize d..<s * sectorSize d + sectorSize d}. alloc v f k"
      by (intro bexI [of _ "s * sectorSize d + int j"]) auto
  qed
  then show ?thesis by (simp add: sector_alloc_def list_ex_iff Bex_def)
qed

lemma dd_invD:
  assumes "dd_inv v d"
  shows dd_inv_ss: "0 < sectorSize d"
    and dd_inv_size: "dsize d = sectorSize d * int (length (location d))"
    and dd_inv_size_bound: "dsize d < 2 ^ 63"
    and dd_inv_len2: "2 \<le> length (files d)"
    and dd_inv_len256: "length (files d) \<le> 256"
    and dd_inv_head_size: "fsize v (the (last (files d))) = dsize d"
  using assms by (auto simp: dd_inv_def)

lemma dd_inv_file:
  assumes "dd_inv v d" "1 \<le> i" "i < length (files d)"
  shows "\<exists>f. files d ! i = Some f"
proof -
  have "tl (files d) ! (i - 1) \<noteq> None"
    using assms by (auto simp: dd_inv_def list_all_length)
  then show ?thesis
    using assms by (auto simp: nth_tl)
qed

lemma dd_inv_file_at:
  assumes "dd_inv v d" "1 \<le> i" "i < length (files d)"
  shows "file_at d (int i) = Some (the (files d ! i))"
  using dd_inv_file [OF assms] assms by (auto simp: file_at_def go_nth_def)

lemma dd_inv_location:
  "dd_inv v d \<Longrightarrow> s < length (location d) \<Longrightarrow> unat (location d ! s) < length (files d)"
  by (auto simp: dd_inv_def list_all_length)

lemma unat_head_index:
  assumes "dd_inv v d"
  shows "unat (head_index d) = length (files d) - 1"
proof -
  have "head_index d = of_nat (length (files d) - 1)"
    using dd_inv_len2 [OF assms] by (simp add: head_index_def of_nat_diff)
  moreover have "length (files d) - 1 < 2 ^ 8"
    using dd_inv_len256 [OF assms] dd_inv_len2 [OF assms] by simp
  ultimately show ?thesis by (simp add: unat_of_nat take_bit_nat_eq_self)
qed

lemma top_alloc_bounds: "i < n \<Longrightarrow> 2 \<le> n \<Longrightarrow> 1 \<le> top_alloc v d s i \<and> top_alloc v d s i < n"
  by (induction v d s i rule: top_alloc.induct) auto

lemma file_of_bounds:
  assumes "dd_inv v d" "s < length (location d)"
  shows "1 \<le> file_of v d s" "file_of v d s < length (files d)"
  using dd_inv_location [OF assms] top_alloc_bounds [of "length (files d) - 1" "length (files d)" v d s]
    dd_inv_len2 [OF assms(1)] unat_gt_0 [of "location d ! s"]
  by (auto simp: file_of_def)

lemma top_alloc_cong:
  "files d' = files d \<Longrightarrow> sectorSize d' = sectorSize d \<Longrightarrow> top_alloc v d' s i = top_alloc v d s i"
  by (induction v d s i rule: top_alloc.induct) (auto simp: sector_alloc_def)

lemma cache_step_refl: "dd_inv v d \<Longrightarrow> cache_step v d d"
  by (simp add: cache_step_def)

lemma cache_step_trans: "cache_step v d d' \<Longrightarrow> cache_step v d' d'' \<Longrightarrow> cache_step v d d''"
  by (auto simp: cache_step_def)

lemma cache_stepD:
  assumes "cache_step v d d'"
  shows "files d' = files d" "sectorSize d' = sectorSize d" "dsize d' = dsize d"
    "length (location d') = length (location d)" "dd_inv v d'"
    "\<And>s. s < length (location d) \<Longrightarrow> file_of v d' s = file_of v d s"
  using assms by (auto simp: cache_step_def)

text \<open>A byte of the volume lies in a sector of the cache.\<close>

lemma sector_in_range:
  assumes "dd_inv v d" "int k < dsize d"
  shows "k div nat (sectorSize d) < length (location d)"
proof -
  have "int k < int (nat (sectorSize d) * length (location d))"
    using assms dd_inv_ss [OF assms(1)] dd_inv_size [OF assms(1)] by simp
  then show ?thesis
    by (metis less_mult_imp_div_less mult.commute of_nat_less_iff)
qed

lemma length_vol [simp]: "length (vol v d) = nat (dsize d)"
  by (simp add: vol_def)

lemma vol_nth: "k < nat (dsize d) \<Longrightarrow> vol v d ! k = vol_byte v d k"
  by (simp add: vol_def)

lemma cache_step_vol:
  assumes "cache_step v d d'" "dd_inv v d"
  shows "vol v d' = vol v d"
proof (rule nth_equalityI)
  show "length (vol v d') = length (vol v d)"
    using assms by (simp add: cache_stepD)
next
  fix k assume "k < length (vol v d')"
  then have "k div nat (sectorSize d) < length (location d)" "k < nat (dsize d)"
    using assms sector_in_range [of v d k] by (auto simp: cache_stepD)
  then show "vol v d' ! k = vol v d ! k"
    using assms by (simp add: vol_nth vol_byte_def cache_stepD)
qed

lemma file_top_cong: "files d' = files d \<Longrightarrow> sectorSize d' = sectorSize d \<Longrightarrow> file_top v d' s = file_top v d s"
  using top_alloc_cong [of d' d v s] by (simp add: file_top_def)

lemma exactD: "exact v d \<Longrightarrow> s < length (location d) \<Longrightarrow> file_of v d s = file_top v d s"
  by (simp add: exact_def)

lemma exact_cache_step: "cache_step v d d' \<Longrightarrow> exact v d \<Longrightarrow> exact v d'"
  using file_top_cong [of d' d v] by (auto simp: exact_def cache_stepD)

end
