(* ===== verification/DiffDiskRead.thy ===== *)
theory DiffDiskRead
  imports DiffDiskView
begin

text \<open>
  Correctness of the read path: \<^verbatim>\<open>lookup\<close> finds the file that owns a sector and only fills the cache,
  \<^verbatim>\<open>fullReadAt\<close> splits a request into runs of one file and returns the bytes of the volume.
\<close>

section \<open>The lookup\<close>

lemma lookup_scan_correct:
  assumes "fiemap_law ops v" "dd_inv v d" "s < length (location d)"
  shows "i < length (files d) \<Longrightarrow>
     (\<exists>e. lookup_scan ops d (int s) i = Some (Inl e) \<and> \<not> quiet ops v) \<or>
     (\<exists>r. lookup_scan ops d (int s) i = Some (Inr r) \<and>
        (case r of None \<Rightarrow> 1 | Some j \<Rightarrow> j) = top_alloc v d s i)"
proof (induction i rule: less_induct)
  case (less i)
  show ?case
  proof (cases "i < 2")
    case True
    then have "i = 0 \<or> i = 1" by linarith
    then show ?thesis by auto
  next
    case False
    then obtain j where i: "i = Suc (Suc j)"
      by (metis One_nat_def Suc_1 lessI less_SucI not0_implies_Suc zero_less_one)
    let ?f = "the (files d ! i)"
    have f: "file_at d (int i) = Some ?f"
      using dd_inv_file_at [OF assms(2), of i] less.prems i by simp
    have range: "0 \<le> int s * sectorSize d" "int s * sectorSize d + sectorSize d < 2 ^ 63"
    proof -
      have "sectorSize d * (int s + 1) \<le> sectorSize d * int (length (location d))"
        using assms(3) dd_inv_ss [OF assms(2)] by simp
      then show "int s * sectorSize d + sectorSize d < 2 ^ 63"
        using dd_inv_size [OF assms(2)] dd_inv_size_bound [OF assms(2)]
        by (simp add: algebra_simps)
      show "0 \<le> int s * sectorSize d" using dd_inv_ss [OF assms(2)] by simp
    qed
    obtain es e where fm:
      "f_Fiemap ops ?f (of_int (int s * sectorSize d)) (of_int (sectorSize d)) 1 = (es, e)"
      by fastforce
    have law: "e = None \<Longrightarrow> es \<noteq> [] \<longleftrightarrow> sector_alloc v d ?f (int s)"
      using assms(1) fm range dd_inv_ss [OF assms(2)]
      unfolding fiemap_law_def sector_alloc_def by blast
    have noisy: "e \<noteq> None \<Longrightarrow> \<not> quiet ops v"
      using fm unfolding quiet_def by (metis snd_conv)
    have IH: "(\<exists>e. lookup_scan ops d (int s) (Suc j) = Some (Inl e) \<and> \<not> quiet ops v) \<or>
       (\<exists>r. lookup_scan ops d (int s) (Suc j) = Some (Inr r) \<and>
          (case r of None \<Rightarrow> 1 | Some j \<Rightarrow> j) = top_alloc v d s (Suc j))"
      using less.IH [of "Suc j"] less.prems i by simp
    show ?thesis
      using f fm law noisy IH unfolding i
      by (cases e) (auto simp del: of_int_mult of_nat_Suc)
  qed
qed

lemma lookup_correct:
  assumes "fiemap_law ops v" "dd_inv v d" "s < length (location d)"
  shows "\<exists>d' t e. lookup ops d (int s) = Some (d', t, e) \<and> cache_step v d d' \<and>
           (e = None \<longrightarrow> unat t = file_of v d s) \<and> (quiet ops v \<longrightarrow> e = None)"
proof (cases "location d ! s = 0")
  case False
  then show ?thesis
    using assms dd_inv_len2 [OF assms(2)]
    by (auto simp: lookup_def go_nth_def file_of_def cache_step_refl)
next
  case True
  let ?n = "length (files d) - 1"
  have n: "?n < length (files d)" "2 \<le> length (files d)"
    using dd_inv_len2 [OF assms(2)] by auto
  consider (err) e where "lookup_scan ops d (int s) ?n = Some (Inl e)" "\<not> quiet ops v"
    | (ok) r where "lookup_scan ops d (int s) ?n = Some (Inr r)"
        "(case r of None \<Rightarrow> 1 | Some j \<Rightarrow> j) = top_alloc v d s ?n"
    using lookup_scan_correct [OF assms n(1)] by blast
  then show ?thesis
  proof cases
    case err
    then show ?thesis
      using assms n True by (auto simp: lookup_def go_nth_def cache_step_refl)
  next
    case ok
    let ?t = "top_alloc v d s ?n"
    let ?d' = "d\<lparr>location := (location d)[s := of_nat ?t]\<rparr>"
    have tb: "1 \<le> ?t" "?t < length (files d)"
      using top_alloc_bounds [OF n(1) n(2)] by auto
    then have t256: "unat (of_nat ?t :: byte) = ?t" and t0: "(of_nat ?t :: byte) \<noteq> 0"
    proof -
      have "?t < 2 ^ 8" using tb dd_inv_len256 [OF assms(2)] by simp
      then show "unat (of_nat ?t :: byte) = ?t"
        by (simp add: unat_of_nat take_bit_nat_eq_self)
      then show "(of_nat ?t :: byte) \<noteq> 0" using tb by fastforce
    qed
    have step: "cache_step v d ?d'"
      unfolding cache_step_def
    proof (intro conjI allI impI)
      fix s' assume "s' < length (location d)"
      then show "file_of v ?d' s' = file_of v d s'"
        using assms(3) True t256 t0 top_alloc_cong [of ?d' d v s']
        by (cases "s' = s") (auto simp: file_of_def)
    next
      have "list_all (\<lambda>l. unat l < length (files d)) ((location d)[s := of_nat ?t])"
        using assms tb t256 unfolding dd_inv_def list_all_length
        by (metis length_list_update nth_list_update)
      then show "dd_inv v ?d'" using assms(2) by (auto simp: dd_inv_def)
    qed auto
    have "lookup ops d (int s) = Some (?d', of_nat ?t, None)"
      using ok assms n True t0 by (cases r) (auto simp: lookup_def go_nth_def Let_def)
    then show ?thesis
      using step t256 True by (auto simp: file_of_def)
  qed
qed

section \<open>Reading one run\<close>

text \<open>
  The byte a read leaves at position \<open>k\<close> of a buffer: the byte of the file, or what the buffer held
  when the file is too short.
\<close>

definition run_byte :: "'f file_view \<Rightarrow> 'f \<Rightarrow> byte list \<Rightarrow> int \<Rightarrow> nat \<Rightarrow> byte" where
  "run_byte v f buf offset k =
     (if offset + int k < fsize v f then content v f (offset + int k) else buf ! k)"

lemma read_correct:
  assumes law: "read_law ops v" "size_law ops v"
    and inv: "dd_inv v d" and t: "1 \<le> unat t" "unat t < length (files d)"
    and f: "f = the (files d ! unat t)"
    and off: "0 \<le> offset" and ss: "ss = nat (sectorSize d)"
    and a: "a = i * ss" and n: "n = m * ss" and fits: "a + n \<le> length buf"
    and vol: "offset + int (a + n) \<le> dsize d"
  shows "\<exists>buf' c e. read ops d t buf offset (int i) (int m) = Some (buf', c, e) \<and>
           length buf' = length buf \<and> (quiet ops v \<longrightarrow> e = None) \<and>
           (e = None \<longrightarrow> c = int n \<and>
             (\<forall>k < length buf. buf' ! k =
                (if a \<le> k \<and> k < a + n then run_byte v f buf offset k else buf ! k)))"
proof -
  have A: "int i * sectorSize d = int a" and N: "int m * sectorSize d = int n"
    using dd_inv_ss [OF inv] by (simp_all add: a n ss)
  have fat: "file_at d (uint t) = Some f"
    using dd_inv_file_at [OF inv t] f by simp
  obtain sz e0 where sz: "f_Size ops f = (sz, e0)" by fastforce
  show ?thesis
  proof (cases e0)
    case (Some e)
    then have "\<not> quiet ops v" using sz unfolding quiet_def by (metis option.distinct(1) snd_conv)
    then show ?thesis
      using Some sz fat by (auto simp: read_def Let_def)
  next
    case None
    then have szf: "sz = fsize v f" using law(2) sz by (auto simp: size_law_def)
    show ?thesis
    proof (cases "offset + int a < sz")
      case False
      then show ?thesis
        using None sz fat vol szf
        by (auto simp: read_def Let_def A N run_byte_def)
    next
      case True
      let ?len = "min (int n) (sz - (offset + int a))"
      obtain nb where nb: "go_slice buf (int a) (int a + ?len) = Some nb"
        and nbl: "int (length nb) = ?len"
      proof -
        have "int a + ?len \<le> int (length buf)" "0 \<le> ?len" using True fits by linarith+
        then show ?thesis using that by (simp add: go_slice_def)
      qed
      obtain b c e where rd: "f_ReadAt ops f nb (offset + int a) = (b, c, e)"
        by (metis prod_cases3)
      have bl: "length b = length nb"
        using law(1) rd by (auto simp: read_law_def)
      have in_f: "0 \<le> offset + int a" "offset + int a + int (length nb) \<le> fsize v f"
        using off nbl szf by auto
      have ok: "e = None \<Longrightarrow> c = ?len \<and> (\<forall>k < length nb. b ! k = content v f (offset + int a + int k))"
        using law(1) rd in_f nbl unfolding read_law_def by metis
      have q: "quiet ops v \<Longrightarrow> e = None"
        using in_f rd unfolding quiet_def by (metis snd_conv)
      have R: "read ops d t buf offset (int i) (int m) =
        Some (copy_at buf a b, if e = None \<and> sz < offset + int a + int n
              then int n else c, e)"
        using None sz fat nb rd True vol ok
        by (auto simp: read_def Let_def A N)
      have cp: "copy_at buf a b ! k =
          (if a \<le> k \<and> k < a + n then run_byte v f buf offset k else buf ! k)"
        if "e = None" "k < length buf" for k
      proof -
        have "a + length b \<le> length buf" using fits bl nbl by linarith
        then show ?thesis
          using that ok nbl bl szf fits
          by (auto simp: nth_copy_at run_byte_def min_def split: if_splits)
      qed
      show ?thesis
        using R cp q ok bl nbl fits True by (auto simp: length_copy_at)
    qed
  qed
qed

section \<open>The loop over the sectors\<close>

text \<open>The byte \<^verbatim>\<open>fullReadAt\<close> leaves at position \<open>k\<close> when the buffer held \<open>orig\<close>.\<close>

definition chain_byte :: "'f file_view \<Rightarrow> 'f diffDisk \<Rightarrow> byte list \<Rightarrow> nat \<Rightarrow> nat \<Rightarrow> byte" where
  "chain_byte v d orig off k =
     run_byte v (the (files d ! file_of v d ((off + k) div nat (sectorSize d)))) orig (int off) k"

text \<open>
  The state of the loop at sector \<open>i\<close> of \<open>N\<close>: the last \<open>rs\<close> sectors before \<open>i\<close> are pending and
  belong to \<open>target\<close>, everything before them is read.
\<close>

definition read_inv ::
  "'f file_view \<Rightarrow> 'f diffDisk \<Rightarrow> byte list \<Rightarrow> nat \<Rightarrow> nat \<Rightarrow> byte list \<Rightarrow> nat \<Rightarrow> byte \<Rightarrow> nat \<Rightarrow> int \<Rightarrow> bool"
  where
  "read_inv v d orig s0 N buf i target rs count \<longleftrightarrow>
     dd_inv v d \<and> s0 + N \<le> length (location d) \<and> length buf = N * nat (sectorSize d) \<and>
     length orig = length buf \<and> 1 \<le> rs \<and> rs \<le> i \<and> i \<le> N \<and>
     (\<forall>j. i - rs \<le> j \<and> j < i \<longrightarrow> file_of v d (s0 + j) = unat target) \<and>
     count = int ((i - rs) * nat (sectorSize d)) \<and>
     (\<forall>k < length buf. buf ! k =
        (if k < (i - rs) * nat (sectorSize d) then chain_byte v d orig (s0 * nat (sectorSize d)) k
         else orig ! k))"

lemma chain_byte_cache_step:
  assumes "cache_step v d d'" "dd_inv v d" "s0 + N \<le> length (location d)"
    "k < N * nat (sectorSize d)"
  shows "chain_byte v d' orig (s0 * nat (sectorSize d)) k =
         chain_byte v d orig (s0 * nat (sectorSize d)) k"
proof -
  have "s0 * nat (sectorSize d) + k < (s0 + N) * nat (sectorSize d)"
    using assms(4) by (simp add: algebra_simps)
  then have "(s0 * nat (sectorSize d) + k) div nat (sectorSize d) < s0 + N"
    by (simp add: less_mult_imp_div_less)
  then show ?thesis
    using assms by (simp add: chain_byte_def cache_stepD)
qed

lemma read_inv_cache_step:
  assumes "read_inv v d orig s0 N buf i target rs count" "cache_step v d d'"
  shows "read_inv v d' orig s0 N buf i target rs count"
proof -
  note inv = assms(1) [unfolded read_inv_def]
  have "chain_byte v d' orig (s0 * nat (sectorSize d)) k =
        chain_byte v d orig (s0 * nat (sectorSize d)) k" if "k < length buf" for k
    using chain_byte_cache_step [OF assms(2), of s0 N k orig] inv that by auto
  then show ?thesis
    using inv assms(2) unfolding read_inv_def by (auto simp: cache_stepD)
qed

text \<open>Reading the pending run completes the buffer up to sector \<open>i\<close>.\<close>

lemma read_pending:
  assumes law: "read_law ops v" "size_law ops v"
    and inv: "read_inv v d orig s0 N buf i target rs count" and ss: "ss = nat (sectorSize d)"
  shows "\<exists>buf' c e. read ops d target buf (int (s0 * ss)) (int i - int rs) (int rs) = Some (buf', c, e) \<and>
           length buf' = length buf \<and> (quiet ops v \<longrightarrow> e = None) \<and>
           (e = None \<longrightarrow> count + c = int (i * ss) \<and>
             (\<forall>k < length buf. buf' ! k =
                (if k < i * ss then chain_byte v d orig (s0 * ss) k else orig ! k)))"
proof -
  note I = inv [unfolded read_inv_def, folded ss]
  have dd: "dd_inv v d" and ss0: "0 < ss" using I dd_inv_ss ss by auto
  let ?j = "i - rs" and ?f = "the (files d ! unat target)"
  have own: "file_of v d (s0 + ?j) = unat target" using I by auto
  have bounds: "1 \<le> unat target" "unat target < length (files d)"
    using file_of_bounds [OF dd, of "s0 + ?j"] I own by auto
  have fits: "?j * ss + rs * ss = i * ss" "i * ss \<le> length buf"
    using I by (auto simp: add_mult_distrib [symmetric])
  have vb: "int (s0 * ss) + int (?j * ss + rs * ss) \<le> dsize d"
  proof -
    have "(s0 + i) * ss \<le> length (location d) * ss" using I by (intro mult_le_mono1) auto
    then have "int (s0 * ss + i * ss) \<le> int (length (location d) * ss)"
      by (simp only: of_nat_le_iff add_mult_distrib)
    then show ?thesis using dd_inv_size [OF dd] dd_inv_ss [OF dd] ss fits
      by (simp add: mult.commute)
  qed
  obtain buf' c e where rd: "read ops d target buf (int (s0 * ss)) (int ?j) (int rs) = Some (buf', c, e)"
    "length buf' = length buf" "quiet ops v \<longrightarrow> e = None"
    and res: "e = None \<longrightarrow> c = int (rs * ss) \<and> (\<forall>k < length buf. buf' ! k =
       (if ?j * ss \<le> k \<and> k < ?j * ss + rs * ss then run_byte v ?f buf (int (s0 * ss)) k else buf ! k))"
    using read_correct [OF law dd bounds refl _ ss refl refl _ vb, of buf] fits by auto
  have "buf' ! k = (if k < i * ss then chain_byte v d orig (s0 * ss) k else orig ! k)"
    if "e = None" "k < length buf" for k
  proof (cases "?j * ss \<le> k \<and> k < i * ss")
    case True
    then have "?j \<le> k div ss" "k div ss < i"
      using ss0 by (auto simp: less_eq_div_iff_mult_less_eq less_mult_imp_div_less)
    then have "file_of v d ((s0 * ss + k) div ss) = unat target"
      using I ss0 by auto
    then have "chain_byte v d orig (s0 * ss) k = run_byte v ?f orig (int (s0 * ss)) k"
      by (simp add: chain_byte_def ss [symmetric])
    moreover have "buf' ! k = run_byte v ?f buf (int (s0 * ss)) k"
      using res that True fits by simp
    moreover have "buf ! k = orig ! k" using I that True by simp
    ultimately show ?thesis using True by (simp add: run_byte_def)
  next
    case False
    then show ?thesis
      using that res fits I mult_le_mono1 [of ?j i ss] by auto
  qed
  moreover have "count + int (rs * ss) = int (i * ss)"
    using I fits by (metis of_nat_add)
  moreover have "int i - int rs = int ?j" using I by auto
  ultimately show ?thesis using rd res by (metis (no_types, lifting))
qed

lemma fullReadAt_loop_correct:
  assumes law: "fiemap_law ops v" "read_law ops v" "size_law ops v"
  shows "read_inv v d orig s0 N buf i target rs count \<Longrightarrow> i + n = N \<Longrightarrow> ss = nat (sectorSize d) \<Longrightarrow>
     \<exists>d' buf' c e.
       fullReadAt_loop ops (int (s0 * ss)) (int s0) n d buf i target rs count = Some (d', buf', c, e) \<and>
       cache_step v d d' \<and> length buf' = length buf \<and> (quiet ops v \<longrightarrow> e = None) \<and>
       (e = None \<longrightarrow> c = int (length buf) \<and>
          (\<forall>k < length buf. buf' ! k = chain_byte v d orig (s0 * ss) k))"
proof (induction n arbitrary: d buf i target rs count)
  case 0
  have dd: "dd_inv v d" "0 < rs" "length buf = i * ss"
    using 0 by (auto simp: read_inv_def)
  obtain buf' c e where "read ops d target buf (int (s0 * ss)) (int i - int rs) (int rs) = Some (buf', c, e)"
    "length buf' = length buf" "quiet ops v \<longrightarrow> e = None"
    "e = None \<longrightarrow> count + c = int (i * ss) \<and> (\<forall>k < length buf. buf' ! k =
       (if k < i * ss then chain_byte v d orig (s0 * ss) k else orig ! k))"
    using read_pending [OF law(2,3) 0(1,3)] by blast
  then show ?case
    using dd cache_step_refl [OF dd(1)] by auto
next
  case (Suc n)
  have dd: "dd_inv v d" and si: "s0 + i < length (location d)"
    using Suc.prems by (auto simp: read_inv_def)
  obtain d1 t e1 where lk: "lookup ops d (int (s0 + i)) = Some (d1, t, e1)" "cache_step v d d1"
    "e1 = None \<longrightarrow> unat t = file_of v d (s0 + i)" "quiet ops v \<longrightarrow> e1 = None"
    using lookup_correct [OF law(1) dd si] by blast
  have inv1: "read_inv v d1 orig s0 N buf i target rs count"
    using read_inv_cache_step [OF Suc.prems(1) lk(2)] .
  have ss1: "ss = nat (sectorSize d1)" using Suc.prems(3) lk(2) by (simp add: cache_stepD)
  have fo: "file_of v d1 (s0 + i) = file_of v d (s0 + i)"
    using cache_stepD(6) [OF lk(2) si] .
  show ?case
  proof (cases e1)
    case (Some e)
    then show ?thesis using lk by auto
  next
    case None
    have trans: "cache_step v d d'" if "cache_step v d1 d'" for d'
      using cache_step_trans [OF lk(2) that] .
    have cb: "chain_byte v d1 orig (s0 * ss) k = chain_byte v d orig (s0 * ss) k"
      if "k < length buf" for k
      using chain_byte_cache_step [OF lk(2) dd, of s0 N k orig] Suc.prems that
      by (auto simp: read_inv_def)
    show ?thesis
    proof (cases "t = target")
      case True
      then have "read_inv v d1 orig s0 N buf (Suc i) target (rs + 1) count"
        using inv1 Suc.prems(2) fo lk(3) None
        unfolding read_inv_def by (auto simp: less_Suc_eq)
      from Suc.IH [OF this _ ss1] Suc.prems(2) show ?thesis
        using lk None True trans cb by fastforce
    next
      case False
      obtain buf' c e where rd:
        "read ops d1 target buf (int (s0 * ss)) (int i - int rs) (int rs) = Some (buf', c, e)"
        "length buf' = length buf" "quiet ops v \<longrightarrow> e = None"
        "e = None \<longrightarrow> count + c = int (i * ss) \<and> (\<forall>k < length buf. buf' ! k =
           (if k < i * ss then chain_byte v d1 orig (s0 * ss) k else orig ! k))"
        using read_pending [OF law(2,3) inv1 ss1] by blast
      show ?thesis
      proof (cases e)
        case (Some x)
        then show ?thesis using rd lk None False by auto
      next
        case e: None
        have "read_inv v d1 orig s0 N buf' (Suc i) t 1 (count + c)"
          using inv1 Suc.prems(2) fo lk(3) None rd e ss1
          unfolding read_inv_def by (auto simp: less_Suc_eq)
        from Suc.IH [OF this _ ss1] Suc.prems(2) show ?thesis
          using lk None False trans cb rd e by fastforce
      qed
    qed
  qed
qed

section \<open>Whole requests\<close>

lemma fullReadAt_correct:
  assumes law: "fiemap_law ops v" "read_law ops v" "size_law ops v" and inv: "dd_inv v d"
    and ss: "ss = nat (sectorSize d)" and len: "length buf = N * ss"
    and fits: "s0 + N \<le> length (location d)"
  shows "\<exists>d' buf' c e. fullReadAt ops d buf (int (s0 * ss)) = Some (d', buf', c, e) \<and>
           cache_step v d d' \<and> length buf' = length buf \<and> (quiet ops v \<longrightarrow> e = None) \<and>
           (e = None \<longrightarrow> c = int (length buf) \<and>
              (\<forall>k < length buf. buf' ! k = chain_byte v d buf (s0 * ss) k))"
proof -
  have S: "sectorSize d = int ss" and ss0: "0 < ss" using dd_inv_ss [OF inv] ss by auto
  show ?thesis
  proof (cases "buf = []")
    case True
    then show ?thesis
      using ss0 cache_step_refl [OF inv]
      by (auto simp: fullReadAt_def S go_arith simp del: of_nat_mult)
  next
    case False
    then have N: "0 < N" using len by (cases N) auto
    have q: "int (s0 * ss) sdiv int ss = int s0" "int (N * ss) sdiv int ss = int N"
      using ss0 by (simp_all only: sdiv_int nonzero_mult_div_cancel_right)
    obtain d1 t e1 where lk: "lookup ops d (int s0) = Some (d1, t, e1)" "cache_step v d d1"
      "e1 = None \<longrightarrow> unat t = file_of v d s0" "quiet ops v \<longrightarrow> e1 = None"
      using lookup_correct [OF law(1) inv, of s0] fits N by auto
    have full: "fullReadAt ops d buf (int (s0 * ss)) =
        (if e1 \<noteq> None then Some (d1, buf, 0, e1)
         else fullReadAt_loop ops (int (s0 * ss)) (int s0) (N - 1) d1 buf 1 t 1 0)"
      using False ss0 lk(1) N
      by (simp add: fullReadAt_def S len q smod_int nat_diff_distrib del: of_nat_mult)
    show ?thesis
    proof (cases e1)
      case (Some e)
      then show ?thesis using full lk by auto
    next
      case None
      have "read_inv v d1 buf s0 N buf 1 t 1 0"
        using lk None fits N len ss
        unfolding read_inv_def by (auto simp: cache_stepD)
      from fullReadAt_loop_correct [OF law this, of "N - 1" ss] N ss lk(2)
      obtain d' buf' c e where loop:
        "fullReadAt_loop ops (int (s0 * ss)) (int s0) (N - 1) d1 buf 1 t 1 0 = Some (d', buf', c, e)"
        "cache_step v d1 d'" "length buf' = length buf" "quiet ops v \<longrightarrow> e = None"
        "e = None \<longrightarrow> c = int (length buf) \<and> (\<forall>k < length buf. buf' ! k = chain_byte v d1 buf (s0 * ss) k)"
        by (auto simp: cache_stepD)
      have "chain_byte v d1 buf (s0 * ss) k = chain_byte v d buf (s0 * ss) k" if "k < length buf" for k
        using chain_byte_cache_step [OF lk(2) inv fits, of k buf] that len ss by simp
      then show ?thesis
        using full None loop cache_step_trans [OF lk(2) loop(2)] by auto
    qed
  qed
qed

text \<open>
  A buffer gets the bytes of the volume when it was zeroed before, or when no file of the chain is
  shorter than the volume.
\<close>

definition no_short :: "'f file_view \<Rightarrow> 'f diffDisk \<Rightarrow> bool" where
  "no_short v d \<longleftrightarrow> list_all (\<lambda>f. dsize d \<le> fsize v (the f)) (tl (files d))"

lemma no_shortD:
  assumes "no_short v d" "1 \<le> i" "i < length (files d)"
  shows "dsize d \<le> fsize v (the (files d ! i))"
proof -
  have "dsize d \<le> fsize v (the (tl (files d) ! (i - 1)))"
    using assms by (auto simp: no_short_def list_all_length)
  then show ?thesis using assms by (simp add: nth_tl)
qed

lemma no_short_cache_step: "cache_step v d d' \<Longrightarrow> no_short v d' = no_short v d"
  by (simp add: no_short_def cache_stepD)

lemma chain_byte_vol:
  assumes "dd_inv v d" "int (off + k) < dsize d" "buf ! k = 0 \<or> no_short v d"
  shows "chain_byte v d buf off k = vol v d ! (off + k)"
proof -
  let ?s = "(off + k) div nat (sectorSize d)"
  have "?s < length (location d)" using sector_in_range [OF assms(1,2)] .
  then have "1 \<le> file_of v d ?s" "file_of v d ?s < length (files d)"
    using file_of_bounds [OF assms(1)] by auto
  then have "no_short v d \<Longrightarrow> dsize d \<le> fsize v (the (files d ! file_of v d ?s))"
    using no_shortD by blast
  moreover have "off + k < nat (dsize d)" using assms(2) by linarith
  ultimately show ?thesis
    using assms by (auto simp: chain_byte_def run_byte_def vol_nth vol_byte_def file_byte_def)
qed

lemma fullReadAt_vol:
  assumes law: "fiemap_law ops v" "read_law ops v" "size_law ops v" and inv: "dd_inv v d"
    and ss: "ss = nat (sectorSize d)" and len: "length buf = N * ss"
    and fits: "s0 + N \<le> length (location d)"
    and zero: "list_all (\<lambda>b. b = 0) buf \<or> no_short v d"
  shows "\<exists>d' buf' c e. fullReadAt ops d buf (int (s0 * ss)) = Some (d', buf', c, e) \<and>
           cache_step v d d' \<and> length buf' = length buf \<and> (quiet ops v \<longrightarrow> e = None) \<and>
           (e = None \<longrightarrow> c = int (length buf) \<and>
              (\<forall>k < length buf. buf' ! k = vol v d ! (s0 * ss + k)))"
proof -
  have "int (s0 * ss + k) < dsize d" if "k < length buf" for k
  proof -
    have "s0 * ss + k < (s0 + N) * ss" using that len by (simp add: add_mult_distrib)
    also have "\<dots> \<le> length (location d) * ss" using fits by (rule mult_le_mono1)
    finally have "int (s0 * ss + k) < int (length (location d) * ss)" by (simp only: of_nat_less_iff)
    then show ?thesis using dd_inv_size [OF inv] dd_inv_ss [OF inv] ss by (simp add: mult.commute)
  qed
  then have "chain_byte v d buf (s0 * ss) k = vol v d ! (s0 * ss + k)" if "k < length buf" for k
    using chain_byte_vol [OF inv, of "s0 * ss" k buf] that zero by (auto simp: list_all_length)
  then show ?thesis
    using fullReadAt_correct [OF law inv ss len fits] by fastforce
qed

text \<open>The three parts of an unaligned request, each a sector-aligned read.\<close>

lemma sectors_fit:
  assumes "dd_inv v d" "ss = nat (sectorSize d)" "int n \<le> dsize d"
  shows "n div ss \<le> length (location d)" "0 < n mod ss \<Longrightarrow> n div ss < length (location d)"
proof -
  have "int n \<le> int (length (location d) * ss)"
    using assms dd_inv_ss [OF assms(1)] dd_inv_size [OF assms(1)] by (simp add: mult.commute)
  then have le: "n \<le> length (location d) * ss" by (simp only: of_nat_le_iff)
  have ss0: "0 < ss" using dd_inv_ss [OF assms(1)] assms(2) by simp
  show "n div ss \<le> length (location d)"
    using div_le_mono [OF le, of ss] ss0 by simp
  assume "0 < n mod ss"
  then have "n \<noteq> length (location d) * ss" by (metis mod_mult_self2_is_0 not_less_zero)
  then show "n div ss < length (location d)"
    using le by (simp add: less_mult_imp_div_less)
qed

lemma copy_at_vol:
  assumes "off + length buf \<le> length vl" "a + length p = b" "b \<le> length buf"
    "\<forall>k < a. buf ! k = vl ! (off + k)" "\<forall>k < length p. p ! k = vl ! (off + a + k)"
  shows "\<forall>k < b. copy_at buf a p ! k = vl ! (off + k)"
proof (intro allI impI)
  fix k assume "k < b"
  then show "copy_at buf a p ! k = vl ! (off + k)"
    using assms by (cases "k < a") (auto simp: nth_copy_at)
qed

lemma ReadAt_parts:
  assumes S: "sectorSize d = int ss" and ss0: "0 < ss" and l: "l = length buf"
    and r: "r = off mod ss" and e: "e = (off + l) mod ss"
    and ne: "buf \<noteq> []" and un: "\<not> (r = 0 \<and> e = 0)"
    and first: "fullReadAt ops d (replicate ss 0) (int (off - r)) = Some (d1, rb, c1, e1)"
    and rb: "length rb = ss"
  defines "b1 \<equiv> copy_at buf 0 (take l (drop r rb))"
  shows "ReadAt ops d buf (int off) =
    (if e1 \<noteq> None then Some (d1, buf, 0, e1)
     else if l \<le> ss - r then Some (d1, b1, int l, None)
     else do { mid \<leftarrow> go_slice b1 (int (ss - r)) (int l - int e);
               (d2, mid', _, e2) \<leftarrow> fullReadAt ops d1 mid (int (off + (ss - r)));
               let buf2 = copy_at b1 (ss - r) mid'
               in if e2 \<noteq> None then Some (d2, buf2, 0, e2)
                  else if e > 0
                  then do {
                    (d3, rb', _, e3) \<leftarrow> fullReadAt ops d2 rb (int (off + l - e));
                    if e3 \<noteq> None then Some (d3, buf2, 0, e3)
                    else Some (d3, copy_at buf2 (l - e) (take e rb'), int l, None) }
                  else Some (d2, buf2, int l, None) })"
proof -
  have r': "r \<le> off" "r < ss" "e \<le> off + l" using ss0 by (simp_all add: r e)
  have smods: "int off smod int ss = int r" "(int l + int off) smod int ss = int e"
    by (simp_all only: r e smod_int of_nat_add [symmetric] add.commute)
  have diffs: "int off - int r = int (off - r)" "int ss - int r = int (ss - r)"
    "int off + int l - int e = int (off + l - e)" "nat (int l - int e) = l - e"
    "int off + int (ss - r) = int (off + (ss - r))"
    "(int l \<le> int (ss - r)) = (l \<le> ss - r)" using r' by auto
  have cases: "(int r = 0 \<and> int e = 0) = False" "(int ss = 0) = False" "(int ss < 0) = False"
    "(buf = []) = False"
    using un ss0 ne by auto
  have tl: "go_slice rb (int r) (int ss) = Some (drop r rb)"
    using rb r' by (simp add: go_slice_def)
  show ?thesis
    unfolding ReadAt_def S l [symmetric] b1_def Let_def smods diffs cases nat_int if_False
      of_nat_0_less_iff first
    by (simp add: rb tl del: of_nat_add of_nat_diff)
qed

lemma ReadAt_unaligned:
  assumes law: "fiemap_law ops v" "read_law ops v" "size_law ops v" and inv: "dd_inv v d"
    and fits: "int (off + length buf) \<le> dsize d" and ns: "no_short v d"
    and ss: "ss = nat (sectorSize d)" and ne: "buf \<noteq> []"
    and un': "\<not> (off mod ss = 0 \<and> (off + length buf) mod ss = 0)"
  shows "\<exists>d' buf' c e. ReadAt ops d buf (int off) = Some (d', buf', c, e) \<and>
           cache_step v d d' \<and> length buf' = length buf \<and> (quiet ops v \<longrightarrow> e = None) \<and>
           (e = None \<longrightarrow> c = int (length buf) \<and>
              (\<forall>k < length buf. buf' ! k = vol v d ! (off + k)))"
proof -
  let ?l = "length buf" and ?r = "off mod ss" and ?S = "off div ss"
  let ?e = "(off + ?l) mod ss" and ?T = "(off + ?l) div ss"
  have S: "sectorSize d = int ss" and ss0: "0 < ss" using dd_inv_ss [OF inv] ss by auto
  have r: "?r < ss" and e: "?e < ss" using ss0 by auto
  have SL: "?S < length (location d)"
  proof -
    have "int off < dsize d" using ne fits by (cases buf) auto
    then show ?thesis using sector_in_range [OF inv, of off] fits ss by simp
  qed
  have nowV: "cache_step v d d' \<Longrightarrow> vol v d' = vol v d" for d'
    using cache_step_vol [OF _ inv] by simp
  have stepI: "dd_inv v d'" "ss = nat (sectorSize d')" "no_short v d'"
    "length (location d') = length (location d)" if "cache_step v d d'" for d'
    using that ss ns no_short_cache_step by (auto simp: cache_stepD)
  obtain d1 rb c1 e1 where r1:
    "fullReadAt ops d (replicate ss 0) (int (?S * ss)) = Some (d1, rb, c1, e1)"
    "cache_step v d d1" "length rb = ss" "quiet ops v \<longrightarrow> e1 = None"
    "e1 = None \<longrightarrow> (\<forall>k < ss. rb ! k = vol v d ! (?S * ss + k))"
    using fullReadAt_vol [OF law inv ss, of "replicate ss 0" 1 ?S] SL ns by fastforce
  let ?t = "drop ?r rb" and ?b1 = "copy_at buf 0 (take ?l (drop ?r rb))"
  have t: "go_slice rb (int ?r) (int ss) = Some ?t"
    using r1(3) r by (simp add: go_slice_def)
  have b1: "\<forall>k < min ?l (ss - ?r). ?b1 ! k = vol v d ! (off + k)" if "e1 = None"
    using r1 that r by (auto simp: nth_copy_at algebra_simps)
  have "int (off - ?r) = int (?S * ss)" by (simp only: minus_mod_eq_div_mult)
  note R = ReadAt_parts [OF S ss0 refl refl refl ne un' r1(1) [folded this] r1(3)]
  show ?thesis
  proof (cases "e1 \<noteq> None \<or> ?l \<le> ss - ?r")
    case True
    then show ?thesis using R r1 b1 by auto
  next
    case False
    note split = block_split [OF ss0, of off ?l]
    have big: "ss - ?r < ?l" and e1: "e1 = None" using False by auto
    let ?m = "take ((?T - (?S + 1)) * ss) (drop (ss - ?r) ?b1)"
    have mid: "go_slice ?b1 (int (ss - ?r)) (int ?l - int ?e) = Some ?m"
      using split(2) [OF big] by (auto simp: go_slice_def intro!: arg_cong [where f = "\<lambda>n. take n _"])
    have ml: "length ?m = (?T - (?S + 1)) * ss" using split(2) [OF big] by simp
    note TL = sectors_fit [OF inv ss, of "off + ?l"]
    note s1 = stepI [OF r1(2)]
    obtain d2 m' c2 e2 where r2:
      "fullReadAt ops d1 ?m (int (off + (ss - ?r))) = Some (d2, m', c2, e2)"
      "cache_step v d d2" "length m' = (?T - (?S + 1)) * ss" "quiet ops v \<longrightarrow> e2 = None"
      "e2 = None \<longrightarrow> (\<forall>k < length m'. m' ! k = vol v d ! (off + (ss - ?r) + k))"
    proof -
      have "?S + 1 + (?T - (?S + 1)) \<le> length (location d1)"
        using split(1) [OF big] TL(1) fits s1 by simp
      then show ?thesis
        using fullReadAt_vol [OF law s1(1,2) ml, of "?S + 1"] s1(3) split(3) [OF big]
          nowV [OF r1(2)] ml cache_step_trans [OF r1(2)] that
        by (metis (no_types, lifting))
    qed
    let ?b2 = "copy_at ?b1 (ss - ?r) m'"
    have b2: "\<forall>k < ?l - ?e. ?b2 ! k = vol v d ! (off + k)" if "e2 = None"
    proof (rule copy_at_vol)
      show "off + length ?b1 \<le> length (vol v d)" using fits by simp
      show "ss - ?r + length m' = ?l - ?e" using r2(3) split(2) [OF big] by linarith
    qed (use that r2 b1 e1 big in auto)
    show ?thesis
    proof (cases "e2 \<noteq> None \<or> ?e = 0")
      case True
      then show ?thesis using R mid r2 b2 e1 big by (auto simp: Let_def)
    next
      case F: False
      note s2 = stepI [OF r2(2)]
      obtain d3 rb' c3 e3 where r3:
        "fullReadAt ops d2 rb (int (off + ?l - ?e)) = Some (d3, rb', c3, e3)"
        "cache_step v d d3" "length rb' = ss" "quiet ops v \<longrightarrow> e3 = None"
        "e3 = None \<longrightarrow> (\<forall>k < ss. rb' ! k = vol v d ! (off + ?l - ?e + k))"
      proof -
        have "?T + 1 \<le> length (location d2)" "length rb = 1 * ss"
          using TL(2) fits s2 F r1(3) by auto
        then show ?thesis
          using fullReadAt_vol [OF law s2(1,2), of rb 1 "?T"] s2(3) split(4) [OF big] r1(3)
            nowV [OF r2(2)] cache_step_trans [OF r2(2)] that
          by (metis (no_types, lifting))
      qed
      have "\<forall>k < ?l. copy_at ?b2 (?l - ?e) (take ?e rb') ! k = vol v d ! (off + k)" if "e3 = None"
      proof (rule copy_at_vol)
        show "?l - ?e + length (take ?e rb') = ?l" using r3(3) e split(2) [OF big] by simp
        show "\<forall>k<length (take ?e rb'). take ?e rb' ! k = vol v d ! (off + (?l - ?e) + k)"
          using that r3 e split(2) [OF big] by auto
      qed (use that F b2 fits in auto)
      then show ?thesis using R mid r2 r3 e1 big F by (auto simp: Let_def)
    qed
  qed
qed

lemma take_drop_eqI:
  "length xs = n \<Longrightarrow> off + n \<le> length ys \<Longrightarrow> (\<And>k. k < n \<Longrightarrow> xs ! k = ys ! (off + k)) \<Longrightarrow>
     xs = take n (drop off ys)"
  by (rule nth_equalityI) auto

text \<open>Every read: the result, the cache and the errors.\<close>

lemma ReadAt_correct:
  assumes law: "fiemap_law ops v" "read_law ops v" "size_law ops v" and inv: "dd_inv v d"
    and fits: "int (off + length buf) \<le> dsize d" and ss: "ss = nat (sectorSize d)"
    and zero: "no_short v d \<or>
               off mod ss = 0 \<and> length buf mod ss = 0 \<and> list_all (\<lambda>b. b = 0) buf"
  shows "\<exists>d' buf' c e. ReadAt ops d buf (int off) = Some (d', buf', c, e) \<and>
           cache_step v d d' \<and> length buf' = length buf \<and> (quiet ops v \<longrightarrow> e = None) \<and>
           (e = None \<longrightarrow> c = int (length buf) \<and> buf' = take (length buf) (drop off (vol v d)))"
proof -
  have S: "sectorSize d = int ss" and ss0: "0 < ss" using dd_inv_ss [OF inv] ss by auto
  consider (empty) "buf = []"
    | (aligned) "buf \<noteq> []" "off mod ss = 0" "length buf mod ss = 0"
    | (unaligned) "buf \<noteq> []" "\<not> (off mod ss = 0 \<and> (off + length buf) mod ss = 0)" "no_short v d"
    using zero by (metis add_0 mod_add_left_eq)
  then show ?thesis
  proof cases
    case empty
    then show ?thesis
      using ss0 cache_step_refl [OF inv] by (auto simp: ReadAt_def S Let_def)
  next
    case aligned
    then have o: "off = (off div ss) * ss" and l: "length buf = (length buf div ss) * ss" by auto
    then have R: "ReadAt ops d buf (int off) = fullReadAt ops d buf (int (off div ss * ss))"
      using aligned ss0 by (simp add: ReadAt_def S Let_def smod_int of_nat_add [symmetric]
          mod_add_eq [of "length buf" ss off, symmetric] del: of_nat_add of_nat_mult)
    have "off div ss + length buf div ss = (off + length buf) div ss"
      using aligned ss0 by (simp add: div_add1_eq)
    then have "off div ss + length buf div ss \<le> length (location d)"
      using sectors_fit(1) [OF inv ss fits] by simp
    moreover have "list_all (\<lambda>b. b = 0) buf \<or> no_short v d" using zero by auto
    ultimately show ?thesis
      using fullReadAt_vol [OF law inv ss l, of "off div ss"] o R fits
      by (fastforce intro!: take_drop_eqI)
  next
    case unaligned
    then show ?thesis
      using ReadAt_unaligned [OF law inv fits unaligned(3) ss unaligned(1,2)] fits
      by (fastforce intro!: take_drop_eqI)
  qed
qed

end
