(* ===== verification/DiffDiskWrite.thy ===== *)
theory DiffDiskWrite
  imports DiffDiskRead
begin

text \<open>
  Correctness of the write path: a write without error is an overwrite of the volume at its offset;
  a failed one changes at most the sectors it touches; only the head file changes.
\<close>

section \<open>What a write may change\<close>

definition write_step ::
  "'f file_view \<Rightarrow> nat \<Rightarrow> nat \<Rightarrow> 'f diffDisk \<Rightarrow> 'f diffDisk \<Rightarrow> bool" where
  "write_step v lo hi d d' \<longleftrightarrow>
     dd_inv v d' \<and> sectorSize d' = sectorSize d \<and> dsize d' = dsize d \<and>
     length (location d') = length (location d) \<and> length (files d') = length (files d) \<and>
     butlast (files d') = butlast (files d) \<and>
     (\<forall>k < nat (dsize d). k < lo \<or> hi \<le> k \<longrightarrow> vol v d' ! k = vol v d ! k)"

lemma write_stepD:
  assumes "write_step v lo hi d d'"
  shows "dd_inv v d'" "sectorSize d' = sectorSize d" "dsize d' = dsize d"
    "length (location d') = length (location d)" "length (files d') = length (files d)"
    "butlast (files d') = butlast (files d)"
    "\<And>k. k < nat (dsize d) \<Longrightarrow> k < lo \<or> hi \<le> k \<Longrightarrow> vol v d' ! k = vol v d ! k"
  using assms by (auto simp: write_step_def)

lemma write_step_refl: "dd_inv v d \<Longrightarrow> write_step v lo hi d d"
  by (simp add: write_step_def)

lemma write_step_trans:
  assumes 1: "write_step v a b d d1" and 2: "write_step v a' b' d1 d2"
    and le: "lo \<le> a" "lo \<le> a'" "b \<le> hi" "b' \<le> hi"
  shows "write_step v lo hi d d2"
proof -
  note s1 = write_stepD [OF 1] and s2 = write_stepD [OF 2]
  have "vol v d2 ! k = vol v d ! k" if "k < nat (dsize d)" "k < lo \<or> hi \<le> k" for k
  proof -
    have "k < a \<or> b \<le> k" "k < a' \<or> b' \<le> k" using that le by auto
    then show ?thesis using s1(7) [of k] s2(7) [of k] that(1) s1(3) by simp
  qed
  then show ?thesis
    using s1(2-6) s2(1-6) unfolding write_step_def by simp
qed

lemma cache_step_write_step:
  "cache_step v d d' \<Longrightarrow> dd_inv v d \<Longrightarrow> write_step v lo hi d d'"
  using cache_step_vol [of v d d'] by (auto simp: write_step_def cache_stepD)

section \<open>Whole sectors\<close>

lemma mark_sectors_Some:
  "s + n \<le> length loc \<Longrightarrow>
     \<exists>loc'. mark_sectors loc (int s) n t = Some loc' \<and> length loc' = length loc \<and>
        (\<forall>k < length loc. loc' ! k = (if s \<le> k \<and> k < s + n then t else loc ! k))"
proof (induction n arbitrary: s loc)
  case (Suc n)
  then obtain loc' where "mark_sectors (loc[s := t]) (int (Suc s)) n t = Some loc'"
    "length loc' = length loc"
    "\<forall>k < length loc. loc' ! k = (if Suc s \<le> k \<and> k < Suc s + n then t else loc[s := t] ! k)"
    using Suc.IH [of "Suc s" "loc[s := t]"] by auto
  then show ?case
    using Suc.prems by (auto simp: go_update_def add.commute nth_list_update)
qed auto

lemma top_alloc_head_cong:
  assumes files: "files d' = (files d)[h := Some f']" and ss: "sectorSize d' = sectorSize d"
    and h: "h < length (files d)"
    and same: "sector_alloc v d f' (int s) = sector_alloc v d (the (files d ! h)) (int s)"
  shows "top_alloc v d' s i = top_alloc v d s i"
proof -
  have sa: "sector_alloc v d' g (int s) = sector_alloc v d g (int s)" for g
    by (simp add: sector_alloc_def ss)
  have "sector_alloc v d (the (files d' ! j)) (int s) = sector_alloc v d (the (files d ! j)) (int s)" for j
  proof (cases "j = h")
    case True
    then show ?thesis using same h by (simp add: files)
  next
    case False
    then show ?thesis by (simp add: files)
  qed
  then show ?thesis
    by (induction i rule: induct_nat_012) (simp_all add: sa)
qed

lemma list_all_tl_update: "list_all P (tl xs) \<Longrightarrow> P y \<Longrightarrow> list_all P (tl (xs[h := y]))"
  by (cases xs; cases h) (auto simp: list_all_iff dest: set_update_subset_insert [THEN subsetD])

text \<open>
  The disk after the head file was replaced by \<open>f'\<close> and \<open>N\<close> sectors from \<open>s0\<close> were marked as the
  head's; the new head agrees with the old one outside these sectors.
\<close>

definition head_write ::
  "'f file_view \<Rightarrow> nat \<Rightarrow> nat \<Rightarrow> 'f \<Rightarrow> byte list \<Rightarrow> 'f diffDisk \<Rightarrow> bool" where
  "head_write v s0 N f' loc d \<longleftrightarrow>
     length loc = length (location d) \<and>
     (\<forall>k < length loc. loc ! k = (if s0 \<le> k \<and> k < s0 + N then head_index d else location d ! k)) \<and>
     fsize v f' = dsize d \<and>
     (\<forall>k. k < int (s0 * nat (sectorSize d)) \<or> int ((s0 + N) * nat (sectorSize d)) \<le> k \<longrightarrow>
        content v f' k = content v (the (last (files d))) k \<and>
        alloc v f' k = alloc v (the (last (files d))) k)"

definition head_written :: "'f \<Rightarrow> byte list \<Rightarrow> 'f diffDisk \<Rightarrow> 'f diffDisk" where
  "head_written f' loc d =
     d\<lparr>location := loc, files := (files d)[length (files d) - 1 := Some f']\<rparr>"

lemma head_written_simps [simp]:
  "location (head_written f' loc d) = loc"
  "files (head_written f' loc d) = (files d)[length (files d) - 1 := Some f']"
  "sectorSize (head_written f' loc d) = sectorSize d" "dsize (head_written f' loc d) = dsize d"
  by (simp_all add: head_written_def)

lemma head_facts:
  assumes "dd_inv v d"
  shows "files d \<noteq> []" "last (files d) = files d ! (length (files d) - 1)"
    "unat (head_index d) = length (files d) - 1" "head_index d \<noteq> 0"
proof -
  show "files d \<noteq> []" using dd_inv_len2 [OF assms] by auto
  then show "last (files d) = files d ! (length (files d) - 1)" by (simp add: last_conv_nth)
  show "unat (head_index d) = length (files d) - 1" by (rule unat_head_index [OF assms])
  then show "head_index d \<noteq> 0" using dd_inv_len2 [OF assms] by fastforce
qed

lemma head_write_inv:
  assumes inv: "dd_inv v d" and hw: "head_write v s0 N f' loc d"
  shows "dd_inv v (head_written f' loc d)"
proof -
  have "list_all (\<lambda>g. g \<noteq> None) (tl (files (head_written f' loc d)))"
    using inv by (auto simp: dd_inv_def intro: list_all_tl_update)
  moreover have "list_all (\<lambda>l. unat l < length (files d)) loc"
    using hw head_facts [OF inv] dd_inv_len2 [OF inv] dd_inv_location [OF inv]
    by (auto simp: list_all_length head_write_def)
  moreover have "last (files (head_written f' loc d)) = Some f'"
    using head_facts(1) [OF inv] by (simp add: last_conv_nth)
  ultimately show ?thesis using inv hw by (auto simp: dd_inv_def head_write_def)
qed

lemma head_write_in:
  assumes inv: "dd_inv v d" and hw: "head_write v s0 N f' loc d"
    and ss: "ss = nat (sectorSize d)"
    and k: "s0 * ss \<le> k" "k < (s0 + N) * ss" "int k < dsize d"
  shows "vol v (head_written f' loc d) ! k = content v f' (int k)"
proof -
  have "0 < ss" using dd_inv_ss [OF inv] ss by simp
  then have "s0 \<le> k div ss" "k div ss < s0 + N"
    using k by (auto simp: less_eq_div_iff_mult_less_eq less_mult_imp_div_less)
  then have "file_of v (head_written f' loc d) (k div ss) = length (files d) - 1"
    using hw head_facts [OF inv] sector_in_range [OF inv k(3)] ss
    by (auto simp: file_of_def head_write_def)
  then show ?thesis
    using k hw head_facts(1) [OF inv] ss
    by (simp add: vol_nth vol_byte_def file_byte_def head_write_def)
qed

text \<open>A sector outside the written ones lies outside byte by byte.\<close>

lemma sector_outside:
  assumes "s < s0 \<or> s0 + N \<le> s" "int s * int ss \<le> j" "j < int s * int ss + int ss"
  shows "j < int (s0 * ss) \<or> int ((s0 + N) * ss) \<le> j"
proof (cases "s < s0")
  case True
  then have "(s + 1) * ss \<le> s0 * ss" by (intro mult_le_mono1) simp
  then have "int ((s + 1) * ss) \<le> int (s0 * ss)" by (simp only: of_nat_le_iff)
  then show ?thesis using assms by (simp add: algebra_simps)
next
  case False
  then have "int ((s0 + N) * ss) \<le> int (s * ss)"
    using assms(1) by (intro of_nat_mono mult_le_mono1) simp
  then show ?thesis by (metis assms(2) of_nat_mult order_trans)
qed

lemma head_write_top:
  assumes inv: "dd_inv v d" and hw: "head_write v s0 N f' loc d"
    and ss: "ss = nat (sectorSize d)" and out: "s < s0 \<or> s0 + N \<le> s"
  shows "top_alloc v (head_written f' loc d) s i = top_alloc v d s i"
proof -
  have S: "sectorSize d = int ss" using dd_inv_ss [OF inv] ss by auto
  have "sector_alloc v d f' (int s) = sector_alloc v d (the (last (files d))) (int s)"
    using hw [unfolded head_write_def, folded ss] sector_outside [OF out]
    unfolding sector_alloc_def S by (metis atLeastLessThan_iff)
  then show ?thesis
    using head_facts [OF inv]
    by (intro top_alloc_head_cong [where h = "length (files d) - 1" and f' = f']) auto
qed

lemma head_write_keep:
  assumes inv: "dd_inv v d" and hw: "head_write v s0 N f' loc d"
    and ss: "ss = nat (sectorSize d)"
    and k: "k < nat (dsize d)" "k < s0 * ss \<or> (s0 + N) * ss \<le> k"
  shows "vol v (head_written f' loc d) ! k = vol v d ! k"
proof -
  let ?s = "k div ss" and ?d' = "head_written f' loc d" and ?f = "the (last (files d))"
  have ss0: "0 < ss" and S: "sectorSize d = int ss" using dd_inv_ss [OF inv] ss by auto
  note same = hw [unfolded head_write_def, folded ss]
  have sl: "?s < length (location d)" using sector_in_range [OF inv, of k] k ss by simp
  have out: "?s < s0 \<or> s0 + N \<le> ?s"
    using k ss0 by (auto simp: less_eq_div_iff_mult_less_eq less_mult_imp_div_less)
  have "top_alloc v ?d' ?s i = top_alloc v d ?s i" for i
    using head_write_top [OF inv hw ss out] .
  then have "file_of v ?d' ?s = file_of v d ?s"
    using out same sl by (auto simp: file_of_def)
  moreover have "content v f' (int k) = content v ?f (int k)"
    using same k by (metis of_nat_le_iff of_nat_less_iff)
  ultimately show ?thesis
    using k ss same dd_inv_head_size [OF inv] head_facts [OF inv]
    by (cases "file_of v d ?s = length (files d) - 1") (auto simp: vol_nth vol_byte_def file_byte_def)
qed

lemma head_write_step:
  assumes inv: "dd_inv v d" and hw: "head_write v s0 N f' loc d"
    and ss: "ss = nat (sectorSize d)"
  shows "write_step v (s0 * ss) ((s0 + N) * ss) d (head_written f' loc d)"
proof -
  have "butlast ((files d)[length (files d) - 1 := Some f']) = butlast (files d)"
    using head_facts(1) [OF inv] by (metis butlast_list_update)
  then show ?thesis
    using head_write_inv [OF inv hw] head_write_keep [OF inv hw ss] hw
    unfolding write_step_def by (auto simp: head_write_def)
qed

lemma fullWriteAt_shape:
  assumes law: "write_law ops v" and inv: "dd_inv v d"
    and ss: "ss = nat (sectorSize d)" and len: "length buf = N * ss"
    and fits: "s0 + N \<le> length (location d)"
  shows "\<exists>f' loc c e. fullWriteAt ops d buf (int (s0 * ss)) = Some (head_written f' loc d, c, e) \<and>
           head_write v s0 N f' loc d \<and> (quiet ops v \<longrightarrow> e = None) \<and>
           0 \<le> c \<and> c \<le> int (length buf) \<and>
           (e = None \<longrightarrow> c = int (length buf) \<and>
              (\<forall>j < length buf. content v f' (int (s0 * ss) + int j) = buf ! j \<and>
                 alloc v f' (int (s0 * ss) + int j)))"
proof -
  have S: "sectorSize d = int ss" and ss0: "0 < ss" using dd_inv_ss [OF inv] ss by auto
  note hf = head_facts [OF inv]
  let ?h = "length (files d) - 1"
  let ?f = "the (last (files d))"
  have fat: "file_at d (uint (head_index d)) = Some ?f"
  proof -
    have "uint (head_index d) = int ?h" by (metis hf(3) uint_nat)
    then show ?thesis using dd_inv_file_at [OF inv, of ?h] dd_inv_len2 [OF inv] hf(2) by simp
  qed
  have "int ((s0 + N) * ss) \<le> int (length (location d) * ss)"
    using fits by (simp only: of_nat_le_iff mult_le_mono1)
  then have range: "int (s0 * ss) + int (length buf) \<le> fsize v ?f" "int ((s0 + N) * ss) \<le> dsize d"
    using dd_inv_head_size [OF inv] dd_inv_size [OF inv] S len by (auto simp: algebra_simps)
  obtain f' c e where wr: "f_WriteAt ops ?f buf (int (s0 * ss)) = (f', c, e)"
    by (metis prod_cases3)
  note W = law [unfolded write_law_def, rule_format, OF wr, OF conjI, OF _ range(1)]
  obtain loc where loc: "mark_sectors (location d) (int s0) N (head_index d) = Some loc"
    "length loc = length (location d)"
    "\<forall>k < length loc. loc ! k = (if s0 \<le> k \<and> k < s0 + N then head_index d else location d ! k)"
    using mark_sectors_Some [OF fits] by metis
  have "int (s0 * ss) + int (length buf) = int ((s0 + N) * ss)" by (simp add: len algebra_simps)
  then have hw: "head_write v s0 N f' loc d"
    using loc W dd_inv_head_size [OF inv] unfolding head_write_def ss [symmetric] by simp
  have q: "int (s0 * ss) sdiv int ss = int s0" "int (N * ss) sdiv int ss = int N"
    using ss0 by (simp_all only: sdiv_int nonzero_mult_div_cancel_right)
  have F: "fullWriteAt ops d buf (int (s0 * ss)) = Some (head_written f' loc d, c, e)"
    using ss0 fat wr loc hf
    by (simp add: fullWriteAt_def head_written_def S len q smod_int Let_def del: of_nat_mult)
  have "quiet ops v \<Longrightarrow> e = None"
    using wr range(1) unfolding quiet_def by (metis of_nat_0_le_iff snd_conv)
  then show ?thesis using F hw W by auto
qed

lemma top_alloc_head:
  "2 \<le> i \<Longrightarrow> sector_alloc v d (the (files d ! i)) (int s) \<Longrightarrow> top_alloc v d s i = i"
proof -
  assume "2 \<le> i" "sector_alloc v d (the (files d ! i)) (int s)"
  moreover from this(1) obtain j where "i = Suc (Suc j)" by (metis add_2_eq_Suc le_Suc_ex)
  ultimately show ?thesis by simp
qed

text \<open>With only one file the head is index 1, which owns every sector nothing above it owns.\<close>

lemma top_alloc_le1: "i \<le> 1 \<Longrightarrow> top_alloc v d s i = 1"
  by (cases i) auto

lemma sector_alloc_written:
  assumes "0 < ss" "s0 \<le> s" "s < s0 + N" "sectorSize d = int ss"
    "\<forall>j < N * ss. alloc v f' (int (s0 * ss) + int j)"
  shows "sector_alloc v d f' (int s)"
proof -
  have "(s - s0) * ss < N * ss" using assms by simp
  then have "alloc v f' (int (s0 * ss) + int ((s - s0) * ss))" using assms(5) by blast
  moreover have "s0 * ss + (s - s0) * ss = s * ss"
    using assms(2) by (metis add_mult_distrib le_add_diff_inverse)
  ultimately have "alloc v f' (int (s * ss))" by (metis of_nat_add)
  then show ?thesis using assms by (auto simp: sector_alloc_def)
qed

lemma fullWriteAt_exact:
  assumes law: "write_law ops v" and inv: "dd_inv v d" and ex: "exact v d"
    and ss: "ss = nat (sectorSize d)" and len: "length buf = N * ss"
    and fits: "s0 + N \<le> length (location d)"
    and w: "fullWriteAt ops d buf (int (s0 * ss)) = Some (d', c, None)"
  shows "exact v d'"
proof -
  have ss0: "0 < ss" and S: "sectorSize d = int ss" using dd_inv_ss [OF inv] ss by auto
  obtain f' loc where d': "d' = head_written f' loc d" and hw: "head_write v s0 N f' loc d"
    and al: "\<forall>j < N * ss. alloc v f' (int (s0 * ss) + int j)"
    using fullWriteAt_shape [OF law inv ss len fits] w len by auto
  let ?h = "length (files d) - 1"
  note hf = head_facts [OF inv]
  have "file_of v d' s = file_top v d' s" if s: "s < length (location d)" for s
  proof (cases "s0 \<le> s \<and> s < s0 + N")
    case True
    have "sector_alloc v d' f' (int s)"
      using sector_alloc_written [OF ss0 _ _ S al] True by (simp add: sector_alloc_def d')
    then have "file_top v d' s = ?h"
      using top_alloc_head [of ?h v d' s] top_alloc_le1 [of ?h v d' s] hf(1) dd_inv_len2 [OF inv]
      by (cases "2 \<le> ?h") (auto simp: file_top_def d')
    moreover have "file_of v d' s = ?h"
      using True s hf hw by (auto simp: file_of_def head_write_def d')
    ultimately show ?thesis by simp
  next
    case False
    have tops: "top_alloc v d' s i = top_alloc v d s i" for i
      using head_write_top [OF inv hw ss] False d' by auto
    then have "file_top v d' s = file_top v d s" by (simp add: file_top_def d')
    moreover have "file_of v d' s = file_of v d s"
      using False s hw tops by (auto simp: file_of_def head_write_def d')
    ultimately show ?thesis using ex s by (simp add: exact_def)
  qed
  then show ?thesis using hw by (simp add: exact_def d' head_write_def)
qed

lemma fullWriteAt_correct:
  assumes law: "write_law ops v" and inv: "dd_inv v d"
    and ss: "ss = nat (sectorSize d)" and len: "length buf = N * ss"
    and fits: "s0 + N \<le> length (location d)"
  shows "\<exists>d' c e. fullWriteAt ops d buf (int (s0 * ss)) = Some (d', c, e) \<and>
           write_step v (s0 * ss) ((s0 + N) * ss) d d' \<and> (quiet ops v \<longrightarrow> e = None) \<and>
           0 \<le> c \<and> c \<le> int (length buf) \<and>
           (e = None \<longrightarrow> c = int (length buf) \<and> vol v d' = copy_at (vol v d) (s0 * ss) buf \<and>
              (exact v d \<longrightarrow> exact v d'))"
proof -
  obtain f' loc c e where F: "fullWriteAt ops d buf (int (s0 * ss)) = Some (head_written f' loc d, c, e)"
    and hw: "head_write v s0 N f' loc d"
    and r: "quiet ops v \<longrightarrow> e = None" "0 \<le> c" "c \<le> int (length buf)" "e = None \<longrightarrow> c = int (length buf)"
    and W: "e = None \<longrightarrow> (\<forall>j < length buf. content v f' (int (s0 * ss) + int j) = buf ! j)"
    using fullWriteAt_shape [OF law inv ss len fits] by blast
  have "vol v (head_written f' loc d) = copy_at (vol v d) (s0 * ss) buf" if "e = None"
  proof (rule nth_equalityI)
    fix k assume k: "k < length (vol v (head_written f' loc d))"
    show "vol v (head_written f' loc d) ! k = copy_at (vol v d) (s0 * ss) buf ! k"
    proof (cases "s0 * ss \<le> k \<and> k < (s0 + N) * ss")
      case True
      then obtain j where j: "k = s0 * ss + j" "j < N * ss"
        by (auto simp: add_mult_distrib dest: le_Suc_ex)
      then have "content v f' (int (s0 * ss) + int j) = buf ! j"
        using W that len by simp
      moreover have "int k < dsize d" using k by simp
      ultimately show ?thesis
        using True k j head_write_in [OF inv hw ss, of k] len by (simp add: nth_copy_at)
    next
      case False
      then show ?thesis
        using k head_write_keep [OF inv hw ss, of k] len by (auto simp: nth_copy_at add_mult_distrib)
    qed
  qed simp
  moreover have "e = None \<Longrightarrow> exact v d \<Longrightarrow> exact v (head_written f' loc d)"
    using fullWriteAt_exact [OF law inv _ ss len fits] F by simp
  ultimately show ?thesis
    using F head_write_step [OF inv hw ss] r by simp
qed

section \<open>Parts of a sector\<close>

lemma computeNominalWrittenBytes_bounds:
  "0 \<le> bufSize \<Longrightarrow>
     0 \<le> computeNominalWrittenBytes bufSize w offset readOffset \<and>
     computeNominalWrittenBytes bufSize w offset readOffset \<le> bufSize"
  by (auto simp: computeNominalWrittenBytes_def Let_def)

lemma copy_at_inner:
  assumes "length rb = ss" "\<forall>k < ss. rb ! k = vl ! (a + k)" "r + length buf \<le> ss" "a + ss \<le> length vl"
  shows "copy_at vl a (copy_at rb r buf) = copy_at vl (a + r) buf"
proof (rule nth_equalityI)
  fix k assume "k < length (copy_at vl a (copy_at rb r buf))"
  then show "copy_at vl a (copy_at rb r buf) ! k = copy_at vl (a + r) buf ! k"
    using assms by (auto simp: nth_copy_at)
qed simp

text \<open>The range of whole sectors that covers the bytes from \<open>off\<close> to \<open>off + l\<close>.\<close>

definition hull_lo :: "nat \<Rightarrow> nat \<Rightarrow> nat" where
  "hull_lo ss off = off div ss * ss"

definition hull_hi :: "nat \<Rightarrow> nat \<Rightarrow> nat" where
  "hull_hi ss n = (n + ss - 1) div ss * ss"

lemma readModifyWrite_correct:
  assumes law: "fiemap_law ops v" "read_law ops v" "size_law ops v" "write_law ops v"
    and inv: "dd_inv v d" and ss: "ss = nat (sectorSize d)" and ne: "buf \<noteq> []"
    and one: "off mod ss + length buf \<le> ss" and fits: "int (off + length buf) \<le> dsize d"
  defines "S \<equiv> off div ss"
  shows "\<exists>d' c e. readModifyWrite ops d buf (int off) = Some (d', c, e) \<and>
           write_step v (S * ss) ((S + 1) * ss) d d' \<and> (quiet ops v \<longrightarrow> e = None) \<and>
           0 \<le> c \<and> c \<le> int (length buf) \<and>
           (e = None \<longrightarrow> c = int (length buf) \<and> vol v d' = copy_at (vol v d) off buf \<and>
              (exact v d \<longrightarrow> exact v d'))"
proof -
  have Sd: "sectorSize d = int ss" and ss0: "0 < ss" using dd_inv_ss [OF inv] ss by auto
  have "int off < dsize d" using ne fits by (cases buf) auto
  then have SL: "S < length (location d)" using sector_in_range [OF inv, of off] ss S_def by simp
  obtain d1 rb c1 e1 where r1:
    "fullReadAt ops d (replicate ss 0) (int (S * ss)) = Some (d1, rb, c1, e1)"
    "cache_step v d d1" "length rb = ss" "quiet ops v \<longrightarrow> e1 = None"
    "e1 = None \<longrightarrow> (\<forall>k < ss. rb ! k = vol v d ! (S * ss + k))"
    using fullReadAt_vol [OF law(1-3) inv ss, of "replicate ss 0" 1 S] SL by (fastforce simp: list_all_iff)
  let ?rb = "copy_at rb (off mod ss) buf"
  note s1 = cache_stepD [OF r1(2)]
  obtain d2 c2 e2 where w2: "fullWriteAt ops d1 ?rb (int (S * ss)) = Some (d2, c2, e2)"
    "write_step v (S * ss) ((S + 1) * ss) d1 d2" "quiet ops v \<longrightarrow> e2 = None"
    "e2 = None \<longrightarrow> vol v d2 = copy_at (vol v d) (S * ss) ?rb \<and> (exact v d \<longrightarrow> exact v d2)"
    using exact_cache_step [OF r1(2)] fullWriteAt_correct [OF law(4) s1(5), of ss ?rb 1 S] r1(3) SL s1 ss
      cache_step_vol [OF r1(2) inv] by auto
  have smods: "int off sdiv int ss * int ss = int (S * ss)" "int off smod int ss = int (off mod ss)"
    by (simp_all add: sdiv_int smod_int S_def)
  have R: "readModifyWrite ops d buf (int off) =
     (if e1 \<noteq> None then Some (d1, 0, e1)
      else if e2 \<noteq> None
      then Some (d2, computeNominalWrittenBytes (int (length buf)) c2 (int off) (int (S * ss)), e2)
      else Some (d2, int (length buf), None))"
    unfolding readModifyWrite_def Sd Let_def smods nat_int r1(1)
    using ne ss0 w2(1) by simp
  have "S * ss + ss \<le> length (vol v d)"
  proof -
    have "(S + 1) * ss \<le> length (location d) * ss" using SL by (intro mult_le_mono1) simp
    then show ?thesis using dd_inv_size [OF inv] Sd by (simp add: algebra_simps nat_mult_distrib)
  qed
  then have "copy_at (vol v d) (S * ss) ?rb = copy_at (vol v d) off buf" if "e1 = None"
    using copy_at_inner [OF r1(3), of "vol v d" "S * ss" "off mod ss" buf] r1(5) that one
    by (simp add: S_def)
  moreover have "write_step v (S * ss) ((S + 1) * ss) d d1"
    using cache_step_write_step [OF r1(2) inv] .
  moreover from write_step_trans [OF this w2(2)] have "write_step v (S * ss) ((S + 1) * ss) d d2"
    by simp
  ultimately show ?thesis
    using R r1(4) w2(3,4) computeNominalWrittenBytes_bounds [of "int (length buf)"]
    by (cases e1; cases e2) auto
qed

section \<open>Whole requests\<close>

lemma div_block: "m < ss \<Longrightarrow> (q * ss + m) div ss = (q :: nat)"
  by simp

lemma hull_hi_aligned: "0 < ss \<Longrightarrow> n mod ss = 0 \<Longrightarrow> hull_hi ss n = n"
proof -
  assume "0 < ss" "n mod ss = 0"
  then have "n + ss - 1 = n div ss * ss + (ss - 1)" by auto
  also have "\<dots> div ss = n div ss" using \<open>0 < ss\<close> by (intro div_block) simp
  finally show ?thesis using \<open>n mod ss = 0\<close> by (auto simp: hull_hi_def)
qed

lemma hull_hi_unaligned: "0 < ss \<Longrightarrow> n mod ss \<noteq> 0 \<Longrightarrow> hull_hi ss n = (n div ss + 1) * ss"
proof -
  assume a: "0 < ss" "n mod ss \<noteq> 0"
  then have m: "n mod ss - 1 < ss" using mod_less_divisor [of ss n] by linarith
  have "n + ss - 1 = (n div ss + 1) * ss + (n mod ss - 1)"
    using a by (simp add: add_mult_distrib)
  also have "\<dots> div ss = n div ss + 1" using m by (rule div_block)
  finally show ?thesis by (simp add: hull_hi_def)
qed

lemma take_drop_parts:
  "i \<le> j \<Longrightarrow> take i xs @ take (j - i) (drop i xs) @ drop j xs = xs"
  by (metis append.assoc append_take_drop_id le_add_diff_inverse take_add)

lemma copy_at_parts:
  assumes "length a + length b + length c = length buf" "buf = a @ b @ c" "off + length buf \<le> length vl"
  shows "copy_at (copy_at (copy_at vl off a) (off + length a) b) (off + length a + length b) c =
         copy_at vl off buf"
  using assms by (intro nth_equalityI) (auto simp: nth_copy_at nth_append)

lemma write_nest:
  fixes r :: "('d \<times> int \<times> go_error option) option"
  shows "do { (d1, n1, e1) \<leftarrow> r;
              if e1 \<noteq> None then Some (d1, n1, e1)
              else do { (d2, n2, e2) \<leftarrow> g d1;
                        if e2 \<noteq> None then Some (d2, n2 + n1, e2)
                        else do { (d3, n3, e3) \<leftarrow> h d2;
                                  if e3 \<noteq> None then Some (d3, n3 + n1 + n2, e3)
                                  else Some (d3, L, None) } } } =
         do { (d1, n1, e1) \<leftarrow> r;
              if e1 \<noteq> None then Some (d1, n1, e1)
              else do { (d2, n2, e2) \<leftarrow>
                          do { (d2, n2, e2) \<leftarrow> g d1;
                               if e2 \<noteq> None then Some (d2, n2, e2)
                               else do { (d3, n3, e3) \<leftarrow> h d2;
                                         if e3 \<noteq> None then Some (d3, n3 + n2, e3)
                                         else Some (d3, M, None) } };
                        if e2 \<noteq> None then Some (d2, n2 + n1, e2) else Some (d2, L, None) } }"
  by (auto split: Option.bind_splits)

lemma WriteAt_parts:
  assumes S: "sectorSize d = int ss" and ss0: "0 < ss" and l: "l = length buf"
    and r: "r = off mod ss" and e: "e = (off + l) mod ss"
    and ne: "buf \<noteq> []" and un: "\<not> (r = 0 \<and> e = 0)" and le: "(ss - r) + e \<le> l"
    and big: "ss - r < l"
  shows "WriteAt ops d buf (int off) =
    do { (d1, n1, e1) \<leftarrow> readModifyWrite ops d (take (ss - r) buf) (int off);
         if e1 \<noteq> None then Some (d1, n1, e1)
         else do {
           (d2, n2, e2) \<leftarrow> fullWriteAt ops d1 (take (l - e - (ss - r)) (drop (ss - r) buf))
                             (int (off + (ss - r)));
           if e2 \<noteq> None then Some (d2, n2 + n1, e2)
           else do {
             (d3, n3, e3) \<leftarrow> readModifyWrite ops d2 (drop (l - e) buf) (int (off + l - e));
             if e3 \<noteq> None then Some (d3, n3 + n1 + n2, e3) else Some (d3, int l, None) } } }"
proof -
  have "r < ss" using ss0 by (simp add: r)
  then have r': "r < ss" "e \<le> off + l" "e \<le> l" using le by auto
  have smods: "int off smod int ss = int r" "(int l + int off) smod int ss = int e"
    by (simp_all only: r e smod_int of_nat_add [symmetric] add.commute)
  have diffs: "int ss - int r = int (ss - r)" "int off + int l - int e = int (off + l - e)"
    "int off + int (ss - r) = int (off + (ss - r))" "(int (ss - r) \<ge> int l) = False"
    using r' big by auto
  have cases: "(int r = 0 \<and> int e = 0) = False" "(int ss = 0) = False" "(buf = []) = False"
    using un ss0 ne by auto
  have sl: "go_slice buf 0 (int (ss - r)) = Some (take (ss - r) buf)"
    "go_slice buf (int (ss - r)) (int l - int e) = Some (take (l - e - (ss - r)) (drop (ss - r) buf))"
    "go_slice buf (int l - int e) (int l) = Some (drop (l - e) buf)"
    using big le r' l by (auto simp: go_slice_def nat_diff_distrib)
  show ?thesis
    unfolding WriteAt_def S l [symmetric] Let_def smods diffs cases if_False sl Option.bind_lunit
    by (rule refl)
qed

text \<open>
  The outcome of one part of a write: a step within a range that, without error, overwrites the
  volume with the part.
\<close>

definition wrote ::
  "'f file_ops \<Rightarrow> 'f file_view \<Rightarrow> nat \<Rightarrow> nat \<Rightarrow> nat \<Rightarrow> byte list \<Rightarrow> 'f diffDisk \<Rightarrow>
     ('f diffDisk \<times> int \<times> go_error option) option \<Rightarrow> bool" where
  "wrote ops v lo hi off buf d r \<longleftrightarrow>
     (\<exists>d' c e. r = Some (d', c, e) \<and> write_step v lo hi d d' \<and> (quiet ops v \<longrightarrow> e = None) \<and>
        0 \<le> c \<and> c \<le> int (length buf) \<and>
        (e = None \<longrightarrow> c = int (length buf) \<and> vol v d' = copy_at (vol v d) off buf \<and>
           (exact v d \<longrightarrow> exact v d')))"

lemma wrote_widen:
  "wrote ops v lo hi off buf d r \<Longrightarrow> lo' \<le> lo \<Longrightarrow> hi \<le> hi' \<Longrightarrow> wrote ops v lo' hi' off buf d r"
  unfolding wrote_def write_step_def by fastforce

lemma hull_hi_ge:
  assumes "0 < ss"
  shows "n \<le> hull_hi ss n"
proof (cases "n mod ss = 0")
  case True
  then show ?thesis using assms hull_hi_aligned by simp
next
  case False
  then show ?thesis
    using assms hull_hi_unaligned [of ss n] div_mult_mod_eq [of n ss] mod_less_divisor [OF assms, of n]
    by (metis add_le_cancel_left add_mult_distrib less_imp_le mult_1)
qed

lemma rmw_wrote:
  assumes law: "fiemap_law ops v" "read_law ops v" "size_law ops v" "write_law ops v"
    and inv: "dd_inv v d" and ss: "ss = nat (sectorSize d)"
    and one: "off mod ss + length buf \<le> ss" and fits: "int (off + length buf) \<le> dsize d"
  shows "wrote ops v (hull_lo ss off) (hull_hi ss (off + length buf)) off buf d
           (readModifyWrite ops d buf (int off))"
proof (cases "buf = []")
  case True
  then show ?thesis
    using write_step_refl [OF inv] by (simp add: readModifyWrite_def wrote_def)
next
  case False
  have ss0: "0 < ss" using dd_inv_ss [OF inv] ss by simp
  have "(off div ss + 1) * ss \<le> hull_hi ss (off + length buf)"
  proof -
    have "off div ss + 1 \<le> (off + length buf + ss - 1) div ss"
    proof -
      have "(off div ss + 1) * ss \<le> off + length buf + ss - 1"
      proof -
        have "off div ss * ss \<le> off" "1 \<le> length buf" using False by (simp_all add: Suc_leI)
        then show ?thesis unfolding add_mult_distrib by linarith
      qed
      then show ?thesis using ss0 by (simp add: less_eq_div_iff_mult_less_eq)
    qed
    then show ?thesis unfolding hull_hi_def by (rule mult_le_mono1)
  qed
  moreover have "wrote ops v (off div ss * ss) ((off div ss + 1) * ss) off buf d
           (readModifyWrite ops d buf (int off))"
    using readModifyWrite_correct [OF law inv ss False one fits] unfolding wrote_def .
  ultimately show ?thesis by (auto simp: hull_lo_def intro: wrote_widen)
qed

lemma full_wrote:
  assumes law: "write_law ops v" and inv: "dd_inv v d" and ss: "ss = nat (sectorSize d)"
    and al: "off mod ss = 0" "length buf mod ss = 0" and fits: "int (off + length buf) \<le> dsize d"
  shows "wrote ops v off (off + length buf) off buf d (fullWriteAt ops d buf (int off))"
proof -
  have ss0: "0 < ss" using dd_inv_ss [OF inv] ss by simp
  obtain S N where SN: "off = S * ss" "length buf = N * ss"
    using al that [of "off div ss" "length buf div ss"] by auto
  have "S + N \<le> length (location d)"
    using sectors_fit(1) [OF inv ss fits] ss0 SN by (simp add: add_mult_distrib [symmetric])
  then show ?thesis
    using fullWriteAt_correct [OF law inv ss SN(2), of S]
    unfolding wrote_def SN(1) SN(2) add_mult_distrib by blast
qed

lemma wrote_then:
  assumes "wrote ops v lo hi off a d r1"
    and "\<And>d1. write_step v lo hi d d1 \<Longrightarrow>
           wrote ops v lo hi (off + length a) b d1 (g d1)"
    and "off + length a + length b \<le> nat (dsize d)"
  shows "wrote ops v lo hi off (a @ b) d
           (do { (d1, n1, e1) \<leftarrow> r1;
                 if e1 \<noteq> None then Some (d1, n1, e1)
                 else do { (d2, n2, e2) \<leftarrow> g d1;
                           if e2 \<noteq> None then Some (d2, n2 + n1, e2)
                           else Some (d2, int (length a + length b), None) } })"
proof -
  obtain d1 n1 e1 where 1: "r1 = Some (d1, n1, e1)" "write_step v lo hi d d1"
    "quiet ops v \<longrightarrow> e1 = None" "0 \<le> n1" "n1 \<le> int (length a)"
    "e1 = None \<longrightarrow> n1 = int (length a) \<and> vol v d1 = copy_at (vol v d) off a \<and> (exact v d \<longrightarrow> exact v d1)"
    using assms(1) unfolding wrote_def by blast
  obtain d2 n2 e2 where 2: "g d1 = Some (d2, n2, e2)" "write_step v lo hi d1 d2"
    "quiet ops v \<longrightarrow> e2 = None" "0 \<le> n2" "n2 \<le> int (length b)"
    "e2 = None \<longrightarrow> vol v d2 = copy_at (vol v d1) (off + length a) b \<and> (exact v d1 \<longrightarrow> exact v d2)"
    using assms(2) [OF 1(2)] unfolding wrote_def by blast
  have "write_step v lo hi d d2" using write_step_trans [OF 1(2) 2(2)] by simp
  moreover have "copy_at (copy_at (vol v d) off a) (off + length a) b = copy_at (vol v d) off (a @ b)"
    using assms(3) by (intro nth_equalityI) (auto simp: nth_copy_at nth_append)
  ultimately show ?thesis
    using 1 2 unfolding wrote_def by (cases e1; cases e2) auto
qed

text \<open>
  A write of several sectors: its first part \<open>a\<close> ends at a sector boundary \<open>m\<close>, the middle \<open>b\<close> is
  whole sectors up to \<open>n\<close>, and the last part \<open>c\<close> is shorter than a sector.
\<close>

lemma WriteAt_three:
  assumes law: "fiemap_law ops v" "read_law ops v" "size_law ops v" "write_law ops v"
    and inv: "dd_inv v d" and ss: "ss = nat (sectorSize d)"
    and a: "off mod ss + length a \<le> ss" "off + length a = m" "m mod ss = 0"
    and b: "length b mod ss = 0" "m + length b = n" "n mod ss = 0"
    and c: "length c \<le> ss" and fits: "int (n + length c) \<le> dsize d"
  shows "wrote ops v (hull_lo ss off) (hull_hi ss (n + length c)) off (a @ b @ c) d
    (do { (d1, n1, e1) \<leftarrow> readModifyWrite ops d a (int off);
          if e1 \<noteq> None then Some (d1, n1, e1)
          else do {
            (d2, n2, e2) \<leftarrow> fullWriteAt ops d1 b (int m);
            if e2 \<noteq> None then Some (d2, n2 + n1, e2)
            else do {
              (d3, n3, e3) \<leftarrow> readModifyWrite ops d2 c (int n);
              if e3 \<noteq> None then Some (d3, n3 + n1 + n2, e3)
              else Some (d3, int (length a + length (b @ c)), None) } } })"
    (is "wrote ops v ?lo ?hi _ _ _ _")
  unfolding write_nest [where M = "int (length b + length c)"]
proof (rule wrote_then)
  have ss0: "0 < ss" using dd_inv_ss [OF inv] ss by simp
  have hi: "n + length c \<le> ?hi" using hull_hi_ge [OF ss0] .
  have lo: "?lo \<le> off" by (simp add: hull_lo_def)
  show "wrote ops v ?lo ?hi off a d (readModifyWrite ops d a (int off))"
  proof (rule wrote_widen)
    show "wrote ops v ?lo (hull_hi ss (off + length a)) off a d (readModifyWrite ops d a (int off))"
      using rmw_wrote [OF law inv ss a(1)] a(2) b(2) fits by simp
    show "hull_hi ss (off + length a) \<le> ?hi"
      unfolding a(2) hull_hi_aligned [OF ss0 a(3)] using hi b(2) by simp
  qed simp
  show "off + length a + length (b @ c) \<le> nat (dsize d)" using a(2) b(2) fits by simp
  fix d1 assume step: "write_step v ?lo ?hi d d1"
  note s1 = write_stepD [OF step]
  show "wrote ops v ?lo ?hi (off + length a) (b @ c) d1
    (do { (d2, n2, e2) \<leftarrow> fullWriteAt ops d1 b (int m);
          if e2 \<noteq> None then Some (d2, n2, e2)
          else do { (d3, n3, e3) \<leftarrow> readModifyWrite ops d2 c (int n);
                    if e3 \<noteq> None then Some (d3, n3 + n2, e3)
                    else Some (d3, int (length b + length c), None) } })"
    unfolding a(2)
  proof (rule wrote_then)
    show "wrote ops v ?lo ?hi m b d1 (fullWriteAt ops d1 b (int m))"
    proof (rule wrote_widen)
      show "wrote ops v m (m + length b) m b d1 (fullWriteAt ops d1 b (int m))"
        using full_wrote [OF law(4) s1(1) _ a(3) b(1)] s1(2,3) ss b(2) fits by simp
    qed (use hi lo a(2) b(2) in simp_all)
    show "m + length b + length c \<le> nat (dsize d1)" using b(2) fits s1(3) by simp
    fix d2 assume "write_step v ?lo ?hi d1 d2"
    then have "write_step v ?lo ?hi d d2" using write_step_trans [OF step] by simp
    note s2 = write_stepD [OF this]
    show "wrote ops v ?lo ?hi (m + length b) c d2 (readModifyWrite ops d2 c (int n))"
      unfolding b(2)
    proof (rule wrote_widen)
      show "wrote ops v (hull_lo ss n) ?hi n c d2 (readModifyWrite ops d2 c (int n))"
        using rmw_wrote [OF law s2(1), of ss n c] s2(2,3) ss b(3) c fits by simp
      show "?lo \<le> hull_lo ss n"
        unfolding hull_lo_def using a(2) b(2) by (intro mult_le_mono1 div_le_mono) simp
    qed simp
  qed
qed

text \<open>Every write: without error it is an overwrite; with an error it stays inside its sectors.\<close>

lemma WriteAt_wrote:
  assumes law: "fiemap_law ops v" "read_law ops v" "size_law ops v" "write_law ops v"
    and inv: "dd_inv v d" and ss: "ss = nat (sectorSize d)"
    and fits: "int (off + length buf) \<le> dsize d"
  shows "wrote ops v (hull_lo ss off) (hull_hi ss (off + length buf)) off buf d
           (WriteAt ops d buf (int off))"
proof -
  let ?l = "length buf" and ?r = "off mod ss" and ?e = "(off + length buf) mod ss"
  let ?lo = "hull_lo ss off" and ?hi = "hull_hi ss (off + length buf)"
  have S: "sectorSize d = int ss" and ss0: "0 < ss" using dd_inv_ss [OF inv] ss by auto
  have smods: "int off smod int ss = int ?r" "(int ?l + int off) smod int ss = int ?e"
    by (simp_all only: smod_int of_nat_add [symmetric] add.commute)
  have r: "?r < ss" using ss0 by simp
  have hi: "off + ?l \<le> ?hi" using hull_hi_ge [OF ss0] .
  have lo: "?lo \<le> off" by (simp add: hull_lo_def)
  consider (empty) "buf = []" | (aligned) "buf \<noteq> []" "?r = 0" "?e = 0"
    | (single) "buf \<noteq> []" "\<not> (?r = 0 \<and> ?e = 0)" "?l \<le> ss - ?r"
    | (parts) "buf \<noteq> []" "\<not> (?r = 0 \<and> ?e = 0)" "ss - ?r < ?l" by linarith
  then show ?thesis
  proof cases
    case empty
    then show ?thesis
      using ss0 write_step_refl [OF inv] by (simp add: WriteAt_def S wrote_def Let_def)
  next
    case aligned
    then have "?l mod ss = 0" by (metis add_0 mod_add_left_eq)
    then have "wrote ops v ?lo ?hi off buf d (fullWriteAt ops d buf (int off))"
      using full_wrote [OF law(4) inv ss aligned(2) _ fits] lo hi by (auto intro: wrote_widen)
    then show ?thesis
      using aligned ss0 by (simp add: WriteAt_def S Let_def smods)
  next
    case single
    then have "WriteAt ops d buf (int off) = readModifyWrite ops d buf (int off)"
      using ss0 r unfolding WriteAt_def S Let_def smods by auto
    then show ?thesis
      using rmw_wrote [OF law inv ss _ fits] single r by simp
  next
    case parts
    note split = block_split [OF ss0 parts(3)]
    define a where "a = take (ss - ?r) buf"
    define b where "b = take (?l - ?e - (ss - ?r)) (drop (ss - ?r) buf)"
    define c where "c = drop (?l - ?e) buf"
    have le: "(ss - ?r) + ?e \<le> ?l" using split(2) by linarith
    have la: "length a = ss - ?r" and lc: "length c = ?e" using parts(3) le by (auto simp: a_def c_def)
    have lb: "length b = ((off + ?l) div ss - (off div ss + 1)) * ss"
      using split(2) by (simp add: b_def)
    have abc: "a @ b @ c = buf" unfolding a_def b_def c_def
      using le by (intro take_drop_parts) simp
    then have len: "length a + length (b @ c) = ?l" by (metis length_append)
    have n: "off + (ss - ?r) + length b = off + ?l - ?e" "off + ?l - ?e + length c = off + ?l"
      using len la lc by auto
    have "wrote ops v ?lo ?hi off (a @ b @ c) d
      (do { (d1, n1, e1) \<leftarrow> readModifyWrite ops d a (int off);
          if e1 \<noteq> None then Some (d1, n1, e1)
          else do {
            (d2, n2, e2) \<leftarrow> fullWriteAt ops d1 b (int (off + (ss - ?r)));
            if e2 \<noteq> None then Some (d2, n2 + n1, e2)
            else do {
              (d3, n3, e3) \<leftarrow> readModifyWrite ops d2 c (int (off + ?l - ?e));
              if e3 \<noteq> None then Some (d3, n3 + n1 + n2, e3)
              else Some (d3, int (length a + length (b @ c)), None) } } })"
      using WriteAt_three [OF law inv ss, of off a "off + (ss - ?r)" b "off + ?l - ?e" c]
        la lb lc r n split(3,4) fits mod_less_divisor [OF ss0, of "off + ?l"] by simp
    then show ?thesis
      unfolding WriteAt_parts [OF S ss0 refl refl refl parts(1,2) le parts(3)] len abc
        a_def [symmetric] b_def [symmetric] c_def [symmetric] .
  qed
qed

end
