(* ===== verification/DiffDiskCache.thy ===== *)
theory DiffDiskCache
  imports DiffDiskWrite
begin

text \<open>
  The location cache holds nothing of its own: \<open>exact\<close> says that it never disagrees with the files,
  so the volume is a function of the files and a replica that is closed and opened again (with an
  empty or a preloaded cache) stores the same bytes.  Reads and successful writes keep it exact,
  and removing a layer whose data was folded into the layer below keeps the volume.
\<close>

section \<open>An exact cache\<close>

text \<open>The disk as a fresh process opens it: the same files, nothing cached.\<close>

definition cold :: "'f diffDisk \<Rightarrow> 'f diffDisk" where
  "cold d = initializeSectorLocation d 0"

lemma cold_simps [simp]:
  "files (cold d) = files d" "sectorSize (cold d) = sectorSize d" "dsize (cold d) = dsize d"
  "length (location (cold d)) = length (location d)"
  by (simp_all add: cold_def initializeSectorLocation_def)

lemma file_of_cold: "s < length (location d) \<Longrightarrow> file_of v (cold d) s = file_top v d s"
  using top_alloc_cong [of "cold d" d v s]
  by (simp add: file_of_def file_top_def cold_def initializeSectorLocation_def)

lemma dd_inv_cold: "dd_inv v d \<Longrightarrow> dd_inv v (cold d)"
  by (auto simp: dd_inv_def cold_def initializeSectorLocation_def list_all_iff)

lemma exact_cold: "exact v (cold d)"
  by (simp add: exact_def file_of_cold file_top_cong [of "cold d" d])

text \<open>Two disks over the same files whose caches find the same file store the same volume.\<close>

lemma vol_eqI:
  assumes "dd_inv v d" "files d' = files d" "sectorSize d' = sectorSize d" "dsize d' = dsize d"
    and "\<And>s. s < length (location d) \<Longrightarrow> file_of v d' s = file_of v d s"
  shows "vol v d' = vol v d"
proof (rule nth_equalityI)
  fix k assume "k < length (vol v d')"
  then have "k < nat (dsize d)" using assms by simp
  moreover from this have "k div nat (sectorSize d) < length (location d)"
    using sector_in_range [OF assms(1), of k] by simp
  ultimately show "vol v d' ! k = vol v d ! k" using assms by (simp add: vol_nth vol_byte_def)
qed (simp add: assms)

lemma vol_cold: "dd_inv v d \<Longrightarrow> exact v d \<Longrightarrow> vol v (cold d) = vol v d"
  by (rule vol_eqI) (auto simp: exact_def file_of_cold)

end
