(* ===== verification/DiffDiskUnmap.thy ===== *)
theory DiffDiskUnmap
  imports DiffDiskCache
begin

text \<open>
  Unmapping: the requested range is cut to whole sectors without the 32-bit length ever wrapping,
  and only bytes inside those sectors can change.
\<close>

section \<open>The aligned range\<close>

lemma uint_sub:
  fixes w :: u32
  assumes "0 \<le> x" "x \<le> uint w"
  shows "uint (w - of_int x) = uint w - x"
proof -
  have "x < 2 ^ 32" using assms uint_lt2p [of w] by simp
  then have "uint (of_int x :: u32) = x"
    using assms by (simp add: uint_word_of_int_eq take_bit_int_eq_self)
  then show ?thesis using assms by (simp add: uint_sub_lem [THEN iffD1])
qed

definition align_up :: "int \<Rightarrow> int \<Rightarrow> int" where
  "align_up ss x = (x + ss - 1) div ss * ss"

definition align_down :: "int \<Rightarrow> int \<Rightarrow> int" where
  "align_down ss x = x div ss * ss"

lemma align_up_unaligned:
  assumes "0 < ss" "x mod ss \<noteq> 0"
  shows "align_up ss x = x + (ss - x mod ss)"
proof -
  have "0 \<le> x mod ss" "x mod ss < ss" using assms by simp_all
  then have m: "0 < x mod ss" "x mod ss < ss" using assms(2) by linarith+
  have "x + ss - 1 = (x div ss + 1) * ss + (x mod ss - 1)"
    using div_mult_mod_eq [of x ss] by (simp add: algebra_simps)
  also have "\<dots> div ss = x div ss + 1"
  proof -
    have "(x mod ss - 1) div ss = 0" using m by (intro div_pos_pos_trivial) auto
    then show ?thesis using assms by simp
  qed
  finally show ?thesis
    using div_mult_mod_eq [of x ss] by (simp add: align_up_def algebra_simps)
qed

lemma align_up_aligned: "0 < ss \<Longrightarrow> x mod ss = 0 \<Longrightarrow> align_up ss x = x"
proof -
  assume a: "0 < ss" "x mod ss = 0"
  have "x + ss - 1 = (x div ss) * ss + (ss - 1)"
    using div_mult_mod_eq [of x ss] a by simp
  also have "\<dots> div ss = x div ss" using a by simp
  finally show ?thesis using a div_mult_mod_eq [of x ss] by (simp add: align_up_def)
qed

lemma align_up_le_down:
  assumes "0 < ss" "ss \<le> l" "0 \<le> x"
  shows "align_up ss x \<le> align_down ss (x + l)"
proof -
  have "(x + ss - 1) div ss \<le> (x + l) div ss" using assms by (intro zdiv_mono1) auto
  then show ?thesis using assms by (simp add: align_up_def align_down_def mult_right_mono)
qed

lemma unmap_range_correct:
  assumes ss: "0 < ss" "ss \<le> uint len" and off: "0 \<le> off"
    and r: "unmap_range ss len off = (len', off')"
  shows "off' = align_up ss off" "off' + uint len' = align_down ss (off + uint len)"
    "len' \<le> len"
proof -
  let ?s = "off mod ss" and ?e = "(uint len + off) mod ss"
  have s: "0 \<le> ?s" "?s < ss" and e: "0 \<le> ?e" "?e < ss" using ss by simp_all
  have down: "align_down ss (off + uint len) = off + uint len - ?e"
    by (simp add: align_down_def minus_mod_eq_div_mult [symmetric] add.commute)
  have le: "align_up ss off \<le> off + uint len - ?e"
    using align_up_le_down [OF ss(1) ss(2) off] down by simp
  have R: "off' = (if ?s \<noteq> 0 then off + (ss - ?s) else off)"
    "len' = (let len1 = (if ?s \<noteq> 0 then len - of_int (ss - ?s) else len)
             in if ?e \<noteq> 0 then len1 - of_int ?e else len1)"
    using r off ss by (auto simp: unmap_range_def Let_def smod_nonneg)
  show 1: "off' = align_up ss off"
    using R(1) align_up_unaligned [OF ss(1), of off] align_up_aligned [OF ss(1), of off] by auto
  define len1 where "len1 = (if ?s \<noteq> 0 then len - of_int (ss - ?s) else len)"
  have u1: "uint len1 = uint len - (off' - off)"
    using R(1) ss s uint_sub [of "ss - ?s" len] by (auto simp: len1_def)
  have ge: "?e \<le> uint len1" using u1 1 le by linarith
  have u: "uint len' = uint len1 - ?e"
    using R(2) uint_sub [OF e(1) ge] by (auto simp: len1_def [symmetric] Let_def)
  show "off' + uint len' = align_down ss (off + uint len)" using u u1 down by simp
  have "off \<le> off'" using R(1) s by auto
  then show "len' \<le> len" using u u1 e by (simp add: word_le_def)
qed

section \<open>What an unmap may change\<close>

definition same_outside :: "'f file_view \<Rightarrow> int \<Rightarrow> int \<Rightarrow> 'f \<Rightarrow> 'f \<Rightarrow> bool" where
  "same_outside v lo hi f f' \<longleftrightarrow>
     fsize v f' = fsize v f \<and>
     (\<forall>k. k < lo \<or> hi \<le> k \<longrightarrow> content v f' k = content v f k \<and> alloc v f' k = alloc v f k)"

definition unmap_step :: "'f file_view \<Rightarrow> int \<Rightarrow> int \<Rightarrow> 'f diffDisk \<Rightarrow> 'f diffDisk \<Rightarrow> bool" where
  "unmap_step v lo hi d d' \<longleftrightarrow>
     location d' = location d \<and> sectorSize d' = sectorSize d \<and> dsize d' = dsize d \<and>
     length (files d') = length (files d) \<and>
     (\<forall>i. 1 \<le> i \<and> i < length (files d) \<longrightarrow>
        files d' ! i \<noteq> None \<and> same_outside v lo hi (the (files d ! i)) (the (files d' ! i)))"

lemma unmap_step_refl: "dd_inv v d \<Longrightarrow> unmap_step v lo hi d d"
  using dd_inv_file by (fastforce simp: unmap_step_def same_outside_def)

lemma unmap_step_trans:
  assumes 1: "unmap_step v lo hi d d1" and 2: "unmap_step v lo hi d1 d2"
  shows "unmap_step v lo hi d d2"
proof -
  have "same_outside v lo hi (the (files d ! i)) (the (files d2 ! i)) \<and> files d2 ! i \<noteq> None"
    if "1 \<le> i" "i < length (files d)" for i
    using 1 2 that unfolding unmap_step_def same_outside_def by metis
  then show ?thesis using 1 2 unfolding unmap_step_def by metis
qed

lemma unmap_step_update:
  assumes inv: "dd_inv v d" and i: "1 \<le> i" "i < length (files d)"
    and f': "same_outside v lo hi (the (files d ! i)) f'"
  shows "unmap_step v lo hi d (d\<lparr>files := (files d)[i := Some f']\<rparr>)"
proof -
  have "(files d)[i := Some f'] ! j \<noteq> None \<and>
      same_outside v lo hi (the (files d ! j)) (the ((files d)[i := Some f'] ! j))"
    if "1 \<le> j" "j < length (files d)" for j
    using that f' dd_inv_file [OF inv that] i by (cases "j = i") (auto simp: same_outside_def)
  then show ?thesis by (simp add: unmap_step_def)
qed

lemma unmap_step_inv:
  assumes inv: "dd_inv v d" and st: "unmap_step v lo hi d d'"
  shows "dd_inv v d'"
proof -
  let ?h = "length (files d) - 1"
  have h: "1 \<le> ?h" "?h < length (files d)" using dd_inv_len2 [OF inv] by auto
  have "list_all (\<lambda>f. f \<noteq> None) (tl (files d'))"
    using st unfolding unmap_step_def by (auto simp: list_all_length nth_tl)
  moreover have "last (files d') = files d' ! ?h" "last (files d) = files d ! ?h"
    using st h last_conv_nth [of "files d"] last_conv_nth [of "files d'"]
    unfolding unmap_step_def by fastforce+
  moreover have "fsize v (the (files d' ! ?h)) = fsize v (the (files d ! ?h))"
    using st h unfolding unmap_step_def same_outside_def by blast
  ultimately show ?thesis using inv st unfolding unmap_step_def dd_inv_def by auto
qed

text \<open>Sectors outside an aligned range keep their owner and their bytes.\<close>

lemma unmap_step_vol:
  assumes inv: "dd_inv v d" and st: "unmap_step v lo hi d d'"
    and al: "lo mod sectorSize d = 0" "hi mod sectorSize d = 0"
    and k: "k < nat (dsize d)" "int k < lo \<or> hi \<le> int k"
  shows "vol v d' ! k = vol v d ! k"
proof -
  let ?S = "sectorSize d" and ?s = "k div nat (sectorSize d)"
  have S: "0 < ?S" by (rule dd_inv_ss [OF inv])
  note st' = st [unfolded unmap_step_def]
  have s: "?s < length (location d)" using sector_in_range [OF inv, of k] k by simp
  have sk: "int ?s = int k div ?S" using S by (simp add: zdiv_int)
  have out: "j < lo \<or> hi \<le> j" if j: "j div ?S = int ?s" for j
  proof (cases "int k < lo")
    case True
    have lo: "lo = lo div ?S * ?S" using al(1) div_mult_mod_eq [of lo ?S] by simp
    have "int k div ?S < lo div ?S"
    proof (rule ccontr)
      assume "\<not> ?thesis"
      then have "lo div ?S * ?S \<le> int k div ?S * ?S" using S by simp
      also have "\<dots> \<le> int k" using S div_mult_mod_eq [of "int k" ?S] pos_mod_sign [of ?S "int k"] by linarith
      finally show False using True lo by linarith
    qed
    then have "j div ?S < lo div ?S" using j sk by simp
    then show ?thesis using S by (metis linorder_not_less zdiv_mono1)
  next
    case False
    then have "hi div ?S \<le> j div ?S" using k(2) j sk S by (simp add: zdiv_mono1)
    then have "hi div ?S * ?S \<le> j div ?S * ?S" using S by simp
    moreover have "j div ?S * ?S \<le> j"
      using S div_mult_mod_eq [of j ?S] pos_mod_sign [of ?S j] by linarith
    moreover have "hi = hi div ?S * ?S" using al(2) div_mult_mod_eq [of hi ?S] by simp
    ultimately show ?thesis by linarith
  qed
  have in_sector: "j div ?S = int ?s" if "j \<in> {int ?s * ?S..<int ?s * ?S + ?S}" for j
    using that int_div_pos_eq [of j ?S "int ?s" "j - int ?s * ?S"] by (simp add: mult.commute)
  have al_same: "sector_alloc v d' (the (files d' ! i)) (int ?s) = sector_alloc v d (the (files d ! i)) (int ?s)"
    if i: "1 \<le> i" "i < length (files d)" for i
  proof -
    have "alloc v (the (files d' ! i)) j = alloc v (the (files d ! i)) j"
      if "j \<in> {int ?s * ?S..<int ?s * ?S + ?S}" for j
      using st' out [OF in_sector [OF that]] i unfolding same_outside_def by blast
    then show ?thesis using st' by (simp add: sector_alloc_def)
  qed
  have "n < length (files d) \<Longrightarrow> top_alloc v d' ?s n = top_alloc v d ?s n" for n
    by (induction n rule: induct_nat_012) (simp_all add: al_same)
  then have fo: "file_of v d' ?s = file_of v d ?s"
    using st' dd_inv_len2 [OF inv] by (simp add: file_of_def)
  have "same_outside v lo hi (the (files d ! file_of v d ?s)) (the (files d' ! file_of v d ?s))"
    using st' file_of_bounds [OF inv s] by blast
  then have "file_byte v (the (files d' ! file_of v d ?s)) (int k) =
      file_byte v (the (files d ! file_of v d ?s)) (int k)"
    using k(2) unfolding same_outside_def file_byte_def by metis
  then show ?thesis using k fo st' by (simp add: vol_nth vol_byte_def)
qed

section \<open>The loop\<close>

lemma UnmapAt_loop_correct:
  assumes law: "unmap_law ops v" "size_law ops v" and off: "0 \<le> offset"
  shows "dd_inv v d \<Longrightarrow> list_all (\<lambda>(i, p). 1 \<le> i \<and> i < length (files d)) ps \<Longrightarrow>
     \<exists>d' n e. UnmapAt_loop ops actual len offset ps d se u = Some (d', n, e) \<and>
       unmap_step v offset (offset + uint len) d d'"
proof (induction ps arbitrary: d se u)
  case Nil
  then show ?case by (simp add: unmap_step_refl)
next
  case (Cons p ps)
  obtain i path where p: "p = (i, path)" by fastforce
  have i: "1 \<le> i" "i < length (files d)" and rest: "list_all (\<lambda>(i, p). 1 \<le> i \<and> i < length (files d)) ps"
    using Cons.prems p by auto
  let ?f = "the (files d ! i)"
  have fat: "file_at d (int i) = Some ?f" using dd_inv_file_at [OF Cons.prems(1) i] .
  obtain sz e where sz: "f_Size ops ?f = (sz, e)" by fastforce
  show ?case
  proof (cases e)
    case (Some x)
    then show ?thesis using p fat sz unmap_step_refl [OF Cons.prems(1)] by (simp add: Let_def)
  next
    case None
    then have szf: "sz = fsize v ?f" using law(2) sz by (auto simp: size_law_def)
    define cur where "cur = (if sz < offset + uint len then of_int (sz - offset) else len)"
    show ?thesis
    proof (cases "sz < offset \<or> cur = 0")
      case True
      then show ?thesis
        using Cons.IH [OF Cons.prems(1) rest] p fat sz None
        by (auto simp: Let_def cur_def [symmetric])
    next
      case False
      have cur: "uint cur \<le> uint len" "offset + uint cur \<le> sz"
      proof -
        have "uint (of_int (sz - offset) :: u32) = sz - offset" if "sz < offset + uint len"
          using that False uint_lt2p [of len]
          by (simp add: uint_word_of_int_eq take_bit_int_eq_self del: of_int_diff)
        then show "uint cur \<le> uint len" "offset + uint cur \<le> sz"
          by (auto simp: cur_def)
      qed
      obtain f' n' e' where um: "f_UnmapAt ops ?f cur offset = (f', n', e')" by (metis prod_cases3)
      have "same_outside v offset (offset + uint cur) ?f f'"
        using law(1) um cur off szf unfolding unmap_law_def same_outside_def by metis
      then have so: "same_outside v offset (offset + uint len) ?f f'"
        using cur(1) unfolding same_outside_def by force
      let ?d = "d\<lparr>files := (files d)[i := Some f']\<rparr>"
      have st: "unmap_step v offset (offset + uint len) d ?d"
        by (rule unmap_step_update [OF Cons.prems(1) i so])
      show ?thesis
      proof (cases e')
        case (Some x)
        then show ?thesis using p fat sz None False um st by (simp add: Let_def cur_def [symmetric])
      next
        case e': None
        have "dd_inv v ?d" by (rule unmap_step_inv [OF Cons.prems(1) st])
        then show ?thesis
          using Cons.IH [of ?d] rest p fat sz None False um e' unmap_step_trans [OF st]
          by (fastforce simp: Let_def cur_def [symmetric])
      qed
    qed
  qed
qed

end
