(* ===== verification/DiffDiskLayers.thy ===== *)
theory DiffDiskLayers
  imports DiffDiskCache
begin

text \<open>
  Operations on the layers of a disk: folding a removed snapshot into its child and dropping its
  index (\<^verbatim>\<open>RemoveIndex\<close> and the handle refresh of \<^verbatim>\<open>Replica.ReplaceDisk\<close>), and growing the volume
  (\<^verbatim>\<open>Expand\<close>) keep what the volume stores.
\<close>

section \<open>The topmost layer with data\<close>

definition is_top :: "(nat \<Rightarrow> bool) \<Rightarrow> nat \<Rightarrow> nat \<Rightarrow> bool" where
  "is_top P n t \<longleftrightarrow>
     1 \<le> t \<and> (t \<noteq> 1 \<longrightarrow> t \<le> n \<and> P t) \<and> (\<forall>j. t < j \<and> 2 \<le> j \<and> j \<le> n \<longrightarrow> \<not> P j)"

definition layer_has :: "'f file_view \<Rightarrow> 'f diffDisk \<Rightarrow> nat \<Rightarrow> nat \<Rightarrow> bool" where
  "layer_has v d s j = sector_alloc v d (the (files d ! j)) (int s)"

lemma is_top_unique:
  assumes "is_top P n t" "is_top P n t'"
  shows "t = t'"
proof (rule ccontr)
  assume "t \<noteq> t'"
  then consider "t < t'" | "t' < t" by linarith
  then show False
    using assms unfolding is_top_def by cases (metis One_nat_def Suc_1 Suc_leI le_less_trans less_le_not_le)+
qed

lemma is_top_top_alloc: "is_top (layer_has v d s) n (top_alloc v d s n)"
proof (induction n rule: induct_nat_012)
  case (ge2 n)
  then show ?case
    by (auto simp: is_top_def layer_has_def le_Suc_eq)
qed (auto simp: is_top_def)

lemma top_alloc_eqI: "is_top (layer_has v d s) n t \<Longrightarrow> top_alloc v d s n = t"
  using is_top_unique is_top_top_alloc by metis

text \<open>Layers \<open>i\<close> and \<open>i + 1\<close> become one layer \<open>i\<close>, everything above moves down.\<close>

lemma is_top_merge:
  assumes top: "is_top P n t" and i: "1 \<le> i" "i < n"
    and low: "\<And>j. j < i \<Longrightarrow> Q j = P j" and mid: "Q i = (P i \<or> P (i + 1))"
    and high: "\<And>j. i < j \<Longrightarrow> Q j = P (j + 1)"
  shows "is_top Q (n - 1) (if i < t then t - 1 else t)"
proof (cases "i < t")
  case True
  then have t: "t \<le> n" "P t" "\<And>j. t < j \<Longrightarrow> j \<le> n \<Longrightarrow> \<not> P j"
    using top i by (auto simp: is_top_def)
  have "Q (t - 1)"
    using True t(2) mid high [of "t - 1"] by (cases "t = i + 1") auto
  moreover have "\<not> Q j" if "t - 1 < j" "j \<le> n - 1" for j
    using True that t(3) [of "j + 1"] high [of j] by auto
  ultimately show ?thesis using True t(1) i by (auto simp: is_top_def)
next
  case False
  then have "\<not> Q j" if "t < j" "2 \<le> j" "j \<le> n - 1" for j
    using that top low [of j] mid high [of j] unfolding is_top_def
    by (cases "j < i"; cases "j = i") auto
  then show ?thesis
    using False top low [of t] mid i unfolding is_top_def
    by (cases "t = i") auto
qed

section \<open>Replacing a snapshot and its parent by their merge\<close>

text \<open>
  \<open>folded v d i m\<close>: the file \<open>m\<close> holds layer \<open>i + 1\<close> on top of layer \<open>i\<close>, which is what coalescing the
  removed snapshot \<open>i\<close> into its child produces.
\<close>

definition folded :: "'f file_view \<Rightarrow> 'f diffDisk \<Rightarrow> nat \<Rightarrow> 'f \<Rightarrow> bool" where
  "folded v d i m \<longleftrightarrow>
     (\<forall>s < length (location d).
        (sector_alloc v d m (int s) \<longleftrightarrow> layer_has v d s i \<or> layer_has v d s (i + 1)) \<and>
        (\<forall>k. k div nat (sectorSize d) = s \<longrightarrow>
           file_byte v m (int k) =
             file_byte v (the (files d ! (if layer_has v d s (i + 1) then i + 1 else i))) (int k)))"

text \<open>The refresh of the child's handle after the source index is gone.\<close>

definition refresh_file :: "'f diffDisk \<Rightarrow> nat \<Rightarrow> 'f \<Rightarrow> 'f diffDisk" where
  "refresh_file d i m = d\<lparr>files := (files d)[i := Some m]\<rparr>"

lemma shift_location_unat:
  assumes "1 \<le> i" "i < 256"
  shows "unat (shift_location (of_nat i) l) =
           (if unat l = i then 0 else if i < unat l then unat l - 1 else unat l)"
proof -
  have ui: "unat (of_nat i :: byte) = i"
    using assms by (simp add: unat_of_nat take_bit_nat_eq_self)
  have "l = of_nat i \<longleftrightarrow> unat l = i" using ui by (auto simp: word_unat_eq_iff)
  moreover have "(of_nat i :: byte) < l \<longleftrightarrow> i < unat l" using ui by (simp add: word_less_nat_alt)
  moreover have "unat (l - 1) = unat l - 1" if "i < unat l"
    using that assms by (intro unat_minus_one) auto
  ultimately show ?thesis by (auto simp: shift_location_def)
qed

lemma nth_remove:
  "i < length xs \<Longrightarrow> (take i xs @ drop (i + 1) xs) ! j = (if j < i then xs ! j else xs ! (j + 1))"
  by (auto simp: nth_append min_def add.commute)

lemma RemoveIndex_ok:
  assumes "dd_inv v d" "1 \<le> i" "i < length (files d)" "quiet ops v"
  shows "RemoveIndex ops d (int i) =
     Some (d\<lparr>location := map (shift_location (of_nat i)) (location d),
             files := take i (files d) @ drop (i + 1) (files d)\<rparr>, None)"
proof -
  obtain f' e where c: "f_Close ops (the (files d ! i)) = (f', e)" by fastforce
  moreover have "e = None" using c assms(4) unfolding quiet_def by (metis snd_conv)
  ultimately show ?thesis
    using dd_inv_file_at [OF assms(1-3)] by (simp add: RemoveIndex_def)
qed

text \<open>The disk after the fold: index \<open>i\<close> dropped, the merged file in the child's place.\<close>

definition merged :: "'f diffDisk \<Rightarrow> nat \<Rightarrow> 'f \<Rightarrow> 'f diffDisk" where
  "merged d i m =
     refresh_file (d\<lparr>location := map (shift_location (of_nat i)) (location d),
                     files := take i (files d) @ drop (i + 1) (files d)\<rparr>) i m"

lemma merged_simps [simp]:
  "sectorSize (merged d i m) = sectorSize d" "dsize (merged d i m) = dsize d"
  "location (merged d i m) = map (shift_location (of_nat i)) (location d)"
  "files (merged d i m) = (take i (files d) @ drop (i + 1) (files d))[i := Some m]"
  by (simp_all add: merged_def refresh_file_def)

lemma sector_alloc_merged [simp]: "sector_alloc v (merged d i m) f s = sector_alloc v d f s"
  by (simp add: sector_alloc_def)

lemma merged_nth:
  assumes "i + 1 < length (files d)"
  shows "the (files (merged d i m) ! j) =
           (if j < i then the (files d ! j) else if j = i then m else the (files d ! (j + 1)))"
  using assms nth_remove [of i "files d" j] by (cases "j = i") (auto simp: nth_list_update)

lemma merged_inv:
  assumes inv: "dd_inv v d" and i: "1 \<le> i" "i + 2 < length (files d)"
  shows "dd_inv v (merged d i m)"
proof -
  let ?fs = "take i (files d) @ drop (i + 1) (files d)"
  have l: "length ?fs = length (files d) - 1" using i by simp
  have i256: "i < 256" using dd_inv_len256 [OF inv] i by simp
  have "?fs ! j \<noteq> None" if "1 \<le> j" "j < length ?fs" for j
    using nth_remove [of i "files d" j] dd_inv_file [OF inv, of j] dd_inv_file [OF inv, of "j + 1"]
      that i l by (auto simp del: length_append)
  then have "list_all (\<lambda>f. f \<noteq> None) (tl ?fs)"
    using l i by (auto simp: list_all_length nth_tl simp del: tl_append2)
  then have A: "list_all (\<lambda>f. f \<noteq> None) (tl (?fs[i := Some m]))"
    by (rule list_all_tl_update) simp
  have B: "unat (shift_location (of_nat i) l) < length (files d) - 1"
    if "unat l < length (files d)" for l
    using that shift_location_unat [OF i(1) i256, of l] i by auto
  have "last (?fs[i := Some m]) = last (files d)"
  proof -
    have "last (?fs[i := Some m]) = (?fs[i := Some m]) ! (length (files d) - 2)"
      using l i by (subst last_conv_nth) (auto simp: numeral_2_eq_2)
    also have "\<dots> = ?fs ! (length (files d) - 2)" using i by simp
    also have "\<dots> = files d ! (length (files d) - 1)"
      using i nth_remove [of i "files d" "length (files d) - 2"] by (simp add: Suc_diff_Suc numeral_2_eq_2)
    also have "\<dots> = last (files d)" using i by (subst last_conv_nth) auto
    finally show ?thesis .
  qed
  then show ?thesis
    using inv A B l i unfolding dd_inv_def
    by (auto simp: list_all_iff simp del: length_append)
qed

lemma merged_top:
  assumes inv: "dd_inv v d" and i: "1 \<le> i" "i + 2 < length (files d)"
    and fold: "folded v d i m" and s: "s < length (location d)"
  shows "file_top v (merged d i m) s = (if i < file_top v d s then file_top v d s - 1 else file_top v d s)"
proof -
  let ?n = "length (files d) - 1"
  have sa: "layer_has v (merged d i m) s j = sector_alloc v d (the (files (merged d i m) ! j)) (int s)" for j
    by (simp add: layer_has_def del: merged_simps)
  have "is_top (layer_has v (merged d i m) s) (?n - 1)
          (if i < file_top v d s then file_top v d s - 1 else file_top v d s)"
    unfolding file_top_def
  proof (rule is_top_merge [OF is_top_top_alloc])
    show "layer_has v (merged d i m) s i = (layer_has v d s i \<or> layer_has v d s (i + 1))"
      using fold s i unfolding sa folded_def by (simp add: merged_nth del: merged_simps(4))
  qed (use i in \<open>auto simp: sa merged_nth layer_has_def simp del: merged_simps(4)\<close>)
  note top_alloc_eqI [OF this]
  moreover have "length (files (merged d i m)) - 1 = ?n - 1" using i by simp
  ultimately show ?thesis unfolding file_top_def [of v "merged d i m"] by simp
qed

text \<open>Folding a snapshot into its child keeps the volume and an exact cache.\<close>

lemma merged_correct:
  assumes inv: "dd_inv v d" and ex: "exact v d" and i: "1 \<le> i" "i + 2 < length (files d)"
    and fold: "folded v d i m"
  shows "exact v (merged d i m)" "vol v (merged d i m) = vol v d"
proof -
  let ?d = "merged d i m"
  note inv' = merged_inv [OF inv i]
  have i256: "i < 256" using dd_inv_len256 [OF inv] i by simp
  have top: "file_of v ?d s = file_top v ?d s" if s: "s < length (location d)" for s
  proof (cases "location ?d ! s = 0")
    case True
    then show ?thesis by (simp add: file_of_def file_top_def del: merged_simps)
  next
    case False
    then have nz: "unat (location ?d ! s) \<noteq> 0" by (simp add: unat_eq_0)
    have sh: "unat (location ?d ! s) = (if unat (location d ! s) = i then 0
        else if i < unat (location d ! s) then unat (location d ! s) - 1 else unat (location d ! s))"
      using shift_location_unat [OF i(1) i256] s by simp
    then have "location d ! s \<noteq> 0" using nz i by (auto split: if_splits)
    then have "unat (location d ! s) = file_top v d s"
      using exactD [OF ex s] by (simp add: file_of_def)
    then show ?thesis
      using False nz sh merged_top [OF inv i fold s]
      by (auto simp: file_of_def simp del: merged_simps split: if_splits)
  qed
  then show "exact v ?d" by (simp add: exact_def)
  show "vol v ?d = vol v d"
  proof (rule nth_equalityI)
    fix k assume "k < length (vol v ?d)"
    then have k: "k < nat (dsize d)" by simp
    let ?s = "k div nat (sectorSize d)" and ?t = "file_top v d (k div nat (sectorSize d))"
    have s: "?s < length (location d)" using sector_in_range [OF inv, of k] k by simp
    have T: "is_top (layer_has v d ?s) (length (files d) - 1) ?t"
      unfolding file_top_def by (rule is_top_top_alloc)
    have "file_byte v (the (files ?d ! file_top v ?d ?s)) (int k) = file_byte v (the (files d ! ?t)) (int k)"
    proof (cases "?t = i \<or> ?t = i + 1")
      case True
      then have "layer_has v d ?s (i + 1) \<longleftrightarrow> ?t = i + 1"
        using T i unfolding is_top_def by auto
      then show ?thesis
        using fold s True merged_top [OF inv i fold s] i
        unfolding folded_def by (auto simp: merged_nth simp del: merged_simps)
    next
      case False
      then show ?thesis
        using merged_top [OF inv i fold s] i by (auto simp: merged_nth simp del: merged_simps)
    qed
    then show "vol v ?d ! k = vol v d ! k"
      using top [OF s] exactD [OF ex s] k by (simp add: vol_nth vol_byte_def del: merged_simps(4))
  qed simp
qed

section \<open>A new head: snapshots and expansion\<close>

text \<open>What \<^verbatim>\<open>createDisk\<close> does to the volume: the file of the new head goes on top.\<close>

definition new_head :: "'f diffDisk \<Rightarrow> 'f \<Rightarrow> 'f diffDisk" where
  "new_head d f = d\<lparr>files := files d @ [Some f]\<rparr>"

text \<open>The disk a process opens on the \<open>n\<close> lowest entries of the chain (\<^verbatim>\<open>OpenSnapshot\<close>).\<close>

definition snapshot_of :: "'f diffDisk \<Rightarrow> nat \<Rightarrow> 'f diffDisk" where
  "snapshot_of d n = cold (d\<lparr>files := take n (files d)\<rparr>)"

definition fresh_file :: "'f file_view \<Rightarrow> 'f \<Rightarrow> int \<Rightarrow> bool" where
  "fresh_file v f sz \<longleftrightarrow> fsize v f = sz \<and> (\<forall>k. \<not> alloc v f k)"

lemma new_head_simps [simp]:
  "location (new_head d f) = location d" "sectorSize (new_head d f) = sectorSize d"
  "dsize (new_head d f) = dsize d" "files (new_head d f) = files d @ [Some f]"
  by (simp_all add: new_head_def)

lemma top_alloc_append:
  assumes "n < length (files d)" "files d' = files d @ xs" "sectorSize d' = sectorSize d"
  shows "top_alloc v d' s n = top_alloc v d s n"
  using assms
  by (induction n rule: induct_nat_012) (simp_all add: nth_append sector_alloc_def)

lemma file_top_new_head:
  assumes "2 \<le> length (files d)" "files d' = files d @ [Some f]" "sectorSize d' = sectorSize d"
    "\<not> sector_alloc v d f (int s)"
  shows "file_top v d' s = file_top v d s"
proof -
  obtain n where n: "length (files d) = Suc (Suc n)"
    using assms(1) by (metis Suc_le_D numeral_2_eq_2 le_Suc_ex add_Suc)
  have "files d' ! Suc (Suc n) = Some f" using assms(2) n by (simp add: nth_append)
  moreover have "sector_alloc v d' f (int s) = sector_alloc v d f (int s)"
    using assms(3) by (simp add: sector_alloc_def)
  ultimately have "top_alloc v d' s (Suc (Suc n)) = top_alloc v d' s (Suc n)"
    using assms(4) by simp
  then show ?thesis
    using n assms(2) top_alloc_append [OF _ assms(2,3), of "Suc n" v s] by (simp add: file_top_def)
qed

text \<open>Taking a snapshot changes no byte of the volume.\<close>

lemma new_head_correct:
  assumes inv: "dd_inv v d" and len: "length (files d) < 256" and f: "fresh_file v f (dsize d)"
  shows "dd_inv v (new_head d f)" "vol v (new_head d f) = vol v d"
    "exact v d \<Longrightarrow> exact v (new_head d f)"
proof -
  have no: "\<not> sector_alloc v d f (int s)" for s using f by (simp add: fresh_file_def sector_alloc_def)
  note n2 = dd_inv_len2 [OF inv]
  have tops: "file_top v (new_head d f) s = file_top v d s" for s
    by (rule file_top_new_head [OF n2 _ _ no]) simp_all
  have fo: "file_of v (new_head d f) s = file_of v d s" for s
    using tops [of s] by (simp add: file_of_def file_top_def)
  have "files d \<noteq> []" using n2 by auto
  then show inv': "dd_inv v (new_head d f)"
    using inv len f by (auto simp: dd_inv_def fresh_file_def list_all_iff)
  show "exact v (new_head d f)" if "exact v d"
    using that tops fo by (simp add: exact_def)
  show "vol v (new_head d f) = vol v d"
  proof (rule nth_equalityI)
    fix k assume "k < length (vol v (new_head d f))"
    then have k: "k < nat (dsize d)" by simp
    then have s: "k div nat (sectorSize d) < length (location d)"
      using sector_in_range [OF inv, of k] by simp
    show "vol v (new_head d f) ! k = vol v d ! k"
      using k fo file_of_bounds(2) [OF inv s] by (simp add: vol_nth vol_byte_def nth_append)
  qed simp
qed

text \<open>The snapshot that was just taken shows the volume, whatever is written afterwards.\<close>

lemma snapshot_view:
  assumes inv: "dd_inv v d" and ex: "exact v d"
    and d': "butlast (files d') = files d" "files d' \<noteq> []" "sectorSize d' = sectorSize d"
      "dsize d' = dsize d" "length (location d') = length (location d)"
  shows "vol v (snapshot_of d' (length (files d))) = vol v d"
proof -
  have t: "take (length (files d)) (files d') = files d"
    using d'(1,2) by (metis append_butlast_last_id append_eq_conv_conj)
  let ?s = "d'\<lparr>files := files d\<rparr>"
  have "vol v (cold ?s) = vol v (cold d)"
  proof (rule vol_eqI [OF dd_inv_cold [OF inv]])
    fix s assume "s < length (location (cold d))"
    then have "file_of v (cold ?s) s = file_top v ?s s" "file_of v (cold d) s = file_top v d s"
      using file_of_cold [of s ?s v] file_of_cold [of s d v] d'(5) by simp_all
    then show "file_of v (cold ?s) s = file_of v (cold d) s"
      using file_top_cong [of ?s d v s] d'(3) by simp
  qed (simp_all add: d')
  then show ?thesis using t vol_cold [OF inv ex] by (simp add: snapshot_of_def)
qed

text \<open>Expansion: a larger head goes on top and the cache grows; new bytes are zero.\<close>

lemma expand_correct:
  assumes inv: "dd_inv v d" and len: "length (files d) < 256" and f: "fresh_file v f sz"
    and sz: "sz = sectorSize d * int n" "length (location d) \<le> n" "sz < 2 ^ 63"
    and long: "list_all (\<lambda>f. fsize v (the f) \<le> dsize d) (tl (files d))"
  shows "\<exists>d'. Expand (new_head d f) sz = Some d' \<and> dd_inv v d' \<and>
           vol v d' = vol v d @ replicate (nat (sz - dsize d)) 0"
proof -
  define d' where "d' = (new_head d f)\<lparr>location := location d @ replicate (n - length (location d)) 0, dsize := sz\<rparr>"
  obtain ss where S: "sectorSize d = int ss" "0 < ss"
    using dd_inv_ss [OF inv] by (metis zero_less_imp_eq_int)
  have e: "sz = int (n * ss)" "dsize d = int (length (location d) * ss)"
    using sz dd_inv_size [OF inv] S by simp_all
  have E: "Expand (new_head d f) sz = Some d'"
    using S sz(2) by (simp add: Expand_def Let_def sdiv_int smod_int nat_diff_distrib e d'_def del: of_nat_mult)
  note n2 = dd_inv_len2 [OF inv]
  have no: "\<not> sector_alloc v d f (int s)" for s using f by (simp add: fresh_file_def sector_alloc_def)
  have tops: "file_top v d' s = file_top v d s" for s
    by (rule file_top_new_head [OF n2 _ _ no]) (simp_all add: d'_def)
  have "files d \<noteq> []" using n2 by auto
  then have inv': "dd_inv v d'"
    using inv len f sz e S by (auto simp: dd_inv_def fresh_file_def list_all_iff d'_def)
  have old: "vol v d' ! k = vol v d ! k" if k: "k < nat (dsize d)" for k
  proof -
    have s: "k div nat (sectorSize d) < length (location d)"
      using sector_in_range [OF inv, of k] k by simp
    have "file_of v d' (k div nat (sectorSize d)) = file_of v d (k div nat (sectorSize d))"
      using tops [of "k div nat (sectorSize d)"] s by (simp add: file_of_def file_top_def d'_def nth_append)
    moreover have "k < nat sz"
    proof -
      have "length (location d) * ss \<le> n * ss" using sz(2) by (rule mult_le_mono1)
      then show ?thesis by (metis e k nat_int order_less_le_trans)
    qed
    ultimately show ?thesis
      using k file_of_bounds(2) [OF inv s] by (simp add: vol_nth vol_byte_def d'_def nth_append)
  qed
  have new: "vol v d' ! k = 0" if k: "nat (dsize d) \<le> k" "k < nat sz" for k
  proof -
    let ?s = "k div nat (sectorSize d)"
    have ge: "length (location d) \<le> ?s"
      using k(1) e S by (simp add: less_eq_div_iff_mult_less_eq del: of_nat_mult)
    have "?s < n" using k(2) e S by (simp add: less_mult_imp_div_less del: of_nat_mult)
    then have "location d' ! ?s = 0" using ge by (simp add: d'_def nth_append)
    then have "file_of v d' ?s = file_top v d ?s"
      using tops [of ?s] by (simp add: file_of_def file_top_def)
    moreover have "1 \<le> file_top v d ?s" "file_top v d ?s < length (files d)"
      unfolding file_top_def using top_alloc_bounds [of "length (files d) - 1" "length (files d)" v d ?s] n2 by auto
    moreover from this have "fsize v (the (files d ! file_top v d ?s)) \<le> dsize d"
      using long by (cases "files d") (auto simp: list_all_length nth_Cons split: nat.splits)
    moreover from this have "\<not> int k < fsize v (the (files d ! file_top v d ?s))" using k(1) by linarith
    ultimately show ?thesis
      using k(2) by (simp add: vol_nth vol_byte_def file_byte_def d'_def nth_append)
  qed
  have "vol v d' = vol v d @ replicate (nat (sz - dsize d)) 0"
  proof (rule nth_equalityI)
    have "dsize d \<le> sz" using e sz(2) by (simp add: mult_le_mono1 del: of_nat_mult)
    moreover have "0 \<le> dsize d" using e by simp
    ultimately show "length (vol v d') = length (vol v d @ replicate (nat (sz - dsize d)) 0)"
      by (simp add: d'_def nat_diff_distrib)
    fix k assume "k < length (vol v d')"
    then show "vol v d' ! k = (vol v d @ replicate (nat (sz - dsize d)) 0) ! k"
      using old [of k] new [of k] \<open>dsize d \<le> sz\<close> \<open>0 \<le> dsize d\<close>
      by (cases "k < nat (dsize d)") (auto simp: nth_append d'_def nat_diff_distrib)
  qed
  then show ?thesis using E inv' by blast
qed

end
