(* ===== verification/MemFile.thy ===== *)
theory MemFile
  imports DiffDiskView
begin

text \<open>
  An in-memory file: a list of bytes, each with a flag that says whether it is allocated.  It
  satisfies every law of \<open>DiffDiskView\<close>, so the laws are consistent, and its disks can be run.
\<close>

type_synonym memfile = "(byte \<times> bool) list"

definition mem_WriteAt :: "memfile \<Rightarrow> byte list \<Rightarrow> int \<Rightarrow> memfile \<times> int \<times> go_error option" where
  "mem_WriteAt f buf off =
     (if 0 \<le> off \<and> off + int (length buf) \<le> int (length f)
      then (copy_at f (nat off) (map (\<lambda>b. (b, True)) buf), int (length buf), None)
      else (f, 0, Some EOF))"

definition mem_ReadAt :: "memfile \<Rightarrow> byte list \<Rightarrow> int \<Rightarrow> byte list \<times> int \<times> go_error option" where
  "mem_ReadAt f buf off =
     (if 0 \<le> off \<and> off + int (length buf) \<le> int (length f)
      then (map fst (take (length buf) (drop (nat off) f)), int (length buf), None)
      else (buf, 0, Some EOF))"

definition mem_UnmapAt :: "memfile \<Rightarrow> u32 \<Rightarrow> int \<Rightarrow> memfile \<times> int \<times> go_error option" where
  "mem_UnmapAt f len off =
     (if 0 \<le> off \<and> off + uint len \<le> int (length f)
      then (copy_at f (nat off) (replicate (unat len) (0, False)), uint len, None)
      else (f, 0, Some EOF))"

definition mem_Fiemap :: "memfile \<Rightarrow> u64 \<Rightarrow> u64 \<Rightarrow> nat \<Rightarrow> extent list \<times> go_error option" where
  "mem_Fiemap f start len n =
     (take n (map (\<lambda>k. \<lparr>Logical = of_nat k, Length = 1, Flags = 0\<rparr>)
                (filter (\<lambda>k. snd (f ! k) \<and> unat start \<le> k \<and> k < unat start + unat len)
                   [0..<length f])), None)"

definition mem_ops :: "memfile file_ops" where
  "mem_ops = \<lparr>f_WriteAt = mem_WriteAt, f_ReadAt = mem_ReadAt, f_UnmapAt = mem_UnmapAt,
     f_Size = (\<lambda>f. (int (length f), None)), f_Close = (\<lambda>f. (f, None)), f_Fiemap = mem_Fiemap\<rparr>"

definition mem_view :: "memfile file_view" where
  "mem_view = \<lparr>content = (\<lambda>f k. if 0 \<le> k \<and> k < int (length f) then fst (f ! nat k) else 0),
     fsize = (\<lambda>f. int (length f)),
     alloc = (\<lambda>f k. 0 \<le> k \<and> k < int (length f) \<and> snd (f ! nat k))\<rparr>"

section \<open>The laws hold\<close>

lemma mem_size_law: "size_law mem_ops mem_view"
  by (simp add: size_law_def mem_ops_def mem_view_def)

lemma mem_quiet: "quiet mem_ops mem_view"
  by (simp add: quiet_def mem_ops_def mem_view_def mem_Fiemap_def mem_ReadAt_def mem_WriteAt_def)

lemma mem_read_law: "read_law mem_ops mem_view"
  unfolding read_law_def
  by (auto simp: mem_ops_def mem_view_def mem_ReadAt_def nat_add_distrib split: if_splits)

lemma mem_write_law: "write_law mem_ops mem_view"
  unfolding write_law_def
  by (auto simp: mem_ops_def mem_view_def mem_WriteAt_def nth_copy_at nat_add_distrib split: if_splits)

lemma nat_range:
  "0 \<le> off \<Longrightarrow> 0 \<le> k \<Longrightarrow>
     nat off \<le> nat k \<and> nat k < nat off + unat (w :: u32) \<longleftrightarrow> off \<le> k \<and> k < off + uint w"
proof -
  assume "0 \<le> off" "0 \<le> k"
  moreover have "uint w = int (unat w)" by simp
  ultimately show ?thesis by linarith
qed

lemma mem_unmap_law: "unmap_law mem_ops mem_view"
  unfolding unmap_law_def
proof (intro allI impI)
  fix f :: memfile and len off f' n e
  assume u: "f_UnmapAt mem_ops f len off = (f', n, e)"
    and r: "0 \<le> off \<and> off + uint len \<le> fsize mem_view f"
  then have f': "f' = copy_at f (nat off) (replicate (unat len) (0, False))"
    by (simp add: mem_ops_def mem_view_def mem_UnmapAt_def)
  have nth: "f' ! nat k = (if off \<le> k \<and> k < off + uint len then (0, False) else f ! nat k)"
    if "0 \<le> k" "k < int (length f)" for k
    using that r nat_range [of off k len] by (auto simp: f' nth_copy_at)
  have len: "length f' = length f" by (simp add: f')
  show "fsize mem_view f' = fsize mem_view f \<and>
     (\<forall>k. k < off \<or> off + uint len \<le> k \<longrightarrow>
        content mem_view f' k = content mem_view f k \<and> alloc mem_view f' k = alloc mem_view f k) \<and>
     (e = None \<longrightarrow> (\<forall>k. off \<le> k \<and> k < off + uint len \<longrightarrow> content mem_view f' k = 0))"
    using nth len r by (auto simp: mem_view_def)
qed

lemma mem_fiemap_law: "fiemap_law mem_ops mem_view"
  unfolding fiemap_law_def
proof (intro allI impI)
  fix f :: memfile and off len :: int and es
  assume m: "f_Fiemap mem_ops f (of_int off) (of_int len) 1 = (es, None)"
    and b: "0 \<le> off \<and> 0 < len \<and> off + len < 2 ^ 63"
  have u: "unat (of_int off :: u64) = nat off" "unat (of_int len :: u64) = nat len"
    using b by (auto simp: unat_eq_nat_uint uint_word_of_int_eq take_bit_int_eq_self)
  have "es \<noteq> [] \<longleftrightarrow> filter (\<lambda>k. snd (f ! k) \<and> nat off \<le> k \<and> k < nat off + nat len) [0..<length f] \<noteq> []"
    using m unfolding mem_ops_def by (auto simp: mem_Fiemap_def u)
  also have "\<dots> \<longleftrightarrow> (\<exists>k < length f. snd (f ! k) \<and> nat off \<le> k \<and> k < nat off + nat len)"
    by (auto simp: filter_empty_conv)
  also have "\<dots> \<longleftrightarrow> (\<exists>k \<in> {off..<off + len}. alloc mem_view f k)"
  proof
    assume "\<exists>k < length f. snd (f ! k) \<and> nat off \<le> k \<and> k < nat off + nat len"
    then obtain k where "k < length f" "snd (f ! k)" "nat off \<le> k" "k < nat off + nat len" by blast
    then show "\<exists>k \<in> {off..<off + len}. alloc mem_view f k"
      using b by (intro bexI [of _ "int k"]) (auto simp: mem_view_def)
  next
    assume "\<exists>k \<in> {off..<off + len}. alloc mem_view f k"
    then obtain k where "off \<le> k" "k < off + len" "alloc mem_view f k" by auto
    then show "\<exists>k < length f. snd (f ! k) \<and> nat off \<le> k \<and> k < nat off + nat len"
      using b by (intro exI [of _ "nat k"]) (auto simp: mem_view_def)
  qed
  finally show "es \<noteq> [] \<longleftrightarrow> (\<exists>k \<in> {off..<off + len}. alloc mem_view f k)" .
qed

lemmas mem_laws = mem_fiemap_law mem_read_law mem_size_law mem_write_law

end
