(* ===== verification/DiffDiskPreload.thy ===== *)
theory DiffDiskPreload
  imports DiffDiskLayers MemFile
begin

text \<open>
  Filling the cache from the extents of the files (\<^verbatim>\<open>extents.go\<close> and \<^verbatim>\<open>preload\<close>): the loop over the
  FIEMAP replies ends, marks exactly the sectors a file has data in, and layer by layer this gives
  an exact cache.
\<close>

section \<open>What FIEMAP promises for a listing\<close>

definition ext_end :: "extent \<Rightarrow> int" where
  "ext_end e = uint (Logical e) + uint (Length e)"

definition ext_has :: "extent \<Rightarrow> int \<Rightarrow> bool" where
  "ext_has e k \<longleftrightarrow> uint (Logical e) \<le> k \<and> k < ext_end e"

definition is_last :: "extent \<Rightarrow> bool" where
  "is_last e \<longleftrightarrow> and (Flags e) FIEMAP_EXTENT_LAST \<noteq> 0"

text \<open>
  A reply lists allocated, block-aligned extents of the file in order from the start offset on; it
  is empty only when the range has no data, and the flagged extent is the last one of the file.
\<close>

definition listing_law :: "'f file_ops \<Rightarrow> 'f file_view \<Rightarrow> int \<Rightarrow> bool" where
  "listing_law ops v ss \<longleftrightarrow>
     (\<forall>f start len es. f_Fiemap ops f start len MaxExtentsBuffer = (es, None) \<longrightarrow>
        uint start + uint len < 2 ^ 63 \<longrightarrow>
        (\<forall>e \<in> set es. 0 < uint (Length e) \<and> ext_end e \<le> fsize v f \<and>
           ss dvd uint (Logical e) \<and> ss dvd uint (Length e) \<and>
           (\<forall>k. ext_has e k \<longrightarrow> alloc v f k)) \<and>
        list_all (\<lambda>e. \<not> is_last e) (butlast es) \<and>
        (es = [] \<longrightarrow> (\<forall>k. uint start \<le> k \<and> k < uint start + uint len \<longrightarrow> \<not> alloc v f k)) \<and>
        (es \<noteq> [] \<longrightarrow> uint start < ext_end (last es) \<and>
           (\<forall>e \<in> set es. ext_end e \<le> ext_end (last es)) \<and>
           (is_last (last es) \<longrightarrow> (\<forall>k. alloc v f k \<longrightarrow> k < ext_end (last es))) \<and>
           (\<forall>k. uint start \<le> k \<and> k < ext_end (last es) \<and> alloc v f k \<longrightarrow> (\<exists>e \<in> set es. ext_has e k))))"

definition alloc_inside :: "'f file_view \<Rightarrow> bool" where
  "alloc_inside v \<longleftrightarrow> (\<forall>f k. alloc v f k \<longrightarrow> 0 \<le> k \<and> k < fsize v f)"

section \<open>Marking extents\<close>

lemma mark_extent_loop_Some:
  assumes "0 < ss"
  shows "a \<le> s \<Longrightarrow> s + n \<le> length loc \<Longrightarrow>
     \<exists>loc'. mark_extent_loop loc (int ss) (int (a * ss)) (int ((s - a) * ss)) n idx = Some loc' \<and>
        length loc' = length loc \<and>
        (\<forall>k < length loc. loc' ! k = (if s \<le> k \<and> k < s + n then idx else loc ! k))"
proof (induction n arbitrary: s loc)
  case (Suc n)
  have "int (a * ss) + int ((s - a) * ss) = int (s * ss)"
    using Suc.prems(1) by (metis add_mult_distrib le_add_diff_inverse of_nat_add)
  then have q: "(int (a * ss) + int ((s - a) * ss)) sdiv int ss = int s"
    using assms by (simp only: sdiv_int nonzero_mult_div_cancel_right)
  have nx: "int ((s - a) * ss) + int ss = int ((Suc s - a) * ss)"
    using Suc.prems(1) by (simp add: Suc_diff_le)
  obtain loc' where "mark_extent_loop (loc[s := idx]) (int ss) (int (a * ss)) (int ((Suc s - a) * ss)) n idx = Some loc'"
    "length loc' = length loc"
    "\<forall>k < length loc. loc' ! k = (if Suc s \<le> k \<and> k < Suc s + n then idx else loc[s := idx] ! k)"
    using Suc.IH [of "Suc s" "loc[s := idx]"] Suc.prems by auto
  then show ?case
    using Suc.prems unfolding mark_extent_loop.simps(2) q nx
    by (auto simp: go_update_def nth_list_update)
qed auto

lemma sint_small: "uint (w :: u64) < 2 ^ 63 \<Longrightarrow> sint w = uint w"
proof -
  assume "uint w < 2 ^ 63"
  moreover have "- (2 ^ 63) \<le> uint w" using uint_ge_0 [of w] by (rule order_trans [rotated]) simp
  ultimately have "signed_take_bit 63 (uint w) = uint w"
    by (intro signed_take_bit_int_eq_self) auto
  then show ?thesis by (simp add: sint_uint)
qed

lemma dvd_nat_multiple: "0 < ss \<Longrightarrow> 0 \<le> x \<Longrightarrow> int ss dvd x \<Longrightarrow> x = int (nat (x div int ss) * ss)"
  by (simp add: pos_imp_zdiv_nonneg_iff)

lemma mark_extent_correct:
  assumes ss: "0 < ss" and al: "int ss dvd uint (Logical e)" "int ss dvd uint (Length e)"
    and fits: "ext_end e \<le> int (length loc * ss)" and big: "ext_end e < 2 ^ 63"
    and pos: "0 < uint (Length e)"
  shows "\<exists>loc'. mark_extent loc (int ss) e idx = Some loc' \<and> length loc' = length loc \<and>
           (\<forall>s < length loc. loc' ! s = (if ext_has e (int (s * ss)) then idx else loc ! s))"
proof -
  obtain a n where a: "uint (Logical e) = int (a * ss)" and n: "uint (Length e) = int (n * ss)"
    using dvd_nat_multiple [OF ss uint_ge_0 al(1)] dvd_nat_multiple [OF ss uint_ge_0 al(2)] that by blast
  have "uint (Logical e) < 2 ^ 63" "uint (Length e) < 2 ^ 63"
    using big uint_ge_0 [of "Logical e"] uint_ge_0 [of "Length e"] unfolding ext_end_def by linarith+
  then have sint: "sint (Logical e) = int (a * ss)" "sint (Length e) = int (n * ss)"
    by (simp_all only: sint_small a n)
  have sum: "int (a * ss) + int (n * ss) = int ((a + n) * ss)" by (simp add: add_mult_distrib)
  have has: "ext_has e (int (s * ss)) \<longleftrightarrow> a \<le> s \<and> s < a + n" for s
    unfolding ext_has_def ext_end_def a n sum of_nat_le_iff of_nat_less_iff using ss by simp
  have "int ((a + n) * ss) \<le> int (length loc * ss)"
    using fits unfolding ext_end_def a n sum .
  then have an: "a + n \<le> length loc" using ss by (simp only: of_nat_le_iff mult_le_cancel2)
  have cnt: "nat ((int (n * ss) + int ss - 1) div int ss) = n"
  proof -
    have "int (n * ss) + int ss - 1 = int (n * ss + (ss - 1))" using ss by (simp add: of_nat_diff)
    then show ?thesis using ss div_block [of "ss - 1" ss n] by (simp only: zdiv_int [symmetric] nat_int)
  qed
  show ?thesis
    using mark_extent_loop_Some [OF ss, of a a n loc idx] an pos ss
    unfolding mark_extent_def Let_def sint n has by (simp add: cnt del: of_nat_mult)
qed

text \<open>The extents of one reply, up to the flagged one.\<close>

lemma mark_extents_correct:
  assumes ss: "0 < ss"
  shows "(\<forall>e \<in> set es. int ss dvd uint (Logical e) \<and> int ss dvd uint (Length e) \<and> 0 < uint (Length e) \<and>
            ext_end e \<le> int (length loc * ss) \<and> ext_end e < 2 ^ 63) \<Longrightarrow>
     list_all (\<lambda>e. \<not> is_last e) (butlast es) \<Longrightarrow>
     \<exists>loc' fin. mark_extents loc (int ss) es idx = Some (loc', fin) \<and> length loc' = length loc \<and>
        (fin \<longrightarrow> es \<noteq> [] \<and> is_last (last es)) \<and>
        (\<forall>s < length loc. loc' ! s = (if \<exists>e \<in> set es. ext_has e (int (s * ss)) then idx else loc ! s))"
proof (induction es arbitrary: loc)
  case (Cons e es)
  obtain loc1 where l1: "mark_extent loc (int ss) e idx = Some loc1" "length loc1 = length loc"
    "\<forall>s < length loc. loc1 ! s = (if ext_has e (int (s * ss)) then idx else loc ! s)"
    using mark_extent_correct [OF ss, of e loc idx] Cons.prems(1) by auto
  show ?case
  proof (cases "is_last e")
    case True
    then have "es = []" using Cons.prems(2) by (auto split: if_splits)
    then show ?thesis using l1 True by (auto simp: is_last_def)
  next
    case False
    have "list_all (\<lambda>e. \<not> is_last e) (butlast es)"
      using Cons.prems(2) by (cases es) auto
    then obtain loc' fin where "mark_extents loc1 (int ss) es idx = Some (loc', fin)" "length loc' = length loc"
      "fin \<longrightarrow> es \<noteq> [] \<and> is_last (last es)"
      "\<forall>s < length loc. loc' ! s = (if \<exists>e \<in> set es. ext_has e (int (s * ss)) then idx else loc1 ! s)"
      using Cons.IH [of loc1] Cons.prems(1) l1(2) by auto
    then show ?thesis using l1 False by (auto simp: is_last_def)
  qed
qed auto

section \<open>The listing loop\<close>

text \<open>The cache after the extents below \<open>start\<close> were marked.\<close>

definition marked_below ::
  "'f file_view \<Rightarrow> 'f \<Rightarrow> nat \<Rightarrow> byte \<Rightarrow> int \<Rightarrow> byte list \<Rightarrow> byte list \<Rightarrow> bool" where
  "marked_below v f ss idx start loc0 loc \<longleftrightarrow>
     length loc = length loc0 \<and>
     (\<forall>s < length loc0. loc ! s =
        (if \<exists>k \<in> {int (s * ss)..<int (s * ss) + int ss}. alloc v f k \<and> k < start then idx else loc0 ! s))"

lemma sector_of_extent:
  assumes ss: "0 < ss" and al: "int ss dvd uint (Logical e)" "int ss dvd uint (Length e)"
  shows "(\<exists>k \<in> {int (s * ss)..<int (s * ss) + int ss}. ext_has e k) \<longleftrightarrow> ext_has e (int (s * ss))"
proof
  obtain a n where a: "uint (Logical e) = int (a * ss)" and n: "uint (Length e) = int (n * ss)"
    using dvd_nat_multiple [OF ss uint_ge_0 al(1)] dvd_nat_multiple [OF ss uint_ge_0 al(2)] that by blast
  have sum: "int (a * ss) + int (n * ss) = int ((a + n) * ss)" by (simp add: add_mult_distrib)
  assume "\<exists>k \<in> {int (s * ss)..<int (s * ss) + int ss}. ext_has e k"
  then obtain k where k: "int (s * ss) \<le> k" "k < int (s * ss) + int ss" "int (a * ss) \<le> k" "k < int ((a + n) * ss)"
    unfolding ext_has_def ext_end_def a n sum by auto
  have "int (s * ss) + int ss = int ((s + 1) * ss)" by simp
  then have "a * ss < (s + 1) * ss" "s * ss < (a + n) * ss" using k by linarith+
  then have "a < s + 1" "s < a + n" by (simp_all only: mult_less_cancel2)
  then show "ext_has e (int (s * ss))"
    using ss unfolding ext_has_def ext_end_def a n sum of_nat_le_iff of_nat_less_iff by simp
next
  assume "ext_has e (int (s * ss))"
  then show "\<exists>k \<in> {int (s * ss)..<int (s * ss) + int ss}. ext_has e k" using ss by auto
qed

lemma marked_below_step:
  assumes ss: "0 < ss" and m: "marked_below v f ss idx start loc0 loc"
    and es: "\<forall>e \<in> set es. int ss dvd uint (Logical e) \<and> int ss dvd uint (Length e) \<and>
               (\<forall>k. ext_has e k \<longrightarrow> alloc v f k) \<and> ext_end e \<le> stop"
    and cover: "\<forall>k. start \<le> k \<and> k < stop \<and> alloc v f k \<longrightarrow> (\<exists>e \<in> set es. ext_has e k)"
    and le: "start \<le> stop" and len: "length loc' = length loc"
    and loc': "\<forall>s < length loc. loc' ! s =
                 (if \<exists>e \<in> set es. ext_has e (int (s * ss)) then idx else loc ! s)"
  shows "marked_below v f ss idx stop loc0 loc'"
proof -
  have "(\<exists>k \<in> {int (s * ss)..<int (s * ss) + int ss}. alloc v f k \<and> k < stop) \<longleftrightarrow>
        (\<exists>k \<in> {int (s * ss)..<int (s * ss) + int ss}. alloc v f k \<and> k < start) \<or>
        (\<exists>e \<in> set es. ext_has e (int (s * ss)))" (is "?L \<longleftrightarrow> ?A \<or> ?B") for s
  proof
    assume ?L
    then obtain k where k: "k \<in> {int (s * ss)..<int (s * ss) + int ss}" "alloc v f k" "k < stop" by blast
    show "?A \<or> ?B"
    proof (cases "k < start")
      case True
      then show ?thesis using k by blast
    next
      case False
      then have "start \<le> k" by simp
      then obtain e where "e \<in> set es" "ext_has e k" using cover k by blast
      then show ?thesis using sector_of_extent [OF ss, of e s] es k(1) by blast
    qed
  next
    assume "?A \<or> ?B"
    then show ?L
    proof
      assume ?A
      then show ?L using le by fastforce
    next
      assume ?B
      then obtain e where e: "e \<in> set es" "ext_has e (int (s * ss))" by blast
      then have "int (s * ss) < stop" using es unfolding ext_has_def by force
      then show ?L using e es ss by (intro bexI [of _ "int (s * ss)"]) auto
    qed
  qed
  then show ?thesis using m len loc' unfolding marked_below_def by auto
qed

lemma marked_below_mono:
  assumes "marked_below v f ss idx a loc0 loc" "\<And>k. alloc v f k \<Longrightarrow> k < a \<longleftrightarrow> k < b"
  shows "marked_below v f ss idx b loc0 loc"
proof -
  have "(\<exists>k \<in> K. alloc v f k \<and> k < a) = (\<exists>k \<in> K. alloc v f k \<and> k < b)" for K
    using assms(2) by blast
  then show ?thesis using assms(1) unfolding marked_below_def by simp
qed

lemma uint_of_nat64: "int n < 2 ^ 63 \<Longrightarrow> uint (of_nat n :: u64) = int n"
  by (simp add: unsigned_of_nat take_bit_nat_eq_self)

text \<open>
  The loop ends with every sector marked that the file has data in.  The reply either ends the loop
  or moves the start offset up, which the length of the file bounds.
\<close>

lemma LoadDiffDiskLocationList_loop_correct:
  assumes law: "listing_law ops v (int ss)" and ss: "0 < ss" and ins: "alloc_inside v"
    and size: "fsize v f \<le> int (length loc0 * ss)" "int (length loc0 * ss) < 2 ^ 63"
    and stop: "stop = of_nat (length loc0 * ss)"
  shows "marked_below v f ss idx (uint start) loc0 loc \<Longrightarrow> uint start \<le> uint stop \<Longrightarrow>
     \<exists>loc' e. LoadDiffDiskLocationList_loop ops f (int ss) stop idx start loc = Some (loc', e) \<and>
       length loc' = length loc0 \<and> (e = None \<longrightarrow> marked_below v f ss idx (fsize v f) loc0 loc') \<and> (quiet ops v \<longrightarrow> e = None)"
proof (induction "nat (uint stop - uint start)" arbitrary: start loc rule: less_induct)
  case less
  have us: "uint stop = int (length loc0 * ss)"
    unfolding stop by (rule uint_of_nat64 [OF size(2)])
  have diff: "uint start + uint (stop - start) = uint stop"
    using less.prems(2) by (simp add: uint_sub_lem [THEN iffD1])
  obtain es err where fm: "f_Fiemap ops f start (stop - start) MaxExtentsBuffer = (es, err)" by fastforce
  show ?case
  proof (cases err)
    case (Some x)
    then have "\<not> quiet ops v" using fm unfolding quiet_def by (metis option.distinct(1) snd_conv)
    then show ?thesis using fm Some less.prems(1) unfolding marked_below_def
      by (subst LoadDiffDiskLocationList_loop.simps) simp
  next
    case None
    note L = law [unfolded listing_law_def, rule_format, OF fm [unfolded None]]
    have bound: "uint start + uint (stop - start) < 2 ^ 63" using diff us size(2) by simp
    show ?thesis
    proof (cases "es = []")
      case True
      have "k < uint start" if k: "alloc v f k" for k
      proof (rule ccontr)
        assume "\<not> k < uint start"
        moreover have "k < uint stop" using ins k size(1) us unfolding alloc_inside_def by fastforce
        ultimately show False using L [OF bound] True k diff by simp
      qed
      then have "marked_below v f ss idx (fsize v f) loc0 loc"
        using less.prems(1) ins unfolding alloc_inside_def by (blast intro: marked_below_mono)
      moreover from this have "length loc = length loc0" unfolding marked_below_def by simp
      ultimately show ?thesis using fm None True by (subst LoadDiffDiskLocationList_loop.simps) simp
    next
      case False
      let ?stp = "ext_end (last es)" and ?l = "last es"
      have ok: "int ss dvd uint (Logical e)" "int ss dvd uint (Length e)" "0 < uint (Length e)"
          "ext_end e \<le> int (length loc0 * ss)" "ext_end e < 2 ^ 63" "\<forall>k. ext_has e k \<longrightarrow> alloc v f k"
          "ext_end e \<le> ?stp" if "e \<in> set es" for e
        using L [OF bound] size that False by force+
      have ll: "length loc = length loc0" using less.prems(1) unfolding marked_below_def by simp
      obtain loc' fin where me: "mark_extents loc (int ss) es idx = Some (loc', fin)" "length loc' = length loc"
        "fin \<longrightarrow> is_last ?l"
        "\<forall>s < length loc. loc' ! s = (if \<exists>e \<in> set es. ext_has e (int (s * ss)) then idx else loc ! s)"
        using mark_extents_correct [OF ss, of es loc idx] L [OF bound] ok ll by auto
      have cov: "uint start < ?stp" "is_last ?l \<longrightarrow> (\<forall>k. alloc v f k \<longrightarrow> k < ?stp)"
        "\<forall>k. uint start \<le> k \<and> k < ?stp \<and> alloc v f k \<longrightarrow> (\<exists>e \<in> set es. ext_has e k)"
        using L [OF bound] False by blast+
      have m': "marked_below v f ss idx ?stp loc0 loc'"
        by (rule marked_below_step [OF ss less.prems(1) _ cov(3) _ me(2) me(4)]) (use ok cov(1) in auto)
      have lin: "?l \<in> set es" using False by simp
      have ue: "uint (Logical ?l + Length ?l) = ?stp"
        using ok(5) [OF lin] by (simp add: ext_end_def uint_add_lem [THEN iffD1])
      show ?thesis
      proof (cases fin)
        case True
        have "marked_below v f ss idx (fsize v f) loc0 loc'"
          using m' cov(2) me(3) True ins unfolding alloc_inside_def by (blast intro: marked_below_mono)
        then show ?thesis using fm None False me(1,2) ll True
          by (subst LoadDiffDiskLocationList_loop.simps) simp
      next
        case nf: False
        have "nat (uint stop - uint (Logical ?l + Length ?l)) < nat (uint stop - uint start)"
          using cov(1) ue ok(4) [OF lin] us by linarith
        from less.hyps [OF this] m' ue ok(4) [OF lin] us
        show ?thesis using fm None False me(1) nf
          by (subst LoadDiffDiskLocationList_loop.simps) simp
      qed
    qed
  qed
qed

lemma LoadDiffDiskLocationList_correct:
  assumes law: "listing_law ops v (sectorSize d)" and ins: "alloc_inside v" and inv: "dd_inv v d"
    and size: "fsize v f \<le> dsize d"
  shows "\<exists>loc e. LoadDiffDiskLocationList ops d f idx = Some (d\<lparr>location := loc\<rparr>, e) \<and>
     length loc = length (location d) \<and> (quiet ops v \<longrightarrow> e = None) \<and>
     (e = None \<longrightarrow> (\<forall>s < length (location d). loc ! s =
        (if sector_alloc v d f (int s) then idx else location d ! s)))"
proof -
  obtain ss where S: "sectorSize d = int ss" "0 < ss"
    using dd_inv_ss [OF inv] by (metis zero_less_imp_eq_int)
  have sz: "dsize d = int (length (location d) * ss)" using dd_inv_size [OF inv] S by simp
  have m0: "marked_below v f ss idx (uint (0 :: u64)) (location d) (location d)"
    using ins unfolding marked_below_def alloc_inside_def by force
  have stop: "of_nat (length (location d)) * of_int (int ss) = (of_nat (length (location d) * ss) :: u64)"
    by simp
  obtain loc e where L: "LoadDiffDiskLocationList_loop ops f (int ss) (of_nat (length (location d) * ss)) idx 0
        (location d) = Some (loc, e)" "length loc = length (location d)" "e = None \<longrightarrow> marked_below v f ss idx (fsize v f) (location d) loc"
      "quiet ops v \<longrightarrow> e = None"
    using LoadDiffDiskLocationList_loop_correct [OF law [unfolded S(1)] S(2) ins _ _ refl m0] size
      dd_inv_size_bound [OF inv] unfolding sz by auto
  have "(\<exists>k \<in> {int (s * ss)..<int (s * ss) + int ss}. alloc v f k \<and> k < fsize v f) =
      sector_alloc v d f (int s)" for s
    using ins unfolding sector_alloc_def S(1) alloc_inside_def by auto
  then have "e = None \<Longrightarrow> \<forall>s < length (location d). loc ! s =
        (if sector_alloc v d f (int s) then idx else location d ! s)"
    using L(3) unfolding marked_below_def by simp
  then show ?thesis
    using L(1,2,4) unfolding LoadDiffDiskLocationList_def S(1) stop
    by (intro exI [of _ loc] exI [of _ e]) simp
qed

section \<open>Layer by layer\<close>

text \<open>The cache entry after the layers from \<open>b\<close> up to below \<open>n\<close> were loaded on top of \<open>v0\<close>.\<close>

fun pre_top :: "(nat \<Rightarrow> bool) \<Rightarrow> nat \<Rightarrow> nat \<Rightarrow> nat \<Rightarrow> nat" where
  "pre_top P b v0 0 = v0"
| "pre_top P b v0 (Suc i) = (if b \<le> i \<and> P i then i else pre_top P b v0 i)"

definition loaded :: "'f file_view \<Rightarrow> 'f diffDisk \<Rightarrow> nat \<Rightarrow> nat \<Rightarrow> nat \<Rightarrow> byte list \<Rightarrow> bool" where
  "loaded v d b v0 n loc \<longleftrightarrow>
     length loc = length (location d) \<and>
     (\<forall>s < length loc. loc ! s =
        of_nat (pre_top (\<lambda>j. sector_alloc v d (the (files d ! j)) (int s)) b v0 n))"

lemma pre_top_is_top:
  assumes "1 \<le> n" "b = 1 \<and> v0 = 0 \<or> b = 2 \<and> v0 \<le> 1"
  shows "pre_top P b v0 n \<noteq> 0 \<Longrightarrow>
     1 \<le> pre_top P b v0 n \<and> (pre_top P b v0 n \<noteq> 1 \<longrightarrow> pre_top P b v0 n < n \<and> P (pre_top P b v0 n)) \<and>
     (\<forall>j. pre_top P b v0 n < j \<and> 2 \<le> j \<and> j < n \<longrightarrow> \<not> P j)"
  using assms(2)
proof (induction n)
  case (Suc n)
  then show ?case
    by (cases "b \<le> n \<and> P n") (auto simp: less_Suc_eq)
qed auto

lemma pre_top_less: "v0 \<le> 1 \<Longrightarrow> 2 \<le> n \<Longrightarrow> pre_top P b v0 n < n"
proof (induction n)
  case (Suc n)
  then show ?case by (cases "2 \<le> n") (auto simp: numeral_2_eq_2 not_less_eq_eq le_Suc_eq)
qed simp

lemma preload_loop_correct:
  assumes law: "listing_law ops v (sectorSize d)" "size_law ops v" and ins: "alloc_inside v"
    and inv: "dd_inv v d" and size: "\<And>i. 1 \<le> i \<Longrightarrow> i < length (files d) \<Longrightarrow> fsize v (the (files d ! i)) \<le> dsize d"
    and b: "b = (if bk then 2 else 1)"
  shows "1 \<le> i \<Longrightarrow> i \<le> length (files d) \<Longrightarrow> dd_inv v (d\<lparr>location := loc\<rparr>) \<Longrightarrow> loaded v d b v0 i loc \<Longrightarrow>
     \<exists>d' e. preload_loop ops bk [i..<length (files d)] (d\<lparr>location := loc\<rparr>) = Some (d', e) \<and>
       (quiet ops v \<longrightarrow> e = None) \<and>
       (e = None \<longrightarrow> (\<exists>loc'. d' = d\<lparr>location := loc'\<rparr> \<and> loaded v d b v0 (length (files d)) loc'))"
proof (induction "length (files d) - i" arbitrary: i loc)
  case 0
  then show ?case by auto
next
  case (Suc m)
  let ?n = "length (files d)" and ?d = "d\<lparr>location := loc\<rparr>" and ?f = "the (files d ! i)"
  have i: "i < ?n" and l: "[i..<?n] = i # [Suc i..<?n]" using Suc.hyps(2) by (auto simp: upt_conv_Cons)
  have step: "loaded v d b v0 (Suc i) loc"
    if "bk" "i = 1"
    using Suc.prems(4) that b unfolding loaded_def by simp
  show ?case
  proof (cases "i = 1 \<and> bk")
    case True
    then show ?thesis
      using Suc.hyps(1) [of "Suc i" loc] Suc.hyps(2) Suc.prems step i l
      by (simp add: backingFileIndex_def)
  next
    case False
    have fat: "file_at ?d (int i) = Some ?f"
      using dd_inv_file_at [OF Suc.prems(3), of i] Suc.prems(1) i by simp
    obtain loc1 e1 where L: "LoadDiffDiskLocationList ops ?d ?f (of_nat i) = Some (d\<lparr>location := loc1\<rparr>, e1)"
      "length loc1 = length loc" "quiet ops v \<longrightarrow> e1 = None"
      "e1 = None \<longrightarrow> (\<forall>s < length loc. loc1 ! s = (if sector_alloc v d ?f (int s) then of_nat i else loc ! s))"
      using LoadDiffDiskLocationList_correct [OF _ ins Suc.prems(3), of ops ?f "of_nat i"] law(1)
        size [OF Suc.prems(1) i] by (auto simp: sector_alloc_def)
    have skip: "\<not> (int i = uint backingFileIndex \<and> bk)" using False by (simp add: backingFileIndex_def)
    show ?thesis
    proof (cases e1)
      case (Some x)
      then show ?thesis using L fat skip Suc.prems(1) by (auto simp: l)
    next
      case None
      have ld: "loaded v d b v0 (Suc i) loc1"
        using Suc.prems(1,4) L(2,4) None False b unfolding loaded_def by auto
      have "unat (of_nat i :: byte) < ?n"
        using i dd_inv_len256 [OF inv] by (simp add: unat_of_nat take_bit_nat_eq_self)
      then have "unat (loc1 ! s) < ?n" if "s < length loc" for s
        using L(4) None dd_inv_location [OF Suc.prems(3), of s] that by auto
      then have inv1: "dd_inv v (d\<lparr>location := loc1\<rparr>)"
        using Suc.prems(3) L(2) unfolding dd_inv_def by (simp add: list_all_length)
      obtain sz e2 where sz: "f_Size ops ?f = (sz, e2)" by fastforce
      have q: "quiet ops v \<Longrightarrow> e2 = None" using sz unfolding quiet_def by (metis snd_conv)
      have head: "i = ?n - 1 \<Longrightarrow> e2 = None \<Longrightarrow> sz = dsize d"
        using law(2) sz dd_inv_head_size [OF inv] head_facts(2) [OF inv] by (auto simp: size_law_def)
      have self: "d\<lparr>location := loc1, dsize := dsize d\<rparr> = d\<lparr>location := loc1\<rparr>" by simp
      have IH: "\<exists>d' e. preload_loop ops bk [Suc i..<?n] (d\<lparr>location := loc1\<rparr>) = Some (d', e) \<and>
         (quiet ops v \<longrightarrow> e = None) \<and>
         (e = None \<longrightarrow> (\<exists>loc'. d' = d\<lparr>location := loc'\<rparr> \<and> loaded v d b v0 ?n loc'))"
        using Suc.hyps(1) [of "Suc i" loc1] Suc.hyps(2) Suc.prems(1) i inv1 ld by simp
      have R: "preload_loop ops bk [i..<?n] ?d =
          (if i = ?n - 1 \<and> e2 \<noteq> None then Some (d\<lparr>location := loc1\<rparr>, e2)
           else preload_loop ops bk [Suc i..<?n] (d\<lparr>location := loc1\<rparr>))"
        using L(1) fat skip Suc.prems(1) None sz head self unfolding l by (cases e2) auto
      show ?thesis
      proof (cases "i = ?n - 1 \<and> e2 \<noteq> None")
        case True
        then show ?thesis using R q by auto
      next
        case False
        show ?thesis using IH unfolding R if_not_P [OF False] .
      qed
    qed
  qed
qed

text \<open>
  Preloading an empty cache, or one that starts at the backing file, makes it exact; with a backing
  file the load starts at the layer above it.
\<close>

lemma preload_exact:
  assumes law: "listing_law ops v (sectorSize d)" "size_law ops v" and ins: "alloc_inside v"
    and inv: "dd_inv v d" and size: "\<And>i. 1 \<le> i \<Longrightarrow> i < length (files d) \<Longrightarrow> fsize v (the (files d ! i)) \<le> dsize d"
    and v0: "v0 = 0 \<or> v0 = 1 \<and> bk"
  shows "\<exists>d' e. preload ops bk (initializeSectorLocation d v0) = Some (d', e) \<and>
     (quiet ops v \<longrightarrow> e = None) \<and>
     (e = None \<longrightarrow> cache_step v (cold d) d' \<and> exact v d' \<and> vol v d' = vol v (cold d))"
proof -
  let ?n = "length (files d)" and ?loc = "map (\<lambda>_. v0) (location d)"
  define b where "b = (if bk then 2 else 1 :: nat)"
  have n: "2 \<le> ?n" by (rule dd_inv_len2 [OF inv])
  have uv: "unat v0 \<le> 1" "of_nat (unat v0) = v0" using v0 by auto
  have i0: "dd_inv v (d\<lparr>location := ?loc\<rparr>)"
    using inv uv n unfolding dd_inv_def by (auto simp: list_all_iff)
  have l0: "loaded v d b (unat v0) 1 ?loc"
    using uv b_def unfolding loaded_def by simp
  have up: "[0..<?n] = 0 # [1..<?n]" using n by (subst upt_conv_Cons) auto
  obtain d' e where P: "preload_loop ops bk [1..<?n] (d\<lparr>location := ?loc\<rparr>) = Some (d', e)"
    "quiet ops v \<longrightarrow> e = None"
    "e = None \<longrightarrow> (\<exists>loc'. d' = d\<lparr>location := loc'\<rparr> \<and> loaded v d b (unat v0) ?n loc')"
    using preload_loop_correct [OF law ins inv size b_def _ _ i0 l0] n by auto
  have "cache_step v (cold d) d' \<and> exact v d'" if e: "e = None"
  proof -
    obtain loc where d': "d' = d\<lparr>location := loc\<rparr>" and ld: "loaded v d b (unat v0) ?n loc"
      using P(3) e by blast
    have ll: "length loc = length (location d)" using ld unfolding loaded_def by simp
    let ?P = "\<lambda>s j. sector_alloc v d (the (files d ! j)) (int s)"
    have u: "unat (loc ! s) = pre_top (?P s) b (unat v0) ?n" if "s < length loc" for s
    proof -
      have "pre_top (?P s) b (unat v0) ?n < 256"
        using pre_top_less [OF uv(1) n, of "?P s" b] dd_inv_len256 [OF inv] by simp
      then show ?thesis
        using ld that unfolding loaded_def by (simp add: unat_of_nat take_bit_nat_eq_self)
    qed
    have fo: "file_of v d' s = file_top v d s" if s: "s < length loc" for s
    proof (cases "loc ! s = 0")
      case True
      then show ?thesis using top_alloc_cong [of d' d v s] by (simp add: file_of_def file_top_def d')
    next
      case False
      then have nz: "pre_top (?P s) b (unat v0) ?n \<noteq> 0" using u [OF s] by (simp flip: unat_eq_0)
      have "b = 1 \<and> unat v0 = 0 \<or> b = 2 \<and> unat v0 \<le> 1" using v0 uv unfolding b_def by auto
      from pre_top_is_top [OF _ this nz] n
      have "is_top (layer_has v d s) (?n - 1) (unat (loc ! s))"
        unfolding is_top_def layer_has_def u [OF s] by (auto simp: less_eq_Suc_le)
      then show ?thesis
        using False top_alloc_eqI by (fastforce simp: file_of_def file_top_def d')
    qed
    have inv': "dd_inv v d'"
      using inv ll u pre_top_less [OF uv(1) n] unfolding dd_inv_def d' by (auto simp: list_all_length)
    have "cache_step v (cold d) d'"
      unfolding cache_step_def using fo ll inv' file_of_cold [of _ d v] by (simp add: d')
    moreover have "exact v d'"
      using fo file_top_cong [of d' d v] unfolding exact_def by (simp add: d')
    ultimately show ?thesis ..
  qed
  moreover have "preload ops bk (initializeSectorLocation d v0) = Some (d', e)"
    using P(1) up by (simp add: preload_def initializeSectorLocation_def)
  ultimately show ?thesis
    using P(2) cache_step_vol [OF _ dd_inv_cold [OF inv]] by blast
qed

section \<open>The in-memory file lists its extents\<close>

lemma mem_alloc_inside: "alloc_inside mem_view"
  by (simp add: alloc_inside_def mem_view_def)

text \<open>A short in-memory file lists one extent per allocated byte, in order.\<close>

definition mem_small_ops :: "memfile file_ops" where
  "mem_small_ops = mem_ops\<lparr>f_Fiemap := (\<lambda>f start len n.
     if length f \<le> MaxExtentsBuffer then mem_Fiemap f start len n else ([], Some EOF))\<rparr>"

lemma last_filter_upt: "k < n \<Longrightarrow> P k \<Longrightarrow> k \<le> last (filter P [0..<n])"
  by (induction n) (auto simp: less_Suc_eq)

lemma mem_listing_law: "listing_law mem_small_ops mem_view 1"
  unfolding listing_law_def
proof (intro allI impI)
  fix f :: memfile and start len :: u64 and es
  assume m: "f_Fiemap mem_small_ops f start len MaxExtentsBuffer = (es, None)"
  define P where "P = (\<lambda>k. snd (f ! k) \<and> unat start \<le> k \<and> k < unat start + unat len)"
  define ks where "ks = filter P [0..<length f]"
  let ?e = "\<lambda>k. \<lparr>Logical = of_nat k, Length = 1, Flags = 0\<rparr> :: extent"
  have small: "length f \<le> MaxExtentsBuffer" using m by (auto simp: mem_small_ops_def split: if_splits)
  moreover have "length ks \<le> length f" unfolding ks_def by (metis diff_zero length_filter_le length_upt)
  moreover have "es = take MaxExtentsBuffer (map ?e ks)"
    using m small unfolding ks_def P_def by (simp add: mem_small_ops_def mem_Fiemap_def)
  ultimately have es: "es = map ?e ks" by simp
  have u: "uint (of_nat k :: u64) = int k" if "k < length f" for k
    using that small by (intro uint_of_nat64) (simp add: MaxExtentsBuffer_def)
  have en: "ext_end (?e k) = int k + 1" "ext_has (?e k) j \<longleftrightarrow> j = int k" if "k < length f" for k j
    using u [OF that] by (auto simp: ext_end_def ext_has_def)
  have ks: "k \<in> set ks \<longleftrightarrow> k < length f \<and> P k" for k by (auto simp: ks_def)
  have al: "alloc mem_view f j \<longleftrightarrow> (\<exists>k < length f. j = int k \<and> snd (f ! k))" for j
  proof
    assume "alloc mem_view f j"
    then show "\<exists>k < length f. j = int k \<and> snd (f ! k)"
      by (intro exI [of _ "nat j"]) (auto simp: mem_view_def)
  qed (auto simp: mem_view_def)
  have last: "ext_end (last es) = int (last ks) + 1" "last ks < length f" "P (last ks)" if "es \<noteq> []"
  proof -
    have "ks \<noteq> []" using that es by simp
    then have "last ks \<in> set ks" by simp
    then show "last ks < length f" "P (last ks)" using ks by auto
    then show "ext_end (last es) = int (last ks) + 1" using \<open>ks \<noteq> []\<close> en es by (simp add: last_map)
  qed
  have mono: "k \<le> last ks" if "k \<in> set ks" for k
    using that last_filter_upt [of k "length f" P] by (simp add: ks_def)
  have w: "uint start = int (unat start)" "uint len = int (unat len)" by simp_all
  show "(\<forall>e \<in> set es. 0 < uint (Length e) \<and> ext_end e \<le> fsize mem_view f \<and>
           1 dvd uint (Logical e) \<and> 1 dvd uint (Length e) \<and> (\<forall>k. ext_has e k \<longrightarrow> alloc mem_view f k)) \<and>
        list_all (\<lambda>e. \<not> is_last e) (butlast es) \<and>
        (es = [] \<longrightarrow> (\<forall>k. uint start \<le> k \<and> k < uint start + uint len \<longrightarrow> \<not> alloc mem_view f k)) \<and>
        (es \<noteq> [] \<longrightarrow> uint start < ext_end (last es) \<and>
           (\<forall>e \<in> set es. ext_end e \<le> ext_end (last es)) \<and>
           (is_last (last es) \<longrightarrow> (\<forall>k. alloc mem_view f k \<longrightarrow> k < ext_end (last es))) \<and>
           (\<forall>k. uint start \<le> k \<and> k < ext_end (last es) \<and> alloc mem_view f k \<longrightarrow> (\<exists>e \<in> set es. ext_has e k)))"
    (is "?A \<and> ?B \<and> ?C \<and> ?D")
  proof (intro conjI)
    show ?A
    proof
      fix e assume "e \<in> set es"
      then obtain k where k: "e = ?e k" "k < length f" "P k" using es ks by auto
      moreover from this have "alloc mem_view f (int k)" using al by (auto simp: P_def)
      ultimately show "0 < uint (Length e) \<and> ext_end e \<le> fsize mem_view f \<and>
           1 dvd uint (Logical e) \<and> 1 dvd uint (Length e) \<and> (\<forall>k. ext_has e k \<longrightarrow> alloc mem_view f k)"
        using en [OF k(2)] by (simp add: mem_view_def)
    qed
    show ?B by (auto simp: es is_last_def map_butlast [symmetric] list_all_iff)
    show ?C
    proof (intro impI allI notI)
      fix j assume j: "es = []" "uint start \<le> j \<and> j < uint start + uint len" "alloc mem_view f j"
      then obtain k where k: "k < length f" "j = int k" "snd (f ! k)" using al by blast
      then have "P k" using j(2) w unfolding P_def by linarith
      then show False using ks [of k] k j(1) es by simp
    qed
    show ?D
    proof (intro impI conjI ballI allI)
      assume ne: "es \<noteq> []"
      show "uint start < ext_end (last es)" using last [OF ne] w unfolding P_def by linarith
      show "ext_end e \<le> ext_end (last es)" if e: "e \<in> set es" for e
      proof -
        obtain k where k: "e = ?e k" "k \<in> set ks" using e es by auto
        then show ?thesis using last(1) [OF ne] mono [OF k(2)] ks en(1) by simp
      qed
      show "k < ext_end (last es)" if "is_last (last es)" for k
        using that ne by (simp add: es last_map is_last_def)
      fix j assume j: "uint start \<le> j \<and> j < ext_end (last es) \<and> alloc mem_view f j"
      then obtain k where k: "k < length f" "j = int k" "snd (f ! k)" using al by blast
      then have "P k" using j last [OF ne] w unfolding P_def by linarith
      then have "k \<in> set ks" using ks k by simp
      then show "\<exists>e \<in> set es. ext_has e j" using en(2) [OF k(1)] k(2) by (auto simp: es)
    qed
  qed
qed

end
