(* ===== verification/DiffDiskProps.thy ===== *)
theory DiffDiskProps
  imports BlockDevice DiffDiskUnmap DiffDiskPreload
begin

text \<open>
  The properties of the replica's data path, over the definitions of \<open>DiffDisk\<close>: a disk is a block
  device that stores the volume of its chain.  The concrete disks at the end of the first section
  are chains of in-memory files used to run the definitions.
\<close>

section \<open>The disk as a block device\<close>

type_synonym 'f dd_state = "'f file_ops \<times> 'f file_view \<times> 'f diffDisk"

definition dd_lawful :: "'f dd_state \<Rightarrow> bool" where
  "dd_lawful = (\<lambda>(ops, v, d). fiemap_law ops v \<and> read_law ops v \<and> size_law ops v \<and> write_law ops v \<and>
     dd_inv v d \<and> no_short v d)"

definition dd_contents :: "'f dd_state \<Rightarrow> byte list" where
  "dd_contents = (\<lambda>(ops, v, d). vol v d)"

definition dd_write :: "'f dd_state \<Rightarrow> byte list \<Rightarrow> nat \<Rightarrow> 'f dd_state option" where
  "dd_write = (\<lambda>(ops, v, d) buf off.
     case WriteAt ops d buf (int off) of Some (d', _, None) \<Rightarrow> Some (ops, v, d') | _ \<Rightarrow> None)"

definition dd_read :: "'f dd_state \<Rightarrow> nat \<Rightarrow> nat \<Rightarrow> ('f dd_state \<times> byte list) option" where
  "dd_read = (\<lambda>(ops, v, d) off n.
     case ReadAt ops d (replicate n 0) (int off) of
       Some (d', buf, _, None) \<Rightarrow> Some ((ops, v, d'), buf) | _ \<Rightarrow> None)"

definition dd_quiet :: "'f dd_state \<Rightarrow> bool" where
  "dd_quiet s \<longleftrightarrow> dd_lawful s \<and> (case s of (ops, v, d) \<Rightarrow> quiet ops v)"

lemma dd_fits: "dd_inv v d \<Longrightarrow> n \<le> length (vol v d) \<Longrightarrow> int n \<le> dsize d"
  using dd_inv_ss [of v d] dd_inv_size [of v d] by (simp add: le_nat_iff)

lemma no_short_write_step:
  assumes "dd_inv v d" "no_short v d" "write_step v lo hi d d'"
  shows "no_short v d'"
proof -
  note s = write_stepD [OF assms(3)]
  have ne: "files d' \<noteq> []" "files d \<noteq> []" using head_facts(1) s(1) assms(1) by auto
  have "dsize d' \<le> fsize v (the (files d' ! i))" if i: "1 \<le> i" "i < length (files d')" for i
  proof (cases "i = length (files d') - 1")
    case True
    then show ?thesis
      using dd_inv_head_size [OF s(1)] ne by (simp add: last_conv_nth)
  next
    case False
    then have "i < length (butlast (files d'))" "i < length (butlast (files d))" using i s(5) by auto
    then have "files d' ! i = files d ! i" using s(6) nth_butlast by metis
    then show ?thesis using no_shortD [OF assms(2) i(1)] i(2) s(3,5) by simp
  qed
  then show ?thesis using ne by (auto simp: no_short_def list_all_length nth_tl)
qed

interpretation dd: block_device dd_lawful dd_contents dd_write dd_read
proof (unfold_locales, goal_cases)
  case (1 s off buf s')
  obtain ops v d where s: "s = (ops, v, d)" by (cases s)
  have fits: "int (off + length buf) \<le> dsize d"
    using 1(1,2) s dd_fits [of v d "off + length buf"] by (simp add: dd_contents_def dd_lawful_def)
  have w: "wrote ops v (hull_lo (nat (sectorSize d)) off) (hull_hi (nat (sectorSize d)) (off + length buf))
      off buf d (WriteAt ops d buf (int off))"
    using 1(1) s fits by (intro WriteAt_wrote) (auto simp: dd_lawful_def)
  obtain d' c where d': "WriteAt ops d buf (int off) = Some (d', c, None)" "s' = (ops, v, d')"
    using 1(3) s by (auto simp: dd_write_def split: option.splits prod.splits)
  then have st: "write_step v (hull_lo (nat (sectorSize d)) off) (hull_hi (nat (sectorSize d)) (off + length buf)) d d'"
    "vol v d' = copy_at (vol v d) off buf"
    using w unfolding wrote_def by auto
  have inv: "dd_inv v d" "no_short v d" using 1(1) s by (auto simp: dd_lawful_def)
  have "dd_inv v d'" "no_short v d'"
    using write_stepD(1) [OF st(1)] no_short_write_step [OF inv st(1)] by auto
  then show ?case
    using 1(1) s d'(2) st(2) by (simp add: dd_lawful_def dd_contents_def)
next
  case (2 s off n s' buf)
  obtain ops v d where s: "s = (ops, v, d)" by (cases s)
  have fits: "int (off + length (replicate n (0 :: byte))) \<le> dsize d"
    using 2(1,2) s dd_fits [of v d "off + n"] by (simp add: dd_contents_def dd_lawful_def)
  obtain d' buf' c e where r: "ReadAt ops d (replicate n 0) (int off) = Some (d', buf', c, e)"
    "cache_step v d d'" "e = None \<longrightarrow> buf' = take n (drop off (vol v d))"
  proof -
    have L: "fiemap_law ops v" "read_law ops v" "size_law ops v" "dd_inv v d" "no_short v d"
      using 2(1) s by (auto simp: dd_lawful_def)
    show ?thesis
      using ReadAt_correct [OF L(1-4) fits refl disjI1 [OF L(5)]] that by auto
  qed
  then have "e = None" "s' = (ops, v, d')" "buf = buf'"
    using 2(3) s by (auto simp: dd_read_def split: option.splits)
  moreover have "vol v d' = vol v d" using cache_step_vol [OF r(2)] 2(1) s by (simp add: dd_lawful_def)
  moreover have "no_short v d'" "dd_inv v d'"
    using no_short_cache_step [OF r(2)] cache_stepD(5) [OF r(2)] 2(1) s by (auto simp: dd_lawful_def)
  ultimately show ?case
    using 2(1) s r(3) by (simp add: dd_lawful_def dd_contents_def)
qed

interpretation ddq: reliable_device dd_quiet dd_contents dd_write dd_read
proof (unfold_locales, goal_cases)
  case (1 s off buf s')
  then show ?case
    using dd.write_law [of s off buf s'] by (auto simp: dd_quiet_def dd_write_def split: option.splits prod.splits)
next
  case (2 s off n s' buf)
  then show ?case
    using dd.read_law [of s off n s' buf] by (auto simp: dd_quiet_def dd_read_def split: option.splits prod.splits)
next
  case (3 s off buf)
  obtain ops v d where s: "s = (ops, v, d)" by (cases s)
  have L: "fiemap_law ops v" "read_law ops v" "size_law ops v" "write_law ops v" "dd_inv v d" "quiet ops v"
    using 3(1) s by (auto simp: dd_lawful_def dd_quiet_def)
  have "int (off + length buf) \<le> dsize d"
    using 3(2) s dd_fits [OF L(5), of "off + length buf"] by (simp add: dd_contents_def)
  from WriteAt_wrote [OF L(1-5) refl this] L(6) s show ?case
    by (auto simp: wrote_def dd_write_def)
next
  case (4 s off n)
  obtain ops v d where s: "s = (ops, v, d)" by (cases s)
  have L: "fiemap_law ops v" "read_law ops v" "size_law ops v" "dd_inv v d" "no_short v d" "quiet ops v"
    using 4(1) s by (auto simp: dd_lawful_def dd_quiet_def)
  have "int (off + length (replicate n (0 :: byte))) \<le> dsize d"
    using 4(2) s dd_fits [OF L(4), of "off + n"] by (simp add: dd_contents_def)
  from ReadAt_correct [OF L(1-4) this refl disjI1 [OF L(5)]] L(6) s show ?case
    by (auto simp: dd_read_def)
qed

section \<open>Concrete disks\<close>

text \<open>A base file with data under an empty head; two-byte sectors.\<close>

definition example_disk :: "memfile diffDisk" where
  "example_disk = \<lparr>location = [0, 0, 0],
     files = [None, Some [(1, True), (2, True), (3, True), (4, True), (5, True), (6, True)],
              Some [(0, False), (0, False), (0, False), (0, False), (0, False), (0, False)]],
     sectorSize = 2, dsize = 6\<rparr>"

text \<open>The same after an expansion: the base file is shorter than the volume.\<close>

definition expanded_disk :: "memfile diffDisk" where
  "expanded_disk = \<lparr>location = [0, 0, 0],
     files = [None, Some [(1, True), (2, True)],
              Some [(0, False), (0, False), (0, False), (0, False), (0, False), (0, False)]],
     sectorSize = 2, dsize = 6\<rparr>"

lemma example_inv: "dd_inv mem_view example_disk" "no_short mem_view example_disk"
  by (simp_all add: dd_inv_def no_short_def example_disk_def mem_view_def)

lemma expanded_inv: "dd_inv mem_view expanded_disk"
  by (simp add: dd_inv_def expanded_disk_def mem_view_def)

lemma example_vol: "vol mem_view example_disk = [1, 2, 3, 4, 5, 6]"
  by code_simp

lemma expanded_vol: "vol mem_view expanded_disk = [1, 2, 0, 0, 0, 0]"
  by code_simp

lemma example_exact: "exact mem_view example_disk"
  by code_simp

lemma example_lawful: "dd_lawful (mem_ops, mem_view, example_disk)" "dd_quiet (mem_ops, mem_view, example_disk)"
  using mem_laws mem_quiet example_inv by (simp_all add: dd_lawful_def dd_quiet_def)

section \<open>Reads and writes\<close>



text \<open>
  C1 (\<open>WriteAt\<close>): a write inside the volume never panics and keeps the disk well-formed.  Without error it
  overwrites the volume at its offset and reports the whole length; with an error only the sectors
  it touches may differ and the count stays between zero and the length.  Only the head file
  changes, so no snapshot is altered, and an exact cache stays exact.
\<close>

theorem WriteAt_overwrites_volume:
  assumes "fiemap_law ops v" "read_law ops v" "size_law ops v" "write_law ops v" "dd_inv v d"
    and "int (off + length buf) \<le> dsize d"
  shows "\<exists>d' n e. WriteAt ops d buf (int off) = Some (d', n, e) \<and> dd_inv v d' \<and>
           butlast (files d') = butlast (files d) \<and> 0 \<le> n \<and> n \<le> int (length buf) \<and>
           (e = None \<longrightarrow> n = int (length buf) \<and> vol v d' = copy_at (vol v d) off buf \<and>
              (exact v d \<longrightarrow> exact v d')) \<and>
           (\<forall>k < nat (dsize d). k < hull_lo (nat (sectorSize d)) off \<or>
              hull_hi (nat (sectorSize d)) (off + length buf) \<le> k \<longrightarrow> vol v d' ! k = vol v d ! k) \<and>
           (quiet ops v \<longrightarrow> e = None)"
  using WriteAt_wrote [OF assms(1-5) refl assms(6)] unfolding wrote_def write_step_def by blast

theorem WriteAt_overwrites_volume_witness:
  "\<exists>d' n e. WriteAt mem_ops example_disk [9, 8, 7] (int 1) = Some (d', n, e) \<and> dd_inv mem_view d' \<and>
     e = None \<and> n = 3 \<and> vol mem_view d' = [1, 9, 8, 7, 5, 6] \<and> exact mem_view d'"
proof -
  have c: "copy_at [1, 2, 3, 4, 5, 6] 1 [9, 8, 7] = [1, 9, 8, 7, 5, 6 :: byte]" by (simp add: copy_at_def)
  show ?thesis
    using WriteAt_overwrites_volume [OF mem_laws example_inv(1), of 1 "[9, 8, 7]"] mem_quiet example_exact
      example_vol c by (auto simp: example_disk_def)
qed




section \<open>Layers\<close>

text \<open>
  C7: a snapshot is isolated.  After a new, empty head was put on a disk with an exact cache, the
  volume is unchanged, and whatever a write then does (success or error), a process that opens the
  chain below the head still sees the volume as it was when the snapshot was taken.
\<close>

theorem snapshot_isolated:
  assumes "fiemap_law ops v" "read_law ops v" "size_law ops v" "write_law ops v"
    and "dd_inv v d" "exact v d" "length (files d) < 256" "fresh_file v f (dsize d)"
    and "int (off + length buf) \<le> dsize d" "WriteAt ops (new_head d f) buf (int off) = Some (d', n, e)"
  shows "vol v (new_head d f) = vol v d \<and> vol v (snapshot_of d' (length (files d))) = vol v d"
proof -
  note nh = new_head_correct [OF assms(5,7,8)]
  obtain lo hi where st: "write_step v lo hi (new_head d f) d'"
    using WriteAt_wrote [OF assms(1-4) nh(1) refl, of off buf] assms(9,10) unfolding wrote_def by auto
  note s = write_stepD [OF st]
  have "files d' \<noteq> []" using s(5) by auto
  then have "vol v (snapshot_of d' (length (files d))) = vol v d"
    using s by (intro snapshot_view [OF assms(5,6)]) simp_all
  then show ?thesis using nh(2) by simp
qed

theorem snapshot_isolated_witness:
  "\<exists>d' n e. WriteAt mem_ops (new_head example_disk (replicate 6 (0, False))) [9, 9] 0 = Some (d', n, e) \<and>
     vol mem_view (snapshot_of d' 3) = [1, 2, 3, 4, 5, 6]"
proof -
  have fresh: "fresh_file mem_view (replicate 6 (0, False)) (dsize example_disk)"
    by (simp add: fresh_file_def mem_view_def example_disk_def)
  have len: "length (files example_disk) = 3" "dsize example_disk = 6" by (simp_all add: example_disk_def)
  obtain d' n e where w: "WriteAt mem_ops (new_head example_disk (replicate 6 (0, False))) [9, 9] (int 0) = Some (d', n, e)"
    using WriteAt_wrote [OF mem_laws new_head_correct(1) [OF example_inv(1) _ fresh] refl, of 0 "[9, 9]"] len
    by (auto simp: wrote_def)
  then show ?thesis
    using snapshot_isolated [OF mem_laws example_inv(1) example_exact _ fresh _ w] len example_vol by auto
qed

text \<open>
  C9: deleting a snapshot keeps the volume.  When the file of layer \<open>i\<close> has absorbed its child
  \<open>i + 1\<close> (which is not the head), dropping index \<open>i\<close> and opening the merged file in the child's
  place leaves every byte of the volume, and an exact cache stays exact.
\<close>

theorem fold_keeps_volume:
  assumes "dd_inv v d" "exact v d" "1 \<le> i" "i + 2 < length (files d)" "folded v d i m" "quiet ops v"
  shows "\<exists>d'. RemoveIndex ops d (int i) = Some (d', None) \<and>
           dd_inv v (refresh_file d' i m) \<and> exact v (refresh_file d' i m) \<and>
           vol v (refresh_file d' i m) = vol v d"
proof -
  have "RemoveIndex ops d (int i) = Some (d\<lparr>location := map (shift_location (of_nat i)) (location d),
             files := take i (files d) @ drop (i + 1) (files d)\<rparr>, None)"
    using assms by (intro RemoveIndex_ok) auto
  then show ?thesis
    using merged_inv [OF assms(1,3,4), of m] merged_correct [OF assms(1-5)] unfolding merged_def by blast
qed

text \<open>A chain of three layers whose two lowest are folded.\<close>

definition fold_disk :: "memfile diffDisk" where
  "fold_disk = \<lparr>location = [0, 2],
     files = [None, Some [(1, True), (2, True)], Some [(0, False), (7, True)], Some [(0, False), (0, False)]],
     sectorSize = 1, dsize = 2\<rparr>"

theorem fold_keeps_volume_witness:
  "\<exists>d'. RemoveIndex mem_ops fold_disk 1 = Some (d', None) \<and>
     vol mem_view (refresh_file d' 1 [(1, True), (7, True)]) = [1, 7]"
proof -
  have p: "dd_inv mem_view fold_disk" by (simp add: dd_inv_def fold_disk_def mem_view_def)
  have e: "exact mem_view fold_disk" by code_simp
  have v: "vol mem_view fold_disk = [1, 7]" by code_simp
  have f: "folded mem_view fold_disk 1 [(1, True), (7, True)]"
    by (auto simp: folded_def fold_disk_def layer_has_def sector_alloc_code mem_view_def file_byte_def
        less_Suc_eq numeral_2_eq_2)
  show ?thesis
    using fold_keeps_volume [OF p e _ _ f mem_quiet] v by (auto simp: fold_disk_def)
qed

text \<open>
  C21: \<open>Expand\<close> on top of a new head of the larger size keeps every byte and appends zeros.
\<close>

theorem expand_appends_zeros:
  assumes "dd_inv v d" "length (files d) < 256" "fresh_file v f sz"
    and "sz = sectorSize d * int n" "length (location d) \<le> n" "sz < 2 ^ 63"
    and "list_all (\<lambda>f. fsize v (the f) \<le> dsize d) (tl (files d))"
  shows "\<exists>d'. Expand (new_head d f) sz = Some d' \<and> dd_inv v d' \<and>
           vol v d' = vol v d @ replicate (nat (sz - dsize d)) 0"
  by (rule expand_correct [OF assms])

theorem expand_appends_zeros_witness:
  "\<exists>d'. Expand (new_head example_disk (replicate 8 (0, False))) 8 = Some d' \<and>
     vol mem_view d' = [1, 2, 3, 4, 5, 6, 0, 0]"
proof -
  have f: "fresh_file mem_view (replicate 8 (0, False)) 8" by (simp add: fresh_file_def mem_view_def)
  have l: "list_all (\<lambda>f. fsize mem_view (the f) \<le> dsize example_disk) (tl (files example_disk))"
    by (simp add: example_disk_def mem_view_def)
  have d: "length (files example_disk) < 256" "8 = sectorSize example_disk * int 4"
    "length (location example_disk) \<le> 4" "nat (8 - dsize example_disk) = 2"
    by (simp_all add: example_disk_def)
  have z: "replicate 2 (0 :: byte) = [0, 0]" by (simp add: numeral_2_eq_2)
  show ?thesis
    using expand_appends_zeros [OF example_inv(1) d(1) f d(2,3) _ l] example_vol d(4) z by auto
qed

section \<open>The location cache\<close>



section \<open>Unmapping\<close>

text \<open>
  C19: \<open>UnmapAt\<close> cuts a range of at least one sector to the whole sectors inside it: from the next sector
  boundary to the last one.  The 32-bit subtractions never wrap, so the guard against a length
  above the original one never fires.
\<close>

theorem unmap_range_whole_sectors:
  assumes "0 < ss" "ss \<le> uint len" "0 \<le> offset" "unmap_range ss len offset = (len', offset')"
  shows "offset' = align_up ss offset \<and> offset' + uint len' = align_down ss (offset + uint len) \<and> len' \<le> len"
  using unmap_range_correct [OF assms] by blast

theorem unmap_range_whole_sectors_witness:
  "unmap_range 4096 10000 100 = (4096, 4096) \<and> align_up 4096 100 = 4096"
proof -
  have r: "unmap_range 4096 10000 100 = (4096, 4096)" by code_simp
  show ?thesis using unmap_range_whole_sectors [OF _ _ _ r] r by simp
qed

text \<open>
  C17: \<open>UnmapAt\<close> on a well-formed disk never panics, keeps it well-formed, and leaves every byte of the
  volume outside the whole sectors of the request unchanged, also when it fails half way.
\<close>

theorem UnmapAt_stays_inside:
  assumes "unmap_law ops v" "size_law ops v" "dd_inv v d" "0 \<le> offset" "sectorSize d < 2 ^ 32"
  shows "\<exists>d' n e. UnmapAt ops actual d paths len offset = Some (d', n, e) \<and> dd_inv v d' \<and>
           (\<forall>k < nat (dsize d). int k < align_up (sectorSize d) offset \<or>
              align_down (sectorSize d) (offset + uint len) \<le> int k \<longrightarrow> vol v d' ! k = vol v d ! k)"
proof -
  have S: "0 < sectorSize d" by (rule dd_inv_ss [OF assms(3)])
  have us: "uint (of_int (sectorSize d) :: u32) = sectorSize d"
    using S assms(5) by (simp add: uint_word_of_int_eq take_bit_int_eq_self)
  obtain len' offset' where r: "unmap_range (sectorSize d) len offset = (len', offset')" by fastforce
  show ?thesis
  proof (cases "len < of_int (sectorSize d) \<or> len' = 0")
    case True
    then have "UnmapAt ops actual d paths len offset = Some (d, 0, None)"
      using S r by (auto simp: UnmapAt_def)
    then show ?thesis using assms(3) by simp
  next
    case False
    then have ge: "sectorSize d \<le> uint len" using us by (simp add: word_less_def)
    note R = unmap_range_correct [OF S ge assms(4) r]
    have o: "0 \<le> offset'" using R(1) assms(4) S by (simp add: align_up_def pos_imp_zdiv_nonneg_iff)
    let ?ps = "zip (rev [1..<length (files d)]) paths"
    have "list_all (\<lambda>(i, p). 1 \<le> i \<and> i < length (files d)) ?ps"
      by (auto simp: list_all_iff dest: set_zip_leftD)
    then obtain d' n e where u: "UnmapAt_loop ops actual len' offset' ?ps d False 0 = Some (d', n, e)"
      "unmap_step v offset' (offset' + uint len') d d'"
      using UnmapAt_loop_correct [OF assms(1,2) o assms(3)] by blast
    have "UnmapAt ops actual d paths len offset = Some (d', n, e)"
      using False r u(1) R(3) S by (auto simp: UnmapAt_def)
    moreover have "vol v d' ! k = vol v d ! k"
      if "k < nat (dsize d)" "int k < align_up (sectorSize d) offset \<or>
              align_down (sectorSize d) (offset + uint len) \<le> int k" for k
      using that R(1,2) unmap_step_vol [OF assms(3) u(2)]
      by (simp add: align_up_def align_down_def)
    ultimately show ?thesis using unmap_step_inv [OF assms(3) u(2)] by blast
  qed
qed

theorem UnmapAt_stays_inside_witness:
  "\<exists>d' n e. UnmapAt mem_ops (\<lambda>_ _. 0) example_disk [''head''] 4 1 = Some (d', n, e) \<and> vol mem_view d' ! 0 = 1"
  using UnmapAt_stays_inside [OF mem_unmap_law mem_size_law example_inv(1), of 1 "\<lambda>_ _. 0" "[''head'']" 4] example_vol
  by (fastforce simp: example_disk_def align_up_def)

end
