(* ===== verification/Backend.thy ===== *)
theory Backend
  imports BlockDevice Errors
begin

text \<open>
  The interface between the controller and its replicas (\<^verbatim>\<open>types.Backend\<close> in
  \<^verbatim>\<open>pkg/types/types.go\<close>): a record of operations over an opaque backend state, replica modes and
  replica states, and the contract of the data operations as a locale.  The file backend of
  \<^verbatim>\<open>pkg/backend/file\<close> is the provider that is part of the repository; it is modelled over the
  operations of an open file and shown to satisfy the contract.
\<close>

section \<open>Modes and states\<close>

datatype Mode = WO | RW | ERR

datatype ReplicaState =
    ReplicaStateInitial
  | ReplicaStateOpen
  | ReplicaStateClosed
  | ReplicaStateDirty
  | ReplicaStateRebuilding
  | ReplicaStateError

fun state_string :: "ReplicaState \<Rightarrow> string" where
  "state_string ReplicaStateInitial = ''initial''"
| "state_string ReplicaStateOpen = ''open''"
| "state_string ReplicaStateClosed = ''closed''"
| "state_string ReplicaStateDirty = ''dirty''"
| "state_string ReplicaStateRebuilding = ''rebuilding''"
| "state_string ReplicaStateError = ''error''"

definition MaximumTotalSnapshotCount :: int where
  "MaximumTotalSnapshotCount = 250"

lemma state_string_inj [simp]: "state_string s = state_string t \<longleftrightarrow> s = t"
  by (cases s; cases t) auto

section \<open>The interface\<close>

text \<open>
  Each operation takes the backend's state and returns the state after it with the results of the
  Go method.  A request may fail at any time, so the getters return a state as well.
\<close>

type_synonym labels = "(string \<times> string) list"

record 'b backend_ops =
  b_ReadAt :: "'b \<Rightarrow> byte list \<Rightarrow> int \<Rightarrow> 'b \<times> byte list \<times> int \<times> go_error option"
  b_WriteAt :: "'b \<Rightarrow> byte list \<Rightarrow> int \<Rightarrow> 'b \<times> int \<times> go_error option"
  b_UnmapAt :: "'b \<Rightarrow> u32 \<Rightarrow> int \<Rightarrow> 'b \<times> int \<times> go_error option"
  b_Close :: "'b \<Rightarrow> 'b \<times> go_error option"
  b_Snapshot :: "'b \<Rightarrow> string \<Rightarrow> bool \<Rightarrow> string \<Rightarrow> labels \<Rightarrow> 'b \<times> go_error option"
  b_Expand :: "'b \<Rightarrow> int \<Rightarrow> 'b \<times> go_error option"
  b_Size :: "'b \<Rightarrow> 'b \<times> int \<times> go_error option"
  b_SectorSize :: "'b \<Rightarrow> 'b \<times> int \<times> go_error option"
  b_GetRevisionCounter :: "'b \<Rightarrow> 'b \<times> int \<times> go_error option"
  b_SetRevisionCounter :: "'b \<Rightarrow> int \<Rightarrow> 'b \<times> go_error option"
  b_GetState :: "'b \<Rightarrow> 'b \<times> string \<times> go_error option"
  b_StopMonitoring :: "'b \<Rightarrow> 'b"
  b_IsRevisionCounterDisabled :: "'b \<Rightarrow> 'b \<times> bool \<times> go_error option"
  b_GetLastModifyTime :: "'b \<Rightarrow> 'b \<times> int \<times> go_error option"
  b_GetHeadFileSize :: "'b \<Rightarrow> 'b \<times> int \<times> go_error option"
  b_GetUnmapMarkSnapChainRemoved :: "'b \<Rightarrow> 'b \<times> bool \<times> go_error option"
  b_SetUnmapMarkSnapChainRemoved :: "'b \<Rightarrow> bool \<Rightarrow> 'b \<times> go_error option"
  b_ResetRebuild :: "'b \<Rightarrow> 'b \<times> go_error option"
  b_SetSnapshotMaxCount :: "'b \<Rightarrow> int \<Rightarrow> 'b \<times> go_error option"
  b_SetSnapshotMaxSize :: "'b \<Rightarrow> int \<Rightarrow> 'b \<times> go_error option"
  b_GetSnapshotCountAndSizeUsage :: "'b \<Rightarrow> 'b \<times> int \<times> int \<times> int \<times> go_error option"

text \<open>
  What the controller relies on: \<open>stored b\<close> is the volume a backend in a state \<open>good\<close> stores.  A
  write that reports no error has overwritten its range, a write that fails has changed nothing
  outside it, and a read that reports no error returns the stored bytes.
\<close>

definition same_outside :: "nat \<Rightarrow> nat \<Rightarrow> byte list \<Rightarrow> byte list \<Rightarrow> bool" where
  "same_outside lo hi xs ys \<longleftrightarrow> length xs = length ys \<and>
     (\<forall>k < length xs. k < lo \<or> hi \<le> k \<longrightarrow> xs ! k = ys ! k)"

locale backend_contract =
  fixes ops :: "'b backend_ops" and good :: "'b \<Rightarrow> bool" and stored :: "'b \<Rightarrow> byte list"
  assumes write_ok: "good b \<Longrightarrow> off + length p \<le> length (stored b) \<Longrightarrow>
      b_WriteAt ops b p (int off) = (b', n, None) \<Longrightarrow> good b' \<and> stored b' = copy_at (stored b) off p"
    and write_fail: "good b \<Longrightarrow> off + length p \<le> length (stored b) \<Longrightarrow>
      b_WriteAt ops b p (int off) = (b', n, Some e) \<Longrightarrow>
      good b' \<and> length (stored b') = length (stored b)"
    and read_ok: "good b \<Longrightarrow> off + length p \<le> length (stored b) \<Longrightarrow>
      b_ReadAt ops b p (int off) = (b', q, n, None) \<Longrightarrow> q = take (length p) (drop off (stored b)) \<and> n = int (length p)"
    and read_keeps: "good b \<Longrightarrow> off + length p \<le> length (stored b) \<Longrightarrow>
      b_ReadAt ops b p (int off) = (b', q, n, er) \<Longrightarrow>
      good b' \<and> stored b' = stored b \<and> length q = length p"
    and stop_keeps: "good b \<Longrightarrow> good (b_StopMonitoring ops b) \<and> stored (b_StopMonitoring ops b) = stored b"

section \<open>The file backend\<close>

text \<open>
  \<^verbatim>\<open>file.Wrapper\<close> embeds an \<^verbatim>\<open>*os.File\<close>.  The operations of the open file that it uses are an
  argument; \<open>os_Stat\<close> returns the size and the modification time in seconds.
\<close>

record 'h os_file =
  os_ReadAt :: "'h \<Rightarrow> byte list \<Rightarrow> int \<Rightarrow> 'h \<times> byte list \<times> int \<times> go_error option"
  os_WriteAt :: "'h \<Rightarrow> byte list \<Rightarrow> int \<Rightarrow> 'h \<times> int \<times> go_error option"
  os_Truncate :: "'h \<Rightarrow> int \<Rightarrow> 'h \<times> go_error option"
  os_Stat :: "'h \<Rightarrow> go_error + (int \<times> int)"
  os_Close :: "'h \<Rightarrow> 'h \<times> go_error option"

definition Wrapper_Size :: "'h os_file \<Rightarrow> 'h \<Rightarrow> int \<times> go_error option" where
  "Wrapper_Size os h = (case os_Stat os h of Inl e \<Rightarrow> (0, Some e) | Inr (sz, mt) \<Rightarrow> (sz, None))"

definition Wrapper_GetLastModifyTime :: "'h os_file \<Rightarrow> 'h \<Rightarrow> int \<times> go_error option" where
  "Wrapper_GetLastModifyTime os h = (case os_Stat os h of Inl e \<Rightarrow> (0, Some e) | Inr (sz, mt) \<Rightarrow> (mt, None))"

definition Wrapper_GetHeadFileSize :: "'h os_file \<Rightarrow> 'h \<Rightarrow> int \<times> go_error option" where
  "Wrapper_GetHeadFileSize os h = (case os_Stat os h of Inl e \<Rightarrow> (0, Some e) | Inr (sz, mt) \<Rightarrow> (sz, None))"

text \<open>The first deferred function: an error without a code gets one.\<close>

fun Wrapper_code :: "go_error option \<Rightarrow> go_error option" where
  "Wrapper_code None = None"
| "Wrapper_code (Some (CodeError c m rb)) = Some (CodeError c m rb)"
| "Wrapper_code (Some e) = Some (NewError ErrorCodeFunctionFailedWithoutRollback (error_string e) [])"

definition Wrapper_Expand :: "'h os_file \<Rightarrow> 'h \<Rightarrow> int \<Rightarrow> 'h \<times> go_error option" where
  "Wrapper_Expand os h sz =
     (case Wrapper_Size os h of
        (currentSize, Some e) \<Rightarrow> (h, Wrapper_code (Some e))
      | (currentSize, None) \<Rightarrow>
          if sz < currentSize then
            (h, Wrapper_code (Some (Err (''cannot truncate to a smaller size '' @ show_int sz @
                  '' for the backend type file''))))
          else if sz = currentSize then (h, None)
          else
            (case os_Truncate os h sz of
               (h1, None) \<Rightarrow> (h1, None)
             | (h1, Some e) \<Rightarrow>
                 let (h2, re) = os_Truncate os h1 currentSize
                 in (h2, Wrapper_code (WrapError (GenerateFunctionErrorWithRollback (Some e) re)
                           (''failed to expand the file to size '' @ show_int sz)))))"

definition file_backend :: "'h os_file \<Rightarrow> 'h backend_ops" where
  "file_backend os =
     \<lparr> b_ReadAt = os_ReadAt os,
       b_WriteAt = os_WriteAt os,
       b_UnmapAt = \<lambda>h len off. (h, 0, None),
       b_Close = os_Close os,
       b_Snapshot = \<lambda>h name userCreated created labels. (h, None),
       b_Expand = Wrapper_Expand os,
       b_Size = \<lambda>h. (h, Wrapper_Size os h),
       b_SectorSize = \<lambda>h. (h, 4096, None),
       b_GetRevisionCounter = \<lambda>h. (h, 1, None),
       b_SetRevisionCounter = \<lambda>h counter. (h, None),
       b_GetState = \<lambda>h. (h, ''open'', None),
       b_StopMonitoring = \<lambda>h. h,
       b_IsRevisionCounterDisabled = \<lambda>h. (h, False, None),
       b_GetLastModifyTime = \<lambda>h. (h, Wrapper_GetLastModifyTime os h),
       b_GetHeadFileSize = \<lambda>h. (h, Wrapper_GetHeadFileSize os h),
       b_GetUnmapMarkSnapChainRemoved = \<lambda>h. (h, False, None),
       b_SetUnmapMarkSnapChainRemoved = \<lambda>h enabled. (h, None),
       b_ResetRebuild = \<lambda>h. (h, None),
       b_SetSnapshotMaxCount = \<lambda>h count. (h, None),
       b_SetSnapshotMaxSize = \<lambda>h sz. (h, None),
       b_GetSnapshotCountAndSizeUsage = \<lambda>h. (h, 1, 1, 0, None) \<rparr>"

text \<open>
  A file kept in memory, which fails from a given operation on: the state is the bytes, a budget of
  successful writes, and the modification time.  A write past the budget stores nothing and reports
  that the disk is full.
\<close>

record ram_file =
  ram_bytes :: "byte list"
  ram_budget :: nat
  ram_mtime :: int

definition ram_ReadAt :: "ram_file \<Rightarrow> byte list \<Rightarrow> int \<Rightarrow> ram_file \<times> byte list \<times> int \<times> go_error option" where
  "ram_ReadAt h p off =
     (if off < 0 then (h, p, 0, Some (Err ''negative offset''))
      else let xs = take (length p) (drop (nat off) (ram_bytes h))
           in (h, copy_at p 0 xs, int (length xs), if length xs < length p then Some EOF else None))"

definition ram_WriteAt :: "ram_file \<Rightarrow> byte list \<Rightarrow> int \<Rightarrow> ram_file \<times> int \<times> go_error option" where
  "ram_WriteAt h p off =
     (if off < 0 then (h, 0, Some (Err ''negative offset''))
      else if ram_budget h = 0 then (h, 0, Some ErrNoSpaceLeftOnDevice)
      else if int (length (ram_bytes h)) < off + int (length p)
        then (h, 0, Some ErrNoSpaceLeftOnDevice)
      else (h\<lparr>ram_bytes := copy_at (ram_bytes h) (nat off) p, ram_budget := ram_budget h - 1\<rparr>,
            int (length p), None))"

definition ram_Truncate :: "ram_file \<Rightarrow> int \<Rightarrow> ram_file \<times> go_error option" where
  "ram_Truncate h sz =
     (if sz < 0 then (h, Some (Err ''invalid argument''))
      else (h\<lparr>ram_bytes := take (nat sz) (ram_bytes h) @ replicate (nat sz - length (ram_bytes h)) 0\<rparr>, None))"

definition ram_os :: "ram_file os_file" where
  "ram_os = \<lparr> os_ReadAt = ram_ReadAt, os_WriteAt = ram_WriteAt, os_Truncate = ram_Truncate,
     os_Stat = \<lambda>h. Inr (int (length (ram_bytes h)), ram_mtime h), os_Close = \<lambda>h. (h, None) \<rparr>"

interpretation ramb: backend_contract "file_backend ram_os" "\<lambda>h. True" ram_bytes
proof (unfold_locales, goal_cases)
  case (1 b off p b' n)
  then show ?case by (auto simp: file_backend_def ram_os_def ram_WriteAt_def split: if_splits)
next
  case (2 b off p b' n e)
  then show ?case by (auto simp: file_backend_def ram_os_def ram_WriteAt_def split: if_splits)
next
  case (3 b off p b' q n)
  then show ?case by (auto simp: file_backend_def ram_os_def ram_ReadAt_def copy_at_def split: if_splits)
next
  case (4 b off p b' q n e)
  then show ?case by (auto simp: file_backend_def ram_os_def ram_ReadAt_def split: if_splits)
next
  case (5 b)
  then show ?case by (simp add: file_backend_def)
qed

text \<open>
  A failed expansion of the file backend carries the code of its rollback: the replicator may keep
  the replica only if the file has its old size again.
\<close>

lemma Wrapper_Expand_code:
  assumes "Wrapper_Size os h = (cur, None)" "cur < sz" "os_Truncate os h sz = (h1, Some e)"
    "os_Truncate os h1 cur = (h2, re)"
  shows "\<exists>x. Wrapper_Expand os h sz = (h2, Some x) \<and>
     (error_code x = ErrorCodeFunctionFailedRollbackSucceeded \<longleftrightarrow> re = None)"
  using assms by (cases re) (auto simp: Wrapper_Expand_def NewError_def error_code_def)

end
