(* ===== verification/Replicator.thy ===== *)
theory Replicator
  imports Backend
begin

text \<open>
  The replicator of the controller (\<^verbatim>\<open>pkg/controller/replicator.go\<close>) with the parallel writer and
  unmapper it drives (\<^verbatim>\<open>multi_writer_at.go\<close>, \<^verbatim>\<open>multi_unmapper_at.go\<close>).

  The slices \<^verbatim>\<open>readers\<close>, \<^verbatim>\<open>writers\<close> and \<^verbatim>\<open>unmappers\<close> of the code hold pointers to the backends of
  the map; the model keeps the backends in the map and lets the slices hold their addresses.  The
  goroutines of one request work on different backends, so the requests are issued in the order
  of the slice.
\<close>

section \<open>State\<close>

text \<open>\<open>wbackend\<close> is \<^term>\<open>None\<close> for a nil backend.\<close>

record 'b backendWrapper =
  wbackend :: "'b option"
  wmode :: Mode

type_synonym 'b backend_map = "(string \<times> 'b backendWrapper) list"

record 'b replicator =
  backendsAvailable :: bool
  backends :: "'b backend_map"
  writerIndex :: "(int \<times> string) list"
  readerIndex :: "(int \<times> string) list"
  unmapperIndex :: "(int \<times> string) list"
  readers :: "string list"
  rwriter :: "string list option"
  runmapper :: "string list option"
  rnext :: int

definition new_replicator :: "'b replicator" where
  "new_replicator = \<lparr> backendsAvailable = False, backends = [], writerIndex = [], readerIndex = [],
     unmapperIndex = [], readers = [], rwriter = None, runmapper = None, rnext = 0 \<rparr>"

text \<open>The value of a \<^verbatim>\<open>map[int]string\<close> at a key: the empty string if there is none.\<close>

definition index_at :: "(int \<times> string) list \<Rightarrow> int \<Rightarrow> string" where
  "index_at m i = (case alookup m i of None \<Rightarrow> [] | Some a \<Rightarrow> a)"

text \<open>A method call on the backend an address points to, and on a list of them.\<close>

definition call_at :: "string \<Rightarrow> ('b \<Rightarrow> 'b \<times> 'r) \<Rightarrow> 'b backend_map \<Rightarrow> ('b backend_map \<times> 'r) option" where
  "call_at a f bs =
     (case alookup bs a of
        None \<Rightarrow> None
      | Some w \<Rightarrow>
          (case wbackend w of
             None \<Rightarrow> None
           | Some b \<Rightarrow> let (b', r) = f b in Some (aupdate bs a (w\<lparr>wbackend := Some b'\<rparr>), r)))"

fun run_at :: "string list \<Rightarrow> ('b \<Rightarrow> 'b \<times> 'r) \<Rightarrow> 'b backend_map \<Rightarrow> ('b backend_map \<times> 'r list) option" where
  "run_at [] f bs = Some (bs, [])"
| "run_at (a # as) f bs =
     do { (bs1, r) \<leftarrow> call_at a f bs;
          (bs2, rs) \<leftarrow> run_at as f bs1;
          Some (bs2, r # rs) }"

text \<open>A method call on every backend of the map whose mode is not \<^term>\<open>ERR\<close>.\<close>

fun each_backend :: "('b \<Rightarrow> 'b \<times> 'r) \<Rightarrow> 'b backend_map \<Rightarrow> ('b backend_map \<times> (string \<times> 'r) list) option" where
  "each_backend f [] = Some ([], [])"
| "each_backend f ((a, w) # bs) =
     (if wmode w = ERR then
        do { (bs', rs) \<leftarrow> each_backend f bs; Some ((a, w) # bs', rs) }
      else
        do { b \<leftarrow> wbackend w;
             (bs', rs) \<leftarrow> each_backend f bs;
             (let (b', r) = f b in Some ((a, w\<lparr>wbackend := Some b'\<rparr>) # bs', (a, r) # rs)) })"

section \<open>The parallel writer and unmapper\<close>

text \<open>The loop over the errors: the count of written bytes and whether one is not nil.\<close>

fun writers_result :: "go_error option list \<Rightarrow> int \<Rightarrow> int \<times> bool \<Rightarrow> int \<times> bool" where
  "writers_result [] l (n, failed) = (n, failed)"
| "writers_result (Some e # es) l (n, failed) = writers_result es l (n, True)"
| "writers_result (None # es) l (n, failed) = writers_result es l (l, failed)"

definition MultiWriterAt_WriteAt ::
  "'b backend_ops \<Rightarrow> string list \<Rightarrow> 'b backend_map \<Rightarrow> byte list \<Rightarrow> int \<Rightarrow>
     ('b backend_map \<times> int \<times> go_error option) option" where
  "MultiWriterAt_WriteAt ops writers bs p off =
     do { (bs', rs) \<leftarrow> run_at writers (\<lambda>b. b_WriteAt ops b p off) bs;
          let errs = map snd rs;
              wbs = map (\<lambda>(wn, err). if err \<noteq> None then wn else 0) rs;
              (n, failed) = writers_result errs (int (length p)) (0, False)
          in Some (bs', n, if failed then Some (MultiWriterError errs wbs) else None) }"

fun first_size :: "int \<Rightarrow> int list \<Rightarrow> int" where
  "first_size unmappedSize [] = unmappedSize"
| "first_size unmappedSize (n # ns) = first_size (if unmappedSize = 0 then n else unmappedSize) ns"

definition MultiUnmapperAt_UnmapAt ::
  "'b backend_ops \<Rightarrow> string list \<Rightarrow> 'b backend_map \<Rightarrow> u32 \<Rightarrow> int \<Rightarrow>
     ('b backend_map \<times> int \<times> go_error option) option" where
  "MultiUnmapperAt_UnmapAt ops unmappers bs len off =
     do { (bs', rs) \<leftarrow> run_at unmappers (\<lambda>b. b_UnmapAt ops b len off) bs;
          let errs = map snd rs
          in Some (bs', first_size 0 (map fst rs),
               if list_ex (\<lambda>e. e \<noteq> None) errs then Some (MultiUnmapperError errs) else None) }"

section \<open>Membership\<close>

definition reset :: "bool \<Rightarrow> 'b replicator \<Rightarrow> 'b replicator" where
  "reset full r =
     (let r1 = r\<lparr>backendsAvailable := False, rwriter := None, runmapper := None, writerIndex := [],
                readerIndex := [], unmapperIndex := []\<rparr>
      in if full then r1\<lparr>backends := []\<rparr> else r1)"

text \<open>The loop over the backends: readers, writers and unmappers with their index maps.\<close>

record indices =
  ix_readers :: "string list"
  ix_writers :: "string list"
  ix_unmappers :: "string list"
  ix_readerIndex :: "(int \<times> string) list"
  ix_writerIndex :: "(int \<times> string) list"
  ix_unmapperIndex :: "(int \<times> string) list"

fun build_loop :: "'b backend_map \<Rightarrow> indices \<Rightarrow> indices" where
  "build_loop [] ix = ix"
| "build_loop ((address, b) # bs) ix =
     (let ix1 =
        (if wmode b \<noteq> ERR then
           ix\<lparr>ix_writerIndex := aupdate (ix_writerIndex ix) (int (length (ix_writers ix))) address,
              ix_writers := ix_writers ix @ [address],
              ix_unmapperIndex := aupdate (ix_unmapperIndex ix) (int (length (ix_unmappers ix))) address,
              ix_unmappers := ix_unmappers ix @ [address]\<rparr>
         else ix);
        ix2 =
        (if wmode b = RW then
           ix1\<lparr>ix_readerIndex := aupdate (ix_readerIndex ix1) (int (length (ix_readers ix1))) address,
               ix_readers := ix_readers ix1 @ [address]\<rparr>
         else ix1)
      in build_loop bs ix2)"

definition buildReaderWriterUnmappers :: "'b replicator \<Rightarrow> 'b replicator" where
  "buildReaderWriterUnmappers r =
     (let r1 = reset False r;
          ix = build_loop (backends r1)
                 \<lparr> ix_readers = [], ix_writers = [], ix_unmappers = [], ix_readerIndex = readerIndex r1,
                   ix_writerIndex = writerIndex r1, ix_unmapperIndex = unmapperIndex r1 \<rparr>;
          r2 = r1\<lparr>readerIndex := ix_readerIndex ix, writerIndex := ix_writerIndex ix,
                  unmapperIndex := ix_unmapperIndex ix, rwriter := Some (ix_writers ix),
                  runmapper := Some (ix_unmappers ix), readers := ix_readers ix\<rparr>
      in if 0 < length (readers r2) then r2\<lparr>backendsAvailable := True\<rparr> else r2)"

definition AddBackend :: "string \<Rightarrow> 'b option \<Rightarrow> Mode \<Rightarrow> 'b replicator \<Rightarrow> 'b replicator" where
  "AddBackend address b m r =
     (if alookup (backends r) address \<noteq> None then r
      else buildReaderWriterUnmappers
             (r\<lparr>backends := aupdate (backends r) address \<lparr>wbackend = b, wmode = m\<rparr>\<rparr>))"

text \<open>The backend is stopped and closed, and its state is dropped with it.\<close>

definition RemoveBackend :: "string \<Rightarrow> 'b replicator \<Rightarrow> 'b replicator" where
  "RemoveBackend address r =
     (if alookup (backends r) address = None then r
      else buildReaderWriterUnmappers (r\<lparr>backends := adelete (backends r) address\<rparr>))"

definition SetMode :: "'b backend_ops \<Rightarrow> string \<Rightarrow> Mode \<Rightarrow> 'b replicator \<Rightarrow> 'b replicator option" where
  "SetMode ops address m r =
     (case alookup (backends r) address of
        None \<Rightarrow> Some r
      | Some w \<Rightarrow>
          (let r1 = r\<lparr>backends := aupdate (backends r) address (w\<lparr>wmode := m\<rparr>)\<rparr>
           in do { bs \<leftarrow> (if m = ERR
                          then do { (bs, u) \<leftarrow> call_at address (\<lambda>b. (b_StopMonitoring ops b, ())) (backends r1); Some bs }
                          else Some (backends r1));
                   Some (buildReaderWriterUnmappers (r1\<lparr>backends := bs\<rparr>)) }))"

section \<open>Requests\<close>

definition ErrNoBackend :: go_error where
  "ErrNoBackend = Err ''no backend available''"

text \<open>At most \<open>k\<close> more readers are tried, from position \<open>i\<close> on and around.\<close>

fun ReadAt_loop ::
  "'b backend_ops \<Rightarrow> string list \<Rightarrow> (int \<times> string) list \<Rightarrow> int \<Rightarrow> nat \<Rightarrow> int \<Rightarrow>
     'b backend_map \<Rightarrow> byte list \<Rightarrow> int \<Rightarrow> (string \<times> go_error) list \<Rightarrow>
     ('b backend_map \<times> byte list \<times> int \<times> (string \<times> go_error) list) option" where
  "ReadAt_loop ops rs idx off 0 i bs buf n errs = Some (bs, buf, n, errs)"
| "ReadAt_loop ops rs idx off (Suc k) i bs buf n errs =
     do { reader \<leftarrow> go_nth rs i;
          (bs', buf', n', err) \<leftarrow> call_at reader (\<lambda>b. b_ReadAt ops b buf off) bs;
          (case err of
             None \<Rightarrow> Some (bs', buf', n', errs)
           | Some e \<Rightarrow>
               ReadAt_loop ops rs idx off k ((i + 1) smod int (length rs)) bs' buf' n'
                 (aupdate errs (index_at idx i) e)) }"

definition ReadAt ::
  "'b backend_ops \<Rightarrow> 'b replicator \<Rightarrow> byte list \<Rightarrow> int \<Rightarrow>
     ('b replicator \<times> byte list \<times> int \<times> go_error option) option" where
  "ReadAt ops r buf off =
     (if \<not> backendsAvailable r then Some (r, buf, 0, Some ErrNoBackend)
      else
        (let readersLen = int (length (readers r))
         in if readersLen = 0 then None
            else
              (let i = (rnext r + 1) smod readersLen
               in do { (bs, buf', n, errs) \<leftarrow>
                         ReadAt_loop ops (readers r) (readerIndex r) off (nat readersLen) i (backends r) buf 0 [];
                       Some (r\<lparr>rnext := i, backends := bs\<rparr>, buf', n,
                             if errs \<noteq> [] then Some (BackendError errs []) else None) })))"

text \<open>The errors of a \<^verbatim>\<open>*MultiWriterError\<close> by the address of the writer, with the bytes it wrote.\<close>

fun attribute_errors ::
  "(int \<times> string) list \<Rightarrow> int \<Rightarrow> go_error option list \<Rightarrow> int list \<Rightarrow>
     (string \<times> go_error) list \<Rightarrow> (string \<times> int) list \<Rightarrow> (string \<times> go_error) list \<times> (string \<times> int) list" where
  "attribute_errors idx i (Some e # es) (w # ws) errors wbs =
     attribute_errors idx (i + 1) es ws (aupdate errors (index_at idx i) e) (aupdate wbs (index_at idx i) w)"
| "attribute_errors idx i (None # es) (w # ws) errors wbs = attribute_errors idx (i + 1) es ws errors wbs"
| "attribute_errors idx i es ws errors wbs = (errors, wbs)"

definition WriteAt ::
  "'b backend_ops \<Rightarrow> 'b replicator \<Rightarrow> byte list \<Rightarrow> int \<Rightarrow> ('b replicator \<times> int \<times> go_error option) option" where
  "WriteAt ops r p off =
     (if \<not> backendsAvailable r then Some (r, 0, Some ErrNoBackend)
      else
        do { writers \<leftarrow> rwriter r;
             (bs, n, err) \<leftarrow> MultiWriterAt_WriteAt ops writers (backends r) p off;
             let r' = r\<lparr>backends := bs\<rparr>
             in case err of
                  None \<Rightarrow> Some (r', n, None)
                | Some (MultiWriterError es ws) \<Rightarrow>
                    (let (errors, wbs) = attribute_errors (writerIndex r) 0 es ws [] []
                     in Some (r', n, Some (BackendError errors wbs)))
                | Some e \<Rightarrow> Some (r', n, Some (BackendError [(index_at (writerIndex r) 0, e)] [])) })"

text \<open>
  The type switch of \<^verbatim>\<open>UnmapAt\<close> looks for a \<^verbatim>\<open>*MultiWriterError\<close>, as that of \<^verbatim>\<open>WriteAt\<close> does.
\<close>

definition UnmapAt ::
  "'b backend_ops \<Rightarrow> 'b replicator \<Rightarrow> u32 \<Rightarrow> int \<Rightarrow> ('b replicator \<times> int \<times> go_error option) option" where
  "UnmapAt ops r len off =
     (if \<not> backendsAvailable r then Some (r, 0, Some ErrNoBackend)
      else
        do { unmappers \<leftarrow> runmapper r;
             (bs, n, err) \<leftarrow> MultiUnmapperAt_UnmapAt ops unmappers (backends r) len off;
             let r' = r\<lparr>backends := bs\<rparr>
             in case err of
                  None \<Rightarrow> Some (r', n, None)
                | Some (MultiWriterError es ws) \<Rightarrow>
                    Some (r', n, Some (BackendError (fst (attribute_errors (unmapperIndex r) 0 es ws [] [])) []))
                | Some e \<Rightarrow> Some (r', n, Some (BackendError [(index_at (unmapperIndex r) 0, e)] [])) })"

section \<open>Snapshots and expansion\<close>

definition failures :: "(string \<times> go_error option) list \<Rightarrow> (string \<times> go_error) list" where
  "failures rs = [(a, e). (a, Some e) \<leftarrow> rs]"

definition Snapshot ::
  "'b backend_ops \<Rightarrow> 'b replicator \<Rightarrow> string \<Rightarrow> bool \<Rightarrow> string \<Rightarrow> labels \<Rightarrow> ('b replicator \<times> go_error option) option" where
  "Snapshot ops r name userCreated created lbls =
     do { (bs, rs) \<leftarrow> each_backend (\<lambda>b. b_Snapshot ops b name userCreated created lbls) (backends r);
          Some (r\<lparr>backends := bs\<rparr>,
                if failures rs \<noteq> [] then Some (BackendError (failures rs) []) else None) }"

text \<open>An error of an expansion gets a code if it has none.\<close>

fun with_code :: "go_error \<Rightarrow> go_error" where
  "with_code (CodeError c m rb) = CodeError c m rb"
| "with_code e = NewError ErrorCodeResultUnknown (error_string e) []"

definition Expand ::
  "'b backend_ops \<Rightarrow> 'b replicator \<Rightarrow> int \<Rightarrow> ('b replicator \<times> bool \<times> go_error option \<times> go_error option) option" where
  "Expand ops r sz =
     do { (bs, rs) \<leftarrow> each_backend (\<lambda>b. b_Expand ops b sz) (backends r);
          let r' = r\<lparr>backends := bs\<rparr>;
              rwReplicaCount = length rs;
              errs = map (\<lambda>(a, e). (a, with_code e)) (failures rs);
              outOfSyncErrs = filter (\<lambda>(a, e). error_code e \<noteq> ErrorCodeFunctionFailedRollbackSucceeded) errs
          in Some (
            if errs \<noteq> [] then
              (if length errs < rwReplicaCount
               then (r', True, Some (BackendError errs []), Some (BackendError errs []))
               else if outOfSyncErrs \<noteq> []
               then (r', False, Some (BackendError outOfSyncErrs []), Some (BackendError errs []))
               else (r', False, None, Some (BackendError errs [])))
            else (r', True, None, None)) }"

definition Close :: "'b backend_ops \<Rightarrow> 'b replicator \<Rightarrow> ('b replicator \<times> go_error option) option" where
  "Close ops r =
     do { (bs, rs) \<leftarrow> each_backend (\<lambda>b. b_Close ops (b_StopMonitoring ops b)) (backends r);
          Some (reset True (r\<lparr>backends := bs\<rparr>),
                if failures rs = [] then None else Some (snd (last (failures rs)))) }"

section \<open>Queries and settings\<close>

text \<open>The maxima over the backends that answer; each backend that fails is skipped.\<close>

fun usage_loop :: "(string \<times> int \<times> int \<times> int \<times> go_error option) list \<Rightarrow> bool \<times> int \<times> int \<times> int \<Rightarrow> bool \<times> int \<times> int \<times> int" where
  "usage_loop [] acc = acc"
| "usage_loop ((a, cu, ct, sz, Some e) # rs) acc = usage_loop rs acc"
| "usage_loop ((a, cu, ct, sz, None) # rs) (hasResult, countUsage, countTotal, sizeUsage) =
     usage_loop rs (True, if countUsage < cu then cu else countUsage,
       if countTotal < ct then ct else countTotal, if sizeUsage < sz then sz else sizeUsage)"

definition GetSnapshotCountAndSizeUsage ::
  "'b backend_ops \<Rightarrow> 'b replicator \<Rightarrow> ('b replicator \<times> int \<times> int \<times> int \<times> go_error option) option" where
  "GetSnapshotCountAndSizeUsage ops r =
     do { (bs, rs) \<leftarrow> each_backend (b_GetSnapshotCountAndSizeUsage ops) (backends r);
          let (hasResult, countUsage, countTotal, sizeUsage) = usage_loop rs (False, 0, 0, 0);
              r' = r\<lparr>backends := bs\<rparr>
          in Some (if \<not> hasResult
                   then (r', 0, 0, 0, Some (Err ''cannot get an valid result for snapshot usage''))
                   else (r', countUsage, countTotal, sizeUsage, None)) }"

fun head_size_loop :: "(string \<times> int \<times> go_error option) list \<Rightarrow> bool \<times> int \<Rightarrow> bool \<times> int" where
  "head_size_loop [] acc = acc"
| "head_size_loop ((a, sz, Some e) # rs) acc = head_size_loop rs acc"
| "head_size_loop ((a, sz, None) # rs) (hasResult, sizeUsage) =
     head_size_loop rs (True, if sizeUsage < sz then sz else sizeUsage)"

definition GetHeadFileSize ::
  "'b backend_ops \<Rightarrow> 'b replicator \<Rightarrow> ('b replicator \<times> int \<times> go_error option) option" where
  "GetHeadFileSize ops r =
     do { (bs, rs) \<leftarrow> each_backend (b_GetHeadFileSize ops) (backends r);
          let (hasResult, sizeUsage) = head_size_loop rs (False, 0);
              r' = r\<lparr>backends := bs\<rparr>
          in Some (if \<not> hasResult
                   then (r', 0, Some (Err ''cannot get valid result for head file size''))
                   else (r', sizeUsage, None)) }"

definition cannot_find :: "string \<Rightarrow> go_error" where
  "cannot_find address = Err (''cannot find backend '' @ address)"

text \<open>A setter on one backend: an unknown address is an error, a nil backend panics.\<close>

definition set_on ::
  "string \<Rightarrow> ('b \<Rightarrow> 'b \<times> go_error option) \<Rightarrow> 'b replicator \<Rightarrow> ('b replicator \<times> go_error option) option" where
  "set_on address f r =
     (if alookup (backends r) address = None then Some (r, Some (cannot_find address))
      else do { (bs, err) \<leftarrow> call_at address f (backends r); Some (r\<lparr>backends := bs\<rparr>, err) })"

definition SetRevisionCounter ::
  "'b backend_ops \<Rightarrow> string \<Rightarrow> int \<Rightarrow> 'b replicator \<Rightarrow> ('b replicator \<times> go_error option) option" where
  "SetRevisionCounter ops address counter = set_on address (\<lambda>b. b_SetRevisionCounter ops b counter)"

definition GetRevisionCounter ::
  "'b backend_ops \<Rightarrow> string \<Rightarrow> 'b replicator \<Rightarrow> ('b replicator \<times> int \<times> go_error option) option" where
  "GetRevisionCounter ops address r =
     (if alookup (backends r) address = None then Some (r, - 1, Some (cannot_find address))
      else do { (bs, counter, err) \<leftarrow> call_at address (b_GetRevisionCounter ops) (backends r);
                Some (r\<lparr>backends := bs\<rparr>, if err = None then counter else 0, err) })"

definition SetUnmapMarkSnapChainRemoved ::
  "'b backend_ops \<Rightarrow> string \<Rightarrow> bool \<Rightarrow> 'b replicator \<Rightarrow> ('b replicator \<times> go_error option) option" where
  "SetUnmapMarkSnapChainRemoved ops address enabled =
     set_on address (\<lambda>b. b_SetUnmapMarkSnapChainRemoved ops b enabled)"

definition GetUnmapMarkSnapChainRemoved ::
  "'b backend_ops \<Rightarrow> string \<Rightarrow> 'b replicator \<Rightarrow> ('b replicator \<times> bool \<times> go_error option) option" where
  "GetUnmapMarkSnapChainRemoved ops address r =
     (if alookup (backends r) address = None then Some (r, False, Some (cannot_find address))
      else do { (bs, enabled, err) \<leftarrow> call_at address (b_GetUnmapMarkSnapChainRemoved ops) (backends r);
                Some (r\<lparr>backends := bs\<rparr>, if err = None then enabled else False, err) })"

definition SetSnapshotMaxCount ::
  "'b backend_ops \<Rightarrow> string \<Rightarrow> int \<Rightarrow> 'b replicator \<Rightarrow> ('b replicator \<times> go_error option) option" where
  "SetSnapshotMaxCount ops address count = set_on address (\<lambda>b. b_SetSnapshotMaxCount ops b count)"

definition SetSnapshotMaxSize ::
  "'b backend_ops \<Rightarrow> string \<Rightarrow> int \<Rightarrow> 'b replicator \<Rightarrow> ('b replicator \<times> go_error option) option" where
  "SetSnapshotMaxSize ops address sz = set_on address (\<lambda>b. b_SetSnapshotMaxSize ops b sz)"

end
