(* ===== verification/Controller.thy ===== *)
theory Controller
  imports Replicator
begin

text \<open>
  The engine controller (\<^verbatim>\<open>pkg/controller/control.go\<close>): membership and modes of the replicas, the
  I/O path with its error handling, snapshots, expansion, start-up and shutdown.  Operations take
  the interfaces they call (backends, factory, frontend) and the values the code draws from its
  environment (fresh names, the current time, latencies) as arguments.  Each definition is one
  critical section of the code; an operation that releases its lock in between is given in parts.
\<close>

section \<open>State\<close>

record Replica =
  Address :: string
  RMode :: Mode

record RWMetrics =
  m_Read :: u64
  m_Write :: u64

record Metrics =
  Throughput :: RWMetrics
  TotalLatency :: RWMetrics
  IOPS :: RWMetrics

definition no_metrics :: Metrics where
  "no_metrics = \<lparr> Throughput = \<lparr>m_Read = 0, m_Write = 0\<rparr>, TotalLatency = \<lparr>m_Read = 0, m_Write = 0\<rparr>,
     IOPS = \<lparr>m_Read = 0, m_Write = 0\<rparr> \<rparr>"

record ('b, 'fe) controller =
  VolumeName :: string
  csize :: int
  csectorSize :: int
  creplicas :: "Replica list"
  cbackend :: "'b replicator"
  cfrontend :: "'fe option"
  isUpgrade :: bool
  isExpanding :: bool
  revisionCounterDisabled :: bool
  salvageRequested :: bool
  unmapMarkSnapChainRemoved :: bool
  snapshotMaxCount :: int
  SnapshotMaxSize :: int
  latestMetrics :: Metrics
  cmetrics :: Metrics
  metricsStopped :: bool
  lastExpansionFailedAt :: string
  lastExpansionError :: string

datatype FrontendState = StateUp | StateDown

record 'fe frontend_ops =
  fe_FrontendName :: "'fe \<Rightarrow> string"
  fe_State :: "'fe \<Rightarrow> FrontendState"
  fe_Init :: "'fe \<Rightarrow> string \<Rightarrow> int \<Rightarrow> int \<Rightarrow> 'fe \<times> go_error option"
  fe_Startup :: "'fe \<Rightarrow> 'fe \<times> go_error option"
  fe_Shutdown :: "'fe \<Rightarrow> 'fe \<times> go_error option"
  fe_Upgrade :: "'fe \<Rightarrow> string \<Rightarrow> int \<Rightarrow> int \<Rightarrow> 'fe \<times> go_error option"
  fe_Expand :: "'fe \<Rightarrow> int \<Rightarrow> 'fe \<times> go_error option"
  fe_Endpoint :: "'fe \<Rightarrow> string"

text \<open>\<^verbatim>\<open>BackendFactory.Create\<close>: the address, whether this is an upgrade, and the expected size.\<close>

type_synonym 'b factory = "string \<Rightarrow> bool \<Rightarrow> int \<Rightarrow> go_error + 'b"

definition VolumeSectorSize :: int where
  "VolumeSectorSize = 4096"

definition c_reset :: "('b, 'fe) controller \<Rightarrow> ('b, 'fe) controller" where
  "c_reset c = c\<lparr>creplicas := [], cbackend := new_replicator\<rparr>"

definition NewController ::
  "string \<Rightarrow> 'fe option \<Rightarrow> bool \<Rightarrow> bool \<Rightarrow> bool \<Rightarrow> bool \<Rightarrow> int \<Rightarrow> int \<Rightarrow> ('b, 'fe) controller" where
  "NewController name frontend upgrade disableRevCounter salvage unmapMark maxCount maxSize =
     c_reset \<lparr> VolumeName = name, csize = 0, csectorSize = 0, creplicas = [], cbackend = new_replicator,
       cfrontend = frontend, isUpgrade = upgrade, isExpanding = False,
       revisionCounterDisabled = disableRevCounter, salvageRequested = salvage,
       unmapMarkSnapChainRemoved = unmapMark, snapshotMaxCount = maxCount, SnapshotMaxSize = maxSize,
       latestMetrics = no_metrics, cmetrics = no_metrics, metricsStopped = False,
       lastExpansionFailedAt = [], lastExpansionError = [] \<rparr>"

section \<open>Membership\<close>

definition hasWOReplica :: "('b, 'fe) controller \<Rightarrow> bool" where
  "hasWOReplica c = list_ex (\<lambda>i. RMode i = WO) (creplicas c)"

definition hasReplica :: "('b, 'fe) controller \<Rightarrow> string \<Rightarrow> bool" where
  "hasReplica c address = list_ex (\<lambda>i. Address i = address) (creplicas c)"

definition canAdd :: "('b, 'fe) controller \<Rightarrow> string \<Rightarrow> bool \<times> go_error option" where
  "canAdd c address =
     (if hasReplica c address then (False, None)
      else if hasWOReplica c then (False, Some (Err ''can only have one WO replica at a time''))
      else if isExpanding c then (False, Some (Err ''cannot add WO replica during expansion''))
      else (True, None))"

definition canDoSnapshot ::
  "'b backend_ops \<Rightarrow> ('b, 'fe) controller \<Rightarrow> (('b, 'fe) controller \<times> go_error option) option" where
  "canDoSnapshot ops c =
     do { (r1, countUsage, countTotal, sizeUsage, err) \<leftarrow> GetSnapshotCountAndSizeUsage ops (cbackend c);
          let c1 = c\<lparr>cbackend := r1\<rparr>
          in if err \<noteq> None then Some (c1, err)
             else if snapshotMaxCount c \<le> countUsage then
               Some (c1, Some (Err (''snapshot count usage '' @ show_int countUsage @
                 '' is equal or larger than snapshotMaxCount '' @ show_int (snapshotMaxCount c))))
             else if MaximumTotalSnapshotCount \<le> countTotal then
               Some (c1, Some (Err (''snapshot count total is already too big: '' @ show_int countTotal)))
             else if SnapshotMaxSize c = 0 then Some (c1, None)
             else
               do { (r2, headFileSize, err2) \<leftarrow> GetHeadFileSize ops r1;
                    let c2 = c\<lparr>cbackend := r2\<rparr>;
                        remainSize = SnapshotMaxSize c - sizeUsage
                    in if err2 \<noteq> None then Some (c2, err2)
                       else if remainSize < headFileSize then
                         Some (c2, Some (Err (''snapshot free space '' @ show_int remainSize @
                           '' is not enough for head file '' @ show_int headFileSize)))
                       else Some (c2, None) } }"

text \<open>\<open>nb\<close> is the new backend, \<^term>\<open>None\<close> for nil.  A backend that is not added is closed.\<close>

definition addReplicaNoLock ::
  "'b backend_ops \<Rightarrow> 'b option \<Rightarrow> string \<Rightarrow> bool \<Rightarrow> Mode \<Rightarrow> string \<Rightarrow> string \<Rightarrow> ('b, 'fe) controller \<Rightarrow>
     (('b, 'fe) controller \<times> go_error option) option" where
  "addReplicaNoLock ops nb address snapshot m uuid created c =
     (let (ok, err) = canAdd c address;
          add = (\<lambda>c1 nb1. (c1\<lparr>creplicas := creplicas c1 @ [\<lparr>Address = address, RMode = m\<rparr>],
                              cbackend := AddBackend address nb1 m (cbackend c1)\<rparr>, None))
      in if \<not> ok then Some (c, err)
         else if snapshot \<and> m \<noteq> ERR then
           do { (c1, e1) \<leftarrow> (if backends (cbackend c) \<noteq> [] then canDoSnapshot ops c else Some (c, None));
                (if e1 \<noteq> None then Some (c1, e1)
                 else
                   do { (r2, e2) \<leftarrow> Snapshot ops (cbackend c1) uuid False created [];
                        let c2 = c1\<lparr>cbackend := r2\<rparr>
                        in if e2 \<noteq> None then Some (c2, e2)
                           else
                             do { b \<leftarrow> nb;
                                  let (b', e3) = b_Snapshot ops b uuid False created []
                                  in if e3 \<noteq> None then Some (c2, e3) else Some (add c2 (Some b')) } }) }
         else Some (add c nb))"

definition addReplica ::
  "'b backend_ops \<Rightarrow> 'b factory \<Rightarrow> string \<Rightarrow> bool \<Rightarrow> Mode \<Rightarrow> string \<Rightarrow> string \<Rightarrow> ('b, 'fe) controller \<Rightarrow>
     (('b, 'fe) controller \<times> go_error option) option" where
  "addReplica ops create address snapshotRequired m uuid created c =
     (let (ok, err) = canAdd c address
      in if \<not> ok then Some (c, err)
         else
           (case create address (isUpgrade c) (csize c) of
              Inl e \<Rightarrow> Some (c, Some e)
            | Inr b \<Rightarrow>
                (case b_Size ops b of
                   (b1, replicaSize, Some e) \<Rightarrow>
                     Some (c, Some (Wrapped ''failed to get the size before adding a replica'' e))
                 | (b1, replicaSize, None) \<Rightarrow>
                     addReplicaNoLock ops (Some b1) address snapshotRequired m uuid created
                       (if csize c = 0 \<and> creplicas c = [] then c\<lparr>csize := replicaSize\<rparr> else c))))"

definition RemoveReplica ::
  "'fe frontend_ops \<Rightarrow> string \<Rightarrow> ('b, 'fe) controller \<Rightarrow> ('b, 'fe) controller \<times> go_error option" where
  "RemoveReplica fe address c =
     (if \<not> hasReplica c address then (c, None)
      else if length (creplicas c) = 1 \<and>
              (case cfrontend c of None \<Rightarrow> False | Some f \<Rightarrow> fe_State fe f = StateUp)
      then (c, Some (Err ''cannot remove last replica if volume is up''))
      else (c\<lparr>creplicas := (let i = length (takeWhile (\<lambda>r. Address r \<noteq> address) (creplicas c))
                             in take i (creplicas c) @ drop (i + 1) (creplicas c)),
              cbackend := RemoveBackend address (cbackend c)\<rparr>, None))"

text \<open>The loop of \<^verbatim>\<open>setReplicaModeNoLock\<close> over the replicas.\<close>

fun set_mode_loop ::
  "'b backend_ops \<Rightarrow> string \<Rightarrow> Mode \<Rightarrow> Replica list \<Rightarrow> 'b replicator \<Rightarrow> (Replica list \<times> 'b replicator) option" where
  "set_mode_loop ops address m [] r = Some ([], r)"
| "set_mode_loop ops address m (i # is) r =
     (if Address i = address \<and> RMode i \<noteq> ERR then
        do { r1 \<leftarrow> SetMode ops address m r;
             (is', r2) \<leftarrow> set_mode_loop ops address m is r1;
             Some (i\<lparr>RMode := m\<rparr> # is', r2) }
      else
        do { (is', r2) \<leftarrow> set_mode_loop ops address m is r; Some (i # is', r2) })"

definition setReplicaModeNoLock ::
  "'b backend_ops \<Rightarrow> string \<Rightarrow> Mode \<Rightarrow> ('b, 'fe) controller \<Rightarrow> ('b, 'fe) controller option" where
  "setReplicaModeNoLock ops address m c =
     do { (rs, r) \<leftarrow> set_mode_loop ops address m (creplicas c) (cbackend c);
          Some (c\<lparr>creplicas := rs, cbackend := r\<rparr>) }"

fun set_modes :: "'b backend_ops \<Rightarrow> string list \<Rightarrow> Mode \<Rightarrow> ('b, 'fe) controller \<Rightarrow> ('b, 'fe) controller option" where
  "set_modes ops [] m c = Some c"
| "set_modes ops (a # as) m c = do { c1 \<leftarrow> setReplicaModeNoLock ops a m c; set_modes ops as m c1 }"

definition SetReplicaMode ::
  "'b backend_ops \<Rightarrow> string \<Rightarrow> Mode \<Rightarrow> ('b, 'fe) controller \<Rightarrow> (('b, 'fe) controller \<times> go_error option) option" where
  "SetReplicaMode ops address m c =
     (if m = ERR \<or> m = RW then do { c1 \<leftarrow> setReplicaModeNoLock ops address m c; Some (c1, None) }
      else Some (c, Some (Err ''cannot set to mode WO'')))"

section \<open>Handling backend errors\<close>

text \<open>
  The regular expression \<^verbatim>\<open>snapshot (.*) is already existing\<close>: the first part, then on the same line
  the second.
\<close>

fun snapshot_exist_text :: "string \<Rightarrow> bool" where
  "snapshot_exist_text [] = False"
| "snapshot_exist_text (x # s) =
     (HasPrefix (x # s) ''snapshot '' \<and>
        Contains (takeWhile (\<lambda>ch. ch \<noteq> CHR 0x0A) (drop 9 (x # s))) '' is already existing'' \<or>
      snapshot_exist_text s)"

definition isSnapshotDiskExist :: "go_error \<Rightarrow> bool" where
  "isSnapshotDiskExist err = snapshot_exist_text (error_string err)"

fun categorize_loop ::
  "(string \<times> int) list \<Rightarrow> Replica list \<Rightarrow> nat \<times> (string \<times> int) list \<times> string list \<Rightarrow>
     nat \<times> (string \<times> int) list \<times> string list" where
  "categorize_loop m [] acc = acc"
| "categorize_loop m (r # rs) (n, rwm, wol) =
     categorize_loop m rs
       (case RMode r of
          RW \<Rightarrow> (n + 1, case alookup m (Address r) of Some wbn \<Rightarrow> aupdate rwm (Address r) wbn | None \<Rightarrow> rwm, wol)
        | WO \<Rightarrow> (n, rwm, case alookup m (Address r) of Some _ \<Rightarrow> wol @ [Address r] | None \<Rightarrow> wol)
        | ERR \<Rightarrow> (n, rwm, wol))"

definition categorizeOutOfSpaceReplicas ::
  "(string \<times> int) list \<Rightarrow> ('b, 'fe) controller \<Rightarrow> nat \<times> (string \<times> int) list \<times> string list" where
  "categorizeOutOfSpaceReplicas m c = categorize_loop m (creplicas c) (0, [], [])"

text \<open>The replicas by the number of bytes they wrote.\<close>

fun group_loop :: "(string \<times> int) list \<Rightarrow> (int \<times> string list) list \<Rightarrow> (int \<times> string list) list" where
  "group_loop [] g = g"
| "group_loop ((address, wb) # m) g =
     group_loop m (aupdate g wb (case alookup g wb of None \<Rightarrow> [address] | Some as \<Rightarrow> List.insert address as))"

fun max_group_loop :: "(int \<times> string list) list \<Rightarrow> nat \<times> int list \<Rightarrow> nat \<times> int list" where
  "max_group_loop [] acc = acc"
| "max_group_loop ((wb, addresses) # g) (maxNum, wbs) =
     max_group_loop g
       (if maxNum < length addresses then (length addresses, [wb])
        else if length addresses = maxNum then (maxNum, wbs @ [wb])
        else (maxNum, wbs))"

fun max_loop :: "int \<Rightarrow> int list \<Rightarrow> int" where
  "max_loop m [] = m"
| "max_loop m (wb # wbs) = max_loop (if m < wb then wb else m) wbs"

definition getRetainedReplicasMap :: "(string \<times> int) list \<Rightarrow> string list" where
  "getRetainedReplicasMap m =
     (let g = group_loop m [];
          (maxReplicasNum, wbs) = max_group_loop g (0, []);
          maxWrittenBytes = max_loop (- 1) wbs
      in case alookup g maxWrittenBytes of None \<Rightarrow> [] | Some as \<Rightarrow> as)"

definition listReplicasToErrOnEnospc :: "(string \<times> int) list \<Rightarrow> string list" where
  "listReplicasToErrOnEnospc m =
     (let retained = getRetainedReplicasMap m
      in filter (\<lambda>a. a \<notin> set retained) (map fst m))"

definition handleDiskNoSpaceErrorForReplicas ::
  "'b backend_ops \<Rightarrow> (string \<times> int) list \<Rightarrow> ('b, 'fe) controller \<Rightarrow> (('b, 'fe) controller \<times> bool) option" where
  "handleDiskNoSpaceErrorForReplicas ops m c =
     (if m = [] then Some (c, False)
      else
        (let (rwReplicaCount, rwm, wol) = categorizeOutOfSpaceReplicas m c
         in do { c1 \<leftarrow> set_modes ops wol ERR c;
                 (if length rwm = rwReplicaCount then
                    (if rwReplicaCount \<noteq> 1
                     then do { c2 \<leftarrow> set_modes ops (listReplicasToErrOnEnospc rwm) ERR c1; Some (c2, True) }
                     else Some (c1, True))
                  else do { c2 \<leftarrow> set_modes ops (map fst rwm) ERR c1; Some (c2, False) }) }))"

text \<open>The loop over the errors: the snapshot-exists list, the out-of-space map, and the rest set to \<^term>\<open>ERR\<close>.\<close>

fun classify_loop ::
  "'b backend_ops \<Rightarrow> (string \<times> int) list \<Rightarrow> (string \<times> go_error) list \<Rightarrow>
     ('b, 'fe) controller \<times> string list \<times> (string \<times> int) list \<Rightarrow>
     (('b, 'fe) controller \<times> string list \<times> (string \<times> int) list) option" where
  "classify_loop ops wbs [] acc = Some acc"
| "classify_loop ops wbs ((address, e) # es) (c, exist, nospace) =
     (if isSnapshotDiskExist e then
        classify_loop ops wbs es (c, List.insert address exist, nospace)
      else if Contains (error_string e) ErrorStringNoSpaceLeftOnDevice then
        classify_loop ops wbs es
          (c, exist, aupdate nospace address (case alookup wbs address of Some n \<Rightarrow> n | None \<Rightarrow> 0))
      else
        do { c1 \<leftarrow> setReplicaModeNoLock ops address ERR c;
             classify_loop ops wbs es (c1, exist, nospace) })"

fun handleErrorNoLock ::
  "'b backend_ops \<Rightarrow> go_error option \<Rightarrow> ('b, 'fe) controller \<Rightarrow> (('b, 'fe) controller \<times> go_error option) option" where
  "handleErrorNoLock ops (Some (BackendError es wbs)) c =
     (if es = [] then Some (c, Some (BackendError es wbs))
      else
        do { (c1, exist, nospace) \<leftarrow> classify_loop ops wbs es (c, [], []);
             (c2, full) \<leftarrow> handleDiskNoSpaceErrorForReplicas ops nospace c1;
             (if full then Some (c2, Some ErrNoSpaceLeftOnDevice)
              else if exist = [] \<and> list_ex (\<lambda>r. RMode r = RW) (creplicas c2) then Some (c2, None)
              else Some (c2, Some (BackendError es wbs))) })"
| "handleErrorNoLock ops err c = Some (c, err)"

section \<open>I/O\<close>

text \<open>The range check of a request; the sum is that of \<^verbatim>\<open>int64\<close>.\<close>

definition beyond :: "int \<Rightarrow> int \<Rightarrow> ('b, 'fe) controller \<Rightarrow> bool" where
  "beyond off l c \<longleftrightarrow> off < 0 \<or> csize c < i64 (off + l)"

definition beyond_error :: "string \<Rightarrow> int \<Rightarrow> int \<Rightarrow> int \<Rightarrow> go_error" where
  "beyond_error what l off sz =
     Err (''EOF: '' @ what @ '' of '' @ show_int l @ '' bytes at offset '' @ show_int off @
          '' is beyond volume size '' @ show_int sz)"

definition recordMetrics :: "bool \<Rightarrow> int \<Rightarrow> u64 \<Rightarrow> ('b, 'fe) controller \<Rightarrow> ('b, 'fe) controller" where
  "recordMetrics isRead dataLength latency c =
     (let m = cmetrics c in
      if isRead then
        c\<lparr>cmetrics := m\<lparr>Throughput := (Throughput m)\<lparr>m_Read := m_Read (Throughput m) + word_of_int dataLength\<rparr>,
             TotalLatency := (TotalLatency m)\<lparr>m_Read := m_Read (TotalLatency m) + latency\<rparr>,
             IOPS := (IOPS m)\<lparr>m_Read := m_Read (IOPS m) + 1\<rparr>\<rparr>\<rparr>
      else
        c\<lparr>cmetrics := m\<lparr>Throughput := (Throughput m)\<lparr>m_Write := m_Write (Throughput m) + word_of_int dataLength\<rparr>,
             TotalLatency := (TotalLatency m)\<lparr>m_Write := m_Write (TotalLatency m) + latency\<rparr>,
             IOPS := (IOPS m)\<lparr>m_Write := m_Write (IOPS m) + 1\<rparr>\<rparr>\<rparr>)"

definition writeInNormalMode ::
  "'b backend_ops \<Rightarrow> byte list \<Rightarrow> int \<Rightarrow> ('b, 'fe) controller \<Rightarrow> (('b, 'fe) controller \<times> int \<times> go_error option) option" where
  "writeInNormalMode ops b off c =
     do { (r, n, err) \<leftarrow> Replicator.WriteAt ops (cbackend c) b off; Some (c\<lparr>cbackend := r\<rparr>, n, err) }"

definition writeInWOMode ::
  "'b backend_ops \<Rightarrow> byte list \<Rightarrow> int \<Rightarrow> ('b, 'fe) controller \<Rightarrow> (('b, 'fe) controller \<times> int \<times> go_error option) option" where
  "writeInWOMode ops b off c =
     (let bufLen = int (length b)
      in if bufLen = 0 \<or> off smod VolumeSectorSize = 0 \<and> bufLen smod VolumeSectorSize = 0 then
           do { (r, n, err) \<leftarrow> Replicator.WriteAt ops (cbackend c) b off; Some (c\<lparr>cbackend := r\<rparr>, n, err) }
         else
           (let readOffsetStart = (off sdiv VolumeSectorSize) * VolumeSectorSize;
                readOffsetEnd =
                  (if (off + bufLen) smod VolumeSectorSize = 0 then off + bufLen
                   else ((off + bufLen) sdiv VolumeSectorSize + 1) * VolumeSectorSize)
            in if readOffsetEnd < readOffsetStart then None
               else
                 do { (r1, readBuf, n1, err1) \<leftarrow>
                        Replicator.ReadAt ops (cbackend c)
                          (replicate (nat (readOffsetEnd - readOffsetStart)) 0) readOffsetStart;
                      let c1 = c\<lparr>cbackend := r1\<rparr>
                      in case err1 of
                           Some e \<Rightarrow>
                             Some (c1, 0, Some (Wrapped ''failed to retrieve aligned sectors from RW replicas'' e))
                         | None \<Rightarrow>
                             (let startCut = off smod VolumeSectorSize
                              in do { _ \<leftarrow> go_slice readBuf startCut (startCut + bufLen);
                                      (r2, n, err) \<leftarrow>
                                        Replicator.WriteAt ops r1 (copy_at readBuf (nat startCut) b) readOffsetStart;
                                      let c2 = c1\<lparr>cbackend := r2\<rparr>
                                      in case err of
                                           Some e \<Rightarrow>
                                             if n < startCut then Some (c2, 0, Some e)
                                             else if n - startCut < bufLen then Some (c2, n - startCut, Some e)
                                             else Some (c2, bufLen, Some e)
                                         | None \<Rightarrow> Some (c2, bufLen, None) }) }))"

definition WriteAt ::
  "'b backend_ops \<Rightarrow> u64 \<Rightarrow> byte list \<Rightarrow> int \<Rightarrow> ('b, 'fe) controller \<Rightarrow>
     (('b, 'fe) controller \<times> int \<times> go_error option) option" where
  "WriteAt ops latency b off c =
     (let l = int (length b)
      in if beyond off l c then Some (c, 0, Some (beyond_error ''Write'' l off (csize c)))
         else
           do { (c1, n, err) \<leftarrow> (if hasWOReplica c then writeInWOMode ops b off c else writeInNormalMode ops b off c);
                (if err \<noteq> None
                 then do { (c2, err2) \<leftarrow> handleErrorNoLock ops err c1; Some (c2, n, err2) }
                 else Some (recordMetrics False l latency c1, n, err)) })"

definition ReadAt ::
  "'b backend_ops \<Rightarrow> u64 \<Rightarrow> byte list \<Rightarrow> int \<Rightarrow> ('b, 'fe) controller \<Rightarrow>
     (('b, 'fe) controller \<times> byte list \<times> int \<times> go_error option) option" where
  "ReadAt ops latency b off c =
     (let l = int (length b)
      in if beyond off l c then Some (c, b, 0, Some (beyond_error ''Read'' l off (csize c)))
         else
           do { (r, b', n, err) \<leftarrow> Replicator.ReadAt ops (cbackend c) b off;
                let c1 = c\<lparr>cbackend := r\<rparr>
                in if err \<noteq> None
                   then do { (c2, err2) \<leftarrow> handleErrorNoLock ops err c1; Some (c2, b', n, err2) }
                   else Some (recordMetrics True l latency c1, b', n, err) })"

definition UnmapAt ::
  "'b backend_ops \<Rightarrow> u32 \<Rightarrow> int \<Rightarrow> ('b, 'fe) controller \<Rightarrow> (('b, 'fe) controller \<times> int \<times> go_error option) option" where
  "UnmapAt ops len off c =
     (if beyond off (uint len) c then Some (c, 0, Some (beyond_error ''unmap'' (uint len) off (csize c)))
      else if hasWOReplica c then Some (c, 0, None)
      else if isExpanding c then
        Some (c, 0, Some (Err (''cannot unmap '' @ show_int (uint len) @ '' bytes at offset '' @ show_int off @
          '' while expansion in is progress'')))
      else
        do { (r, n, err) \<leftarrow> Replicator.UnmapAt ops (cbackend c) len off;
             let c1 = c\<lparr>cbackend := r\<rparr>
             in if err \<noteq> None
                then do { (c2, err2) \<leftarrow> handleErrorNoLock ops err c1; Some (c2, n, err2) }
                else Some (c1, n, None) })"

end
