(* ===== verification/ControllerLife.thy ===== *)
theory ControllerLife
  imports Controller
begin

text \<open>
  The controller's life cycle (\<^verbatim>\<open>pkg/controller/control.go\<close>): start-up with the checks that decide
  which replicas are kept, the frontend, snapshots, expansion, settings and shutdown.
\<close>

section \<open>Snapshots\<close>

text \<open>
  The check is made twice, before and after the system sync; the sync only logs.  \<open>uuid\<close> is the name
  drawn if the caller gives none.
\<close>

definition Snapshot ::
  "'b backend_ops \<Rightarrow> string \<Rightarrow> string \<Rightarrow> string \<Rightarrow> labels \<Rightarrow> ('b, 'fe) controller \<Rightarrow>
     (('b, 'fe) controller \<times> string \<times> go_error option) option" where
  "Snapshot ops uuid created inputName lbls c =
     (let name = (if inputName = [] then uuid else inputName)
      in do { (c1, e1) \<leftarrow> canDoSnapshot ops c;
              (if e1 \<noteq> None then Some (c1, [], e1)
               else
                 do { (c2, e2) \<leftarrow> canDoSnapshot ops c1;
                      (if e2 \<noteq> None then Some (c2, [], e2)
                       else
                         do { (r, e3) \<leftarrow> Replicator.Snapshot ops (cbackend c2) name True created lbls;
                              (c4, e4) \<leftarrow> handleErrorNoLock ops e3 (c2\<lparr>cbackend := r\<rparr>);
                              (if e4 \<noteq> None then Some (c4, [], e4) else Some (c4, name, None)) }) }) })"

section \<open>Expansion\<close>

text \<open>
  \<^verbatim>\<open>Expand\<close> runs in three critical sections: \<open>startExpansion\<close>, then in a goroutine \<open>expandBackend\<close>
  and, after the expansion of the frontend, \<open>finishExpansion\<close>.  \<open>now\<close> is the current time.
\<close>

definition startExpansion :: "string \<Rightarrow> int \<Rightarrow> ('b, 'fe) controller \<Rightarrow> ('b, 'fe) controller \<times> go_error option" where
  "startExpansion now sz c =
     (let failed = (\<lambda>e. (c\<lparr>lastExpansionFailedAt := now,
                lastExpansionError := error_string (Wrapped ''controller failed to start expansion'' e)\<rparr>, Some e))
      in if isExpanding c then (c, Some (Err ''controller expansion is in progress''))
         else if sz smod VolumeSectorSize \<noteq> 0 then
           failed (Err (''requested expansion size '' @ show_int sz @ '' not multiple of volume sector size '' @
             show_int VolumeSectorSize))
         else if csize c = sz then (c, None)
         else if sz < csize c then failed (Err (''controller cannot be expanded to a smaller size '' @ show_int sz))
         else (c\<lparr>isExpanding := True, lastExpansionFailedAt := [], lastExpansionError := []\<rparr>, None))"

definition expandBackend ::
  "'b backend_ops \<Rightarrow> string \<Rightarrow> int \<Rightarrow> ('b, 'fe) controller \<Rightarrow> (('b, 'fe) controller \<times> bool) option" where
  "expandBackend ops now sz c =
     do { (c1, e1) \<leftarrow> canDoSnapshot ops c;
          (if e1 \<noteq> None then Some (c1, False)
           else
             do { (r, success, toHandle, toRecord) \<leftarrow> Expand ops (cbackend c1) sz;
                  let c2 = c1\<lparr>cbackend := r\<rparr>
                  in case toRecord of
                       None \<Rightarrow> Some (c2, True)
                     | Some e \<Rightarrow>
                         (let c3 = c2\<lparr>lastExpansionFailedAt := now,
                              lastExpansionError :=
                                (if success
                                 then ''the expansion succeeded, but some replica expansion failed: '' @ error_string e
                                 else ''the expansion failed since all replica expansion failed: '' @ error_string e)\<rparr>
                          in do { (c4, _) \<leftarrow> handleErrorNoLock ops toHandle c3; Some (c4, success) }) }) }"

definition finishExpansion :: "bool \<Rightarrow> int \<Rightarrow> ('b, 'fe) controller \<Rightarrow> ('b, 'fe) controller" where
  "finishExpansion expanded sz c =
     (if expanded then c\<lparr>csize := sz, isExpanding := False\<rparr> else c\<lparr>isExpanding := False\<rparr>)"

definition Expand ::
  "'b backend_ops \<Rightarrow> 'fe frontend_ops \<Rightarrow> string \<Rightarrow> int \<Rightarrow> ('b, 'fe) controller \<Rightarrow>
     (('b, 'fe) controller \<times> go_error option) option" where
  "Expand ops fe now sz c =
     (let (c1, e1) = startExpansion now sz c
      in if e1 \<noteq> None then Some (c1, e1)
         else
           do { (c2, expanded) \<leftarrow> expandBackend ops now sz c1;
                (case cfrontend c2 of
                   Some f \<Rightarrow>
                     if expanded then
                       (let (f', e) = fe_Expand fe f sz
                        in Some (finishExpansion (e = None) sz (c2\<lparr>cfrontend := Some f'\<rparr>), None))
                     else Some (finishExpansion expanded sz c2, None)
                 | None \<Rightarrow> Some (finishExpansion expanded sz c2, None)) })"

section \<open>Frontend\<close>

definition startFrontend ::
  "'fe frontend_ops \<Rightarrow> ('b, 'fe) controller \<Rightarrow> ('b, 'fe) controller \<times> go_error option" where
  "startFrontend fe c =
     (case cfrontend c of
        None \<Rightarrow> (c, None)
      | Some f \<Rightarrow>
          if creplicas c = [] then (c, None)
          else if isUpgrade c then
            (case fe_Upgrade fe f (VolumeName c) (csize c) (csectorSize c) of
               (f', Some e) \<Rightarrow> (c\<lparr>cfrontend := Some f'\<rparr>, Some (Wrapped ''failed to upgrade frontend'' e))
             | (f', None) \<Rightarrow> (c\<lparr>cfrontend := Some f'\<rparr>, None))
          else
            (case fe_Init fe f (VolumeName c) (csize c) (csectorSize c) of
               (f1, Some e) \<Rightarrow> (c\<lparr>cfrontend := Some f1\<rparr>, Some (Wrapped ''failed to init frontend'' e))
             | (f1, None) \<Rightarrow>
                 (case fe_Startup fe f1 of
                    (f2, Some e) \<Rightarrow> (c\<lparr>cfrontend := Some f2\<rparr>, Some (Wrapped ''failed to start up frontend'' e))
                  | (f2, None) \<Rightarrow> (c\<lparr>cfrontend := Some f2\<rparr>, None))))"

text \<open>\<open>new\<close> is \<^verbatim>\<open>NewFrontend\<close>: the frontend of a type name, or an error.\<close>

definition StartFrontend ::
  "'fe frontend_ops \<Rightarrow> (string \<Rightarrow> go_error + 'fe) \<Rightarrow> string \<Rightarrow> ('b, 'fe) controller \<Rightarrow>
     ('b, 'fe) controller \<times> go_error option" where
  "StartFrontend fe new frontend c =
     (if isExpanding c then (c, Some (Err ''cannot start frontend during the engine expansion''))
      else if frontend = [] then (c, Some (Err ''cannot start empty frontend''))
      else
        (case cfrontend c of
           Some f \<Rightarrow>
             if fe_FrontendName fe f \<noteq> frontend \<and> fe_State fe f \<noteq> StateDown
             then (c, Some (Err (''frontend '' @ fe_FrontendName fe f @ '' is already started, cannot be set as '' @ frontend)))
             else (case new frontend of
                     Inl e \<Rightarrow> (c, Some (Wrapped (''failed to find frontend: '' @ frontend) e))
                   | Inr f' \<Rightarrow> startFrontend fe (c\<lparr>cfrontend := Some f'\<rparr>))
         | None \<Rightarrow>
             (case new frontend of
                Inl e \<Rightarrow> (c, Some (Wrapped (''failed to find frontend: '' @ frontend) e))
              | Inr f' \<Rightarrow> startFrontend fe (c\<lparr>cfrontend := Some f'\<rparr>))))"

definition NewFrontend_type :: "string \<Rightarrow> string option" where
  "NewFrontend_type frontendType =
     (if frontendType = ''rest'' then Some ''rest''
      else if frontendType = ''socket'' then Some ''socket''
      else if frontendType = ''nbd'' \<or> frontendType = ''tgt-blockdev'' \<or> frontendType = ''tgt-iscsi'' then Some ''nbd''
      else None)"

text \<open>Durations in nanoseconds.\<close>

definition DetermineEngineReplicaTimeout :: "int \<Rightarrow> int" where
  "DetermineEngineReplicaTimeout timeout =
     (let s = 1000000000 in if timeout < 8 * s \<or> 30 * s < timeout then 8 * s else timeout)"

section \<open>Checks at start-up\<close>

text \<open>Calls of a method of the backend at an address, through the map of the replicator.\<close>

definition on_backend ::
  "string \<Rightarrow> ('b \<Rightarrow> 'b \<times> 'r) \<Rightarrow> ('b, 'fe) controller \<Rightarrow> (('b, 'fe) controller \<times> 'r) option" where
  "on_backend address f c =
     do { (bs, r) \<leftarrow> call_at address f (backends (cbackend c));
          Some (c\<lparr>cbackend := (cbackend c)\<lparr>backends := bs\<rparr>\<rparr>, r) }"

fun rev_setting_loop ::
  "'b backend_ops \<Rightarrow> Replica list \<Rightarrow> ('b, 'fe) controller \<Rightarrow> (('b, 'fe) controller \<times> go_error option) option" where
  "rev_setting_loop ops [] c = Some (c, None)"
| "rev_setting_loop ops (r # rs) c =
     (if RMode r = ERR then rev_setting_loop ops rs c
      else
        do { (c1, disabled, err) \<leftarrow> on_backend (Address r) (b_IsRevisionCounterDisabled ops) c;
             (if err \<noteq> None then Some (c1, err)
              else if revisionCounterDisabled c \<noteq> disabled
              then do { c2 \<leftarrow> setReplicaModeNoLock ops (Address r) ERR c1; rev_setting_loop ops rs c2 }
              else rev_setting_loop ops rs c1) })"

text \<open>
  The range expression of a Go loop is evaluated once, but its elements are read as the loop
  proceeds.  A mode set by one iteration concerns that replica only, so the modes read are those
  at the start.
\<close>

definition checkReplicaRevCounterSettingMatch ::
  "'b backend_ops \<Rightarrow> ('b, 'fe) controller \<Rightarrow> (('b, 'fe) controller \<times> go_error option) option" where
  "checkReplicaRevCounterSettingMatch ops c = rev_setting_loop ops (creplicas c) c"

record ReplicaSalvageInfo =
  s_Address :: string
  s_LastModifyTime :: int
  s_HeadFileSize :: int

definition lastModifyCheckPeriod :: int where
  "lastModifyCheckPeriod = 5 * 1000000000"

text \<open>\<open>last\<close> is \<^term>\<open>None\<close> for the zero time.\<close>

fun salvage_collect ::
  "'b backend_ops \<Rightarrow> Replica list \<Rightarrow> ('b, 'fe) controller \<Rightarrow> ReplicaSalvageInfo list \<Rightarrow> int option \<Rightarrow>
     (('b, 'fe) controller \<times> (go_error + ReplicaSalvageInfo list \<times> int option)) option" where
  "salvage_collect ops [] c cands lastm = Some (c, Inr (cands, lastm))"
| "salvage_collect ops (r # rs) c cands lastm =
     (if RMode r = ERR then salvage_collect ops rs c cands lastm
      else
        do { (c1, t, e1) \<leftarrow> on_backend (Address r) (b_GetLastModifyTime ops) c;
             (case e1 of
                Some e \<Rightarrow> Some (c1, Inl e)
              | None \<Rightarrow>
                  do { (c2, sz, e2) \<leftarrow> on_backend (Address r) (b_GetHeadFileSize ops) c1;
                       (case e2 of
                          Some e \<Rightarrow> Some (c2, Inl e)
                        | None \<Rightarrow>
                            salvage_collect ops rs c2
                              (cands @ [\<lparr>s_Address = Address r, s_LastModifyTime = t, s_HeadFileSize = sz\<rparr>])
                              (case lastm of None \<Rightarrow> Some t | Some l \<Rightarrow> Some (if l < t then t else l))) }) })"

fun best_loop :: "int \<Rightarrow> ReplicaSalvageInfo list \<Rightarrow> ReplicaSalvageInfo option \<Rightarrow> ReplicaSalvageInfo option" where
  "best_loop lastm [] best = best"
| "best_loop lastm (s # ss) best =
     best_loop lastm ss
       (if lastm < s_LastModifyTime s + lastModifyCheckPeriod \<and>
           (case best of
              None \<Rightarrow> True
            | Some t \<Rightarrow> s_HeadFileSize t < s_HeadFileSize s \<or>
                s_HeadFileSize s = s_HeadFileSize t \<and> s_LastModifyTime t < s_LastModifyTime s)
        then Some s else best)"

fun salvage_mark :: "'b backend_ops \<Rightarrow> string \<Rightarrow> string list \<Rightarrow> ('b, 'fe) controller \<Rightarrow> ('b, 'fe) controller option" where
  "salvage_mark ops best [] c = Some c"
| "salvage_mark ops best (a # as) c =
     do { c1 \<leftarrow> setReplicaModeNoLock ops a (if a \<noteq> best then ERR else RW) c; salvage_mark ops best as c1 }"

definition salvageRevisionCounterDisabledReplicas ::
  "'b backend_ops \<Rightarrow> ('b, 'fe) controller \<Rightarrow> (('b, 'fe) controller \<times> go_error option) option" where
  "salvageRevisionCounterDisabledReplicas ops c =
     do { (c1, res) \<leftarrow> salvage_collect ops (creplicas c) c [] None;
          (case res of
             Inl e \<Rightarrow> Some (c1, Some e)
           | Inr (cands, lastm) \<Rightarrow>
               (if cands = [] then Some (c1, Some (Err ''cannot find any replica for salvage''))
                else
                  (case best_loop (case lastm of Some l \<Rightarrow> l | None \<Rightarrow> 0) cands None of
                     None \<Rightarrow> Some (c1, Some (Err ''BUG: Should find one candidate for salvage''))
                   | Some best \<Rightarrow>
                       do { c2 \<leftarrow> salvage_mark ops (s_Address best) (map Address (creplicas c1)) c1;
                            Some (c2, None) }))) }"

fun rev_collect ::
  "'b backend_ops \<Rightarrow> Replica list \<Rightarrow> ('b, 'fe) controller \<Rightarrow> (string \<times> int) list \<Rightarrow> int \<Rightarrow>
     (('b, 'fe) controller \<times> (go_error + (string \<times> int) list \<times> int)) option" where
  "rev_collect ops [] c counters expected = Some (c, Inr (counters, expected))"
| "rev_collect ops (r # rs) c counters expected =
     (if RMode r = ERR then rev_collect ops rs c counters expected
      else
        do { (rep, counter, err) \<leftarrow> GetRevisionCounter ops (Address r) (cbackend c);
             let c1 = c\<lparr>cbackend := rep\<rparr>
             in case err of
                  Some e \<Rightarrow> Some (c1, Inl e)
                | None \<Rightarrow>
                    rev_collect ops rs c1 (aupdate counters (Address r) counter)
                      (if expected < counter then counter else expected) })"

definition checkReplicasRevisionCounter ::
  "'b backend_ops \<Rightarrow> ('b, 'fe) controller \<Rightarrow> (('b, 'fe) controller \<times> go_error option) option" where
  "checkReplicasRevisionCounter ops c =
     do { (c1, res) \<leftarrow> rev_collect ops (creplicas c) c [] 0;
          (case res of
             Inl e \<Rightarrow> Some (c1, Some e)
           | Inr (counters, expected) \<Rightarrow>
               do { c2 \<leftarrow> set_modes ops (map fst (filter (\<lambda>(a, n). n \<noteq> expected) counters)) ERR c1;
                    Some (c2, None) }) }"

fun unmap_mark_loop ::
  "'b backend_ops \<Rightarrow> Replica list \<Rightarrow> ('b, 'fe) controller \<Rightarrow> bool \<Rightarrow>
     (('b, 'fe) controller \<times> bool \<times> go_error option) option" where
  "unmap_mark_loop ops [] c allFailed = Some (c, allFailed, None)"
| "unmap_mark_loop ops (r # rs) c allFailed =
     (if RMode r = ERR then unmap_mark_loop ops rs c allFailed
      else
        do { (r1, enabled, err) \<leftarrow> GetUnmapMarkSnapChainRemoved ops (Address r) (cbackend c);
             let c1 = c\<lparr>cbackend := r1\<rparr>
             in if err \<noteq> None then Some (c1, allFailed, err)
                else if enabled \<noteq> unmapMarkSnapChainRemoved c then
                  do { (r2, err2) \<leftarrow> Replicator.SetUnmapMarkSnapChainRemoved ops (Address r)
                                       (unmapMarkSnapChainRemoved c) (cbackend c1);
                       let c2 = c1\<lparr>cbackend := r2\<rparr>
                       in if err2 \<noteq> None
                          then do { c3 \<leftarrow> setReplicaModeNoLock ops (Address r) ERR c2;
                                    unmap_mark_loop ops rs c3 allFailed }
                          else unmap_mark_loop ops rs c2 False }
                else unmap_mark_loop ops rs c1 False })"

definition checkUnmapMarkSnapChainRemoved ::
  "'b backend_ops \<Rightarrow> ('b, 'fe) controller \<Rightarrow> (('b, 'fe) controller \<times> go_error option) option" where
  "checkUnmapMarkSnapChainRemoved ops c =
     do { (c1, allFailed, err) \<leftarrow> unmap_mark_loop ops (creplicas c) c True;
          (if err \<noteq> None then Some (c1, err)
           else if allFailed then
             Some (c1, Some (Err (''failed to correct Unmatched flag UnmapMarkSnapChainRemoved for all replicas, expect '' @
               (if unmapMarkSnapChainRemoved c then ''true'' else ''false''))))
           else Some (c1, None)) }"

definition SetUnmapMarkSnapChainRemoved ::
  "'b backend_ops \<Rightarrow> bool \<Rightarrow> ('b, 'fe) controller \<Rightarrow> (('b, 'fe) controller \<times> go_error option) option" where
  "SetUnmapMarkSnapChainRemoved ops enabled c =
     checkUnmapMarkSnapChainRemoved ops (c\<lparr>unmapMarkSnapChainRemoved := enabled\<rparr>)"

section \<open>Snapshot limits\<close>

text \<open>The loop over the replicas that are not \<^term>\<open>ERR\<close>: it stops at the first failure.\<close>

fun set_limit_loop ::
  "(string \<Rightarrow> 'b replicator \<Rightarrow> ('b replicator \<times> go_error option) option) \<Rightarrow> string \<Rightarrow> Replica list \<Rightarrow>
     ('b, 'fe) controller \<Rightarrow> (('b, 'fe) controller \<times> go_error option) option" where
  "set_limit_loop f what [] c = Some (c, None)"
| "set_limit_loop f what (r # rs) c =
     (if RMode r = ERR then set_limit_loop f what rs c
      else
        do { (rep, err) \<leftarrow> f (Address r) (cbackend c);
             let c1 = c\<lparr>cbackend := rep\<rparr>
             in case err of
                  Some e \<Rightarrow> Some (c1, Some (Err (''failed to set flag '' @ what @ '' in replica '' @ Address r @
                              '', err: '' @ error_string e)))
                | None \<Rightarrow> set_limit_loop f what rs c1 })"

definition SetSnapshotMaxCount ::
  "'b backend_ops \<Rightarrow> int \<Rightarrow> ('b, 'fe) controller \<Rightarrow> (('b, 'fe) controller \<times> go_error option) option" where
  "SetSnapshotMaxCount ops count c =
     do { (rep, countUsage, _, _, err) \<leftarrow> GetSnapshotCountAndSizeUsage ops (cbackend c);
          let c1 = c\<lparr>cbackend := rep\<rparr>
          in if err \<noteq> None then Some (c1, err)
             else if count < countUsage then
               Some (c1, Some (Err (''cannot set snapshotMaxCount='' @ show_int count @
                 '' smaller than current snapshot count usage='' @ show_int countUsage @ '', please purge snapshots first'')))
             else set_limit_loop (\<lambda>a. Replicator.SetSnapshotMaxCount ops a count)
                    (''SnapshotMaxCount to '' @ show_int count) (creplicas c1) (c1\<lparr>snapshotMaxCount := count\<rparr>) }"

definition SetSnapshotMaxSize ::
  "'b backend_ops \<Rightarrow> int \<Rightarrow> ('b, 'fe) controller \<Rightarrow> (('b, 'fe) controller \<times> go_error option) option" where
  "SetSnapshotMaxSize ops sz c =
     do { (rep, _, _, sizeUsage, err) \<leftarrow> GetSnapshotCountAndSizeUsage ops (cbackend c);
          let c1 = c\<lparr>cbackend := rep\<rparr>
          in if err \<noteq> None then Some (c1, err)
             else if sz < sizeUsage then
               Some (c1, Some (Err (''cannot set snapshotMaxSize='' @ show_int sz @
                 '' smaller than current snapshot size usage='' @ show_int sizeUsage @ '', please purge snapshots first'')))
             else set_limit_loop (\<lambda>a. Replicator.SetSnapshotMaxSize ops a sz)
                    (''SnapshotMaxSize to '' @ show_int sz) (creplicas c1) (c1\<lparr>SnapshotMaxSize := sz\<rparr>) }"

section \<open>Start\<close>

definition isReplicaInInvalidState :: "string \<Rightarrow> bool" where
  "isReplicaInInvalidState state \<longleftrightarrow>
     state \<noteq> state_string ReplicaStateOpen \<and> state \<noteq> state_string ReplicaStateDirty"

fun checkDuplicate_loop :: "string list \<Rightarrow> string list \<Rightarrow> go_error option" where
  "checkDuplicate_loop [] seen = None"
| "checkDuplicate_loop (a # as) seen =
     (if a \<in> set seen then Some (Err (''invalid ReplicaAddress: duplicate replica addresses '' @ a))
      else checkDuplicate_loop as (a # seen))"

definition checkDuplicateAddress :: "string list \<Rightarrow> go_error option" where
  "checkDuplicateAddress addresses = checkDuplicate_loop addresses []"

text \<open>The set of sizes is a list without duplicates.\<close>

definition determineCorrectVolumeSize :: "int \<Rightarrow> int \<Rightarrow> int list \<Rightarrow> int" where
  "determineCorrectVolumeSize volumeSize volumeCurrentSize backendSizes =
     (if volumeCurrentSize = 0 then volumeSize
      else if length backendSizes = 1 \<and> hd backendSizes = volumeSize then volumeSize
      else volumeCurrentSize)"

definition unavailable :: "go_error \<Rightarrow> bool" where
  "unavailable e = Contains (error_string e) ''rpc error: code = Unavailable''"

text \<open>The errors of \<^verbatim>\<open>errorCodes\<close> are all \<^verbatim>\<open>codes.Unavailable\<close>, so the map is the list of its keys.\<close>

definition isBackendServiceUnavailable :: "string list \<Rightarrow> bool" where
  "isBackendServiceUnavailable errorCodes \<longleftrightarrow> errorCodes \<noteq> []"

record 'b probe =
  p_first :: bool
  p_sectorSize :: int
  p_avail :: "(string \<times> 'b) list"
  p_sizes :: "int list"
  p_unavail :: "string list"

definition skip :: "string \<Rightarrow> go_error \<Rightarrow> 'b probe \<Rightarrow> 'b probe" where
  "skip address e p = (if unavailable e then p\<lparr>p_unavail := List.insert address (p_unavail p)\<rparr> else p)"

definition probe_one ::
  "'b backend_ops \<Rightarrow> 'b factory \<Rightarrow> bool \<Rightarrow> int \<Rightarrow> bool \<Rightarrow> string \<Rightarrow> 'b probe \<Rightarrow> 'b probe" where
  "probe_one ops create upgrade volumeCurrentSize single address p =
     (case create address upgrade volumeCurrentSize of
        Inl e \<Rightarrow> skip address e p
      | Inr b0 \<Rightarrow>
          (let b1 = (if single then fst (b_ResetRebuild ops b0) else b0)
           in case b_Size ops b1 of
                (b2, newSize, Some e) \<Rightarrow> skip address e p
              | (b2, newSize, None) \<Rightarrow>
                  (case b_SectorSize ops b2 of
                     (b3, newSectorSize, Some e) \<Rightarrow> skip address e p
                   | (b3, newSectorSize, None) \<Rightarrow>
                       (case b_GetState ops b3 of
                          (b4, state, Some e) \<Rightarrow> skip address e p
                        | (b4, state, None) \<Rightarrow>
                            if isReplicaInInvalidState state then p
                            else
                              (let p1 = (if p_first p then p\<lparr>p_first := False, p_sectorSize := newSectorSize\<rparr> else p)
                               in if p_sectorSize p1 \<noteq> newSectorSize then p1
                                  else p1\<lparr>p_avail := aupdate (p_avail p1) address b4,
                                          p_sizes := List.insert newSize (p_sizes p1)\<rparr>)))))"

fun probe_loop ::
  "'b backend_ops \<Rightarrow> 'b factory \<Rightarrow> bool \<Rightarrow> int \<Rightarrow> bool \<Rightarrow> string list \<Rightarrow> 'b probe \<Rightarrow> 'b probe" where
  "probe_loop ops create upgrade cur single [] p = p"
| "probe_loop ops create upgrade cur single (a # as) p =
     probe_loop ops create upgrade cur single as (probe_one ops create upgrade cur single a p)"

fun size_filter :: "'b backend_ops \<Rightarrow> int \<Rightarrow> (string \<times> 'b) list \<Rightarrow> (string \<times> 'b) list" where
  "size_filter ops sz [] = []"
| "size_filter ops sz ((a, b) # bs) =
     (case b_Size ops b of
        (b', s, Some e) \<Rightarrow> size_filter ops sz bs
      | (b', s, None) \<Rightarrow> if sz \<noteq> s then size_filter ops sz bs else (a, b') # size_filter ops sz bs)"

fun add_all ::
  "'b backend_ops \<Rightarrow> (string \<times> 'b) list \<Rightarrow> string list \<Rightarrow> ('b, 'fe) controller \<Rightarrow>
     (('b, 'fe) controller \<times> go_error option) option" where
  "add_all ops avail [] c = Some (c, None)"
| "add_all ops avail (a # as) c =
     do { (c1, err) \<leftarrow>
            (case alookup avail a of
               Some b \<Rightarrow> addReplicaNoLock ops (Some b) a False RW [] [] c
             | None \<Rightarrow> addReplicaNoLock ops None a False ERR [] [] c);
          (if err \<noteq> None then Some (c1, err) else add_all ops avail as c1) }"

definition no_backend_error :: "string list \<Rightarrow> string list \<Rightarrow> go_error" where
  "no_backend_error errorCodes addresses =
     Err ((if isBackendServiceUnavailable errorCodes
           then ''no available backend due to service unavailable''
           else ''no available backend due to replica error'') @
          '' from the addresses ['' @ Join addresses '' '' @ '']'')"

text \<open>The checks of the counters, which an upgrade skips.\<close>

definition check_counters ::
  "'b backend_ops \<Rightarrow> ('b, 'fe) controller \<Rightarrow> (('b, 'fe) controller \<times> go_error option) option" where
  "check_counters ops c =
     (if isUpgrade c then Some (c, None)
      else
        do { (c1, e1) \<leftarrow> checkReplicaRevCounterSettingMatch ops c;
             (if e1 \<noteq> None then Some (c1, e1)
              else if revisionCounterDisabled c1 then
                (if salvageRequested c1 then salvageRevisionCounterDisabledReplicas ops c1 else Some (c1, None))
              else checkReplicasRevisionCounter ops c1) })"

definition Start ::
  "'b backend_ops \<Rightarrow> 'fe frontend_ops \<Rightarrow> 'b factory \<Rightarrow> int \<Rightarrow> int \<Rightarrow> string list \<Rightarrow> ('b, 'fe) controller \<Rightarrow>
     (('b, 'fe) controller \<times> go_error option) option" where
  "Start ops fe create volumeSize volumeCurrentSize addresses c =
     (if addresses = [] then Some (c, None)
      else
        (case checkDuplicateAddress addresses of
           Some e \<Rightarrow> Some (c, Some e)
         | None \<Rightarrow>
             if creplicas c \<noteq> [] then Some (c, None)
             else
               (let c0 = c_reset c;
                    p = probe_loop ops create (isUpgrade c0) volumeCurrentSize (length addresses = 1) addresses
                          \<lparr>p_first = True, p_sectorSize = csectorSize c0, p_avail = [], p_sizes = [], p_unavail = []\<rparr>;
                    sz = determineCorrectVolumeSize volumeSize volumeCurrentSize (p_sizes p);
                    avail = size_filter ops sz (p_avail p)
                in do { (c1, e1) \<leftarrow> add_all ops avail addresses (c0\<lparr>csectorSize := p_sectorSize p, csize := sz\<rparr>);
                        (if e1 \<noteq> None then Some (c1, e1)
                         else if avail = [] then Some (c1, Some (no_backend_error (p_unavail p) addresses))
                         else
                           do { (c2, e2) \<leftarrow> checkUnmapMarkSnapChainRemoved ops c1;
                                (if e2 \<noteq> None then Some (c2, e2)
                                 else
                                   do { (c3, e3) \<leftarrow> check_counters ops c2;
                                        (if e3 \<noteq> None then Some (c3, e3)
                                         else Some (startFrontend fe c3)) }) }) })))"

section \<open>Shutdown and metrics\<close>

definition shutdownFrontend ::
  "'fe frontend_ops \<Rightarrow> ('b, 'fe) controller \<Rightarrow> ('b, 'fe) controller \<times> go_error option" where
  "shutdownFrontend fe c =
     (case cfrontend c of
        None \<Rightarrow> (c, None)
      | Some f \<Rightarrow> let (f', e) = fe_Shutdown fe f in (c\<lparr>cfrontend := Some f'\<rparr>, e))"

definition shutdownBackend ::
  "'b backend_ops \<Rightarrow> ('b, 'fe) controller \<Rightarrow> (('b, 'fe) controller \<times> go_error option) option" where
  "shutdownBackend ops c =
     do { (r, e) \<leftarrow> Close ops (cbackend c); Some (c_reset (c\<lparr>cbackend := r\<rparr>), e) }"

definition metricsStop :: "('b, 'fe) controller \<Rightarrow> ('b, 'fe) controller" where
  "metricsStop c = c\<lparr>metricsStopped := True\<rparr>"

text \<open>\<^verbatim>\<open>errors.Wrapf\<close> of a nil error is nil.\<close>

definition Wrapf :: "go_error option \<Rightarrow> string \<Rightarrow> go_error option" where
  "Wrapf e msg = map_option (Wrapped msg) e"

definition Shutdown ::
  "'b backend_ops \<Rightarrow> 'fe frontend_ops \<Rightarrow> ('b, 'fe) controller \<Rightarrow> (('b, 'fe) controller \<times> go_error option) option" where
  "Shutdown ops fe c =
     (let (c1, errFrontend) = shutdownFrontend fe c
      in do { (c2, errBackend) \<leftarrow> shutdownBackend ops c1;
              let c3 = metricsStop c2
              in if errFrontend \<noteq> None \<or> errBackend \<noteq> None
                 then Some (c3, Wrapf errBackend
                        (''errors when shutting down controller: frontend: '' @
                         (case errFrontend of None \<Rightarrow> ''<nil>'' | Some e \<Rightarrow> error_string e) @ '' backend''))
                 else Some (c3, None) })"

text \<open>One tick of the metrics goroutine, and the averages reported from the last tick.\<close>

definition metrics_tick :: "('b, 'fe) controller \<Rightarrow> ('b, 'fe) controller" where
  "metrics_tick c = (if metricsStopped c then c else c\<lparr>latestMetrics := cmetrics c, cmetrics := no_metrics\<rparr>)"

definition getAverageLatency :: "u64 \<Rightarrow> u64 \<Rightarrow> u64 option" where
  "getAverageLatency totalLatency iops = (if iops = 0 then None else Some (totalLatency div iops))"

record rpc_Metrics =
  ReadThroughput :: u64
  WriteThroughput :: u64
  ReadIOPS :: u64
  WriteIOPS :: u64
  ReadLatency :: u64
  WriteLatency :: u64

definition GetLatestMetics :: "('b, 'fe) controller \<Rightarrow> rpc_Metrics option" where
  "GetLatestMetics c =
     (let m = latestMetrics c
      in do { rl \<leftarrow> (if m_Read (IOPS m) \<noteq> 0
                    then getAverageLatency (m_Read (TotalLatency m)) (m_Read (IOPS m)) else Some 0);
              wl \<leftarrow> (if m_Write (IOPS m) \<noteq> 0
                    then getAverageLatency (m_Write (TotalLatency m)) (m_Write (IOPS m)) else Some 0);
              Some \<lparr> ReadThroughput = m_Read (Throughput m), WriteThroughput = m_Write (Throughput m),
                     ReadIOPS = m_Read (IOPS m), WriteIOPS = m_Write (IOPS m),
                     ReadLatency = rl, WriteLatency = wl \<rparr> })"

end
