(* ===== verification/Dataconn.thy ===== *)
theory Dataconn
  imports Errors
begin

text \<open>
  The data connection between the controller and a replica (\<^verbatim>\<open>pkg/dataconn\<close>): the framing of
  messages on a byte stream (\<^verbatim>\<open>wire.go\<close>), the server's handlers (\<^verbatim>\<open>server.go\<close>), the client's event
  loop (\<^verbatim>\<open>client.go\<close>) and the timeouts the clients of one volume share
  (\<^verbatim>\<open>pkg/util/shared_timeouts.go\<close>).  The bytes of a connection are a list; a list that is too short
  is a connection that was closed.  The journal of pending operations only serves diagnostics and
  is left out.
\<close>

section \<open>Messages\<close>

definition TypeRead :: u32 where "TypeRead = 0"
definition TypeWrite :: u32 where "TypeWrite = 1"
definition TypeResponse :: u32 where "TypeResponse = 2"
definition TypeError :: u32 where "TypeError = 3"
definition TypeEOF :: u32 where "TypeEOF = 4"
definition TypeClose :: u32 where "TypeClose = 5"
definition TypePing :: u32 where "TypePing = 6"
definition TypeUnmap :: u32 where "TypeUnmap = 7"
definition TypeENOSPC :: u32 where "TypeENOSPC = 8"

lemmas message_types = TypeRead_def TypeWrite_def TypeResponse_def TypeError_def TypeEOF_def
  TypeClose_def TypePing_def TypeUnmap_def TypeENOSPC_def

definition MagicVersion :: u16 where
  "MagicVersion = 0x1b01"

record Message =
  m_Magic :: u16
  m_Seq :: u32
  m_Type :: u32
  m_Offset :: int
  m_Size :: u32
  m_Data :: "byte list"
  m_transportErr :: "go_error option"

definition zero_message :: Message where
  "zero_message = \<lparr> m_Magic = 0, m_Seq = 0, m_Type = 0, m_Offset = 0, m_Size = 0, m_Data = [],
     m_transportErr = None \<rparr>"

text \<open>The bytes of a text, and the text of bytes.\<close>

definition text_bytes :: "string \<Rightarrow> byte list" where
  "text_bytes s = map (\<lambda>c. of_nat (of_char c)) s"

definition bytes_text :: "byte list \<Rightarrow> string" where
  "bytes_text bs = map (\<lambda>b. char_of (unat b)) bs"

section \<open>Framing\<close>

text \<open>\<^verbatim>\<open>binary.LittleEndian\<close>: the low byte first.\<close>

fun le_bytes :: "nat \<Rightarrow> nat \<Rightarrow> byte list" where
  "le_bytes 0 v = []"
| "le_bytes (Suc n) v = of_nat (v mod 256) # le_bytes n (v div 256)"

fun le_value :: "byte list \<Rightarrow> nat" where
  "le_value [] = 0"
| "le_value (b # bs) = unat b + 256 * le_value bs"

definition getRequestHeaderSize :: nat where
  "getRequestHeaderSize = 2 + 4 + 4 + 8 + 4 + 4"

definition Wire_header :: "Message \<Rightarrow> byte list" where
  "Wire_header msg =
     le_bytes 2 (unat (m_Magic msg)) @ le_bytes 4 (unat (m_Seq msg)) @ le_bytes 4 (unat (m_Type msg)) @
     le_bytes 8 (unat (word_of_int (m_Offset msg) :: u64)) @ le_bytes 4 (unat (m_Size msg)) @
     le_bytes 4 (unat (of_nat (length (m_Data msg)) :: u32))"

text \<open>The bytes \<^verbatim>\<open>Wire.Write\<close> flushes to the connection.\<close>

definition Wire_Write :: "Message \<Rightarrow> byte list" where
  "Wire_Write msg = Wire_header msg @ (if 0 < length (m_Data msg) then m_Data msg else [])"

text \<open>\<^verbatim>\<open>io.ReadFull\<close>: \<open>n\<close> bytes, or the end of the stream after some or none.\<close>

definition ReadFull :: "nat \<Rightarrow> byte list \<Rightarrow> go_error + byte list \<times> byte list" where
  "ReadFull n s =
     (if n \<le> length s then Inr (take n s, drop n s)
      else if s = [] then Inl EOF else Inl ErrUnexpectedEOF)"

text \<open>The error for a foreign version is given without the version it names.\<close>

definition field :: "byte list \<Rightarrow> nat \<Rightarrow> nat \<Rightarrow> nat" where
  "field hdr off n = le_value (take n (drop off hdr))"

definition Wire_Read :: "byte list \<Rightarrow> go_error + Message \<times> byte list" where
  "Wire_Read s =
     (case ReadFull getRequestHeaderSize s of
        Inl e \<Rightarrow> Inl (if s = [] \<and> e = EOF then e else Wrapped ''failed to read message header'' e)
      | Inr (hdr, s1) \<Rightarrow>
          (let magic = (of_nat (field hdr 0 2) :: u16)
           in if magic \<noteq> MagicVersion then Inl (Err ''wrong API version received'')
              else
                (let msg = \<lparr> m_Magic = magic, m_Seq = of_nat (field hdr 2 4), m_Type = of_nat (field hdr 6 4),
                             m_Offset = sint (of_nat (field hdr 10 8) :: u64), m_Size = of_nat (field hdr 18 4),
                             m_Data = [], m_transportErr = None \<rparr>;
                     len = field hdr 22 4
                 in if 0 < len then
                      (case ReadFull len s1 of
                         Inl e \<Rightarrow> Inl (Wrapped (''failed to read message payload (seq='' @ show_nat (unat (m_Seq msg)) @ '', size='' @ show_nat len @ '')'') (if errors_Is e EOF then ErrUnexpectedEOF else e))
                       | Inr (d, s2) \<Rightarrow> Inr (msg\<lparr>m_Data := d\<rparr>, s2))
                    else Inr (msg, s1))))"

section \<open>Server\<close>

text \<open>The data processor behind a server (\<^verbatim>\<open>types.DataProcessor\<close>).\<close>

record 'p data_ops =
  d_ReadAt :: "'p \<Rightarrow> byte list \<Rightarrow> int \<Rightarrow> 'p \<times> byte list \<times> int \<times> go_error option"
  d_WriteAt :: "'p \<Rightarrow> byte list \<Rightarrow> int \<Rightarrow> 'p \<times> int \<times> go_error option"
  d_UnmapAt :: "'p \<Rightarrow> u32 \<Rightarrow> int \<Rightarrow> 'p \<times> int \<times> go_error option"
  d_PingResponse :: "'p \<Rightarrow> 'p \<times> go_error option"

text \<open>\<^term>\<open>None\<close> is the panic of slicing past the data.\<close>

definition pushResponse :: "int \<Rightarrow> Message \<Rightarrow> go_error option \<Rightarrow> Message option" where
  "pushResponse count msg err =
     (let m1 = msg\<lparr>m_Magic := MagicVersion, m_Size := of_nat (length (m_Data msg))\<rparr>;
          m2 = (if m_Type m1 = TypeWrite \<or> m_Type m1 = TypeUnmap
                then m1\<lparr>m_Data := [], m_Size := word_of_int count\<rparr> else m1);
          m3 = m2\<lparr>m_Type := TypeResponse\<rparr>
      in case err of
           None \<Rightarrow> Some m3
         | Some e \<Rightarrow>
             if e = EOF then
               do { d \<leftarrow> go_slice (m_Data m3) 0 count;
                    Some (m3\<lparr>m_Type := TypeEOF, m_Data := d, m_Size := of_nat (length d)\<rparr>) }
             else
               (let d = text_bytes (error_string e)
                in Some (m3\<lparr>m_Type := (if e = ErrNoSpaceLeftOnDevice then TypeENOSPC else TypeError),
                            m_Data := d, m_Size := of_nat (length d)\<rparr>)))"

definition handleRead :: "'p data_ops \<Rightarrow> Message \<Rightarrow> 'p \<Rightarrow> ('p \<times> Message) option" where
  "handleRead ops msg p =
     (let (p', d, c, err) = d_ReadAt ops p (replicate (unat (m_Size msg)) 0) (m_Offset msg)
      in do { r \<leftarrow> pushResponse c (msg\<lparr>m_Data := d\<rparr>) err; Some (p', r) })"

definition handleWrite :: "'p data_ops \<Rightarrow> Message \<Rightarrow> 'p \<Rightarrow> ('p \<times> Message) option" where
  "handleWrite ops msg p =
     (let (p', c, err) = d_WriteAt ops p (m_Data msg) (m_Offset msg)
      in do { r \<leftarrow> pushResponse c msg err; Some (p', r) })"

definition handleUnmap :: "'p data_ops \<Rightarrow> Message \<Rightarrow> 'p \<Rightarrow> ('p \<times> Message) option" where
  "handleUnmap ops msg p =
     (let (p', c, err) = d_UnmapAt ops p (m_Size msg) (m_Offset msg)
      in do { r \<leftarrow> pushResponse c msg err; Some (p', r) })"

definition handlePing :: "'p data_ops \<Rightarrow> Message \<Rightarrow> 'p \<Rightarrow> ('p \<times> Message) option" where
  "handlePing ops msg p =
     (let (p', err) = d_PingResponse ops p
      in do { r \<leftarrow> pushResponse 0 msg err; Some (p', r) })"

text \<open>
  One message from the wire: the error that ends the server, or the responses of its handler (none
  for an unknown type) and the rest of the stream.
\<close>

definition readFromWire ::
  "'p data_ops \<Rightarrow> byte list \<Rightarrow> 'p \<Rightarrow> (go_error + 'p \<times> Message list \<times> byte list) option" where
  "readFromWire ops s p =
     (case Wire_Read s of
        Inl e \<Rightarrow> Some (Inl e)
      | Inr (msg, s') \<Rightarrow>
          (let done = (\<lambda>r. do { (p', m) \<leftarrow> r; Some (Inr (p', [m], s')) })
           in if m_Type msg = TypeRead then done (handleRead ops msg p)
              else if m_Type msg = TypeWrite then done (handleWrite ops msg p)
              else if m_Type msg = TypeUnmap then done (handleUnmap ops msg p)
              else if m_Type msg = TypePing then done (handlePing ops msg p)
              else Some (Inr (p, [], s'))))"

text \<open>The notification a stopping server writes.\<close>

definition close_message :: Message where
  "close_message = zero_message\<lparr>m_Type := TypeClose\<rparr>"

section \<open>Shared timeouts\<close>

text \<open>Durations in nanoseconds.\<close>

record SharedTimeouts =
  longTimeout :: int
  shortTimeout :: int
  numConsumers :: int

definition NewSharedTimeouts :: "int \<Rightarrow> int \<Rightarrow> SharedTimeouts" where
  "NewSharedTimeouts short long = \<lparr> longTimeout = long, shortTimeout = short, numConsumers = 0 \<rparr>"

definition Increment :: "SharedTimeouts \<Rightarrow> SharedTimeouts" where
  "Increment t = t\<lparr>numConsumers := numConsumers t + 1\<rparr>"

definition Decrement :: "SharedTimeouts \<Rightarrow> SharedTimeouts" where
  "Decrement t = t\<lparr>numConsumers := numConsumers t - 1\<rparr>"

definition CheckAndDecrement :: "int \<Rightarrow> SharedTimeouts \<Rightarrow> SharedTimeouts \<times> int" where
  "CheckAndDecrement duration t =
     (if longTimeout t < duration then (t\<lparr>numConsumers := numConsumers t - 1\<rparr>, longTimeout t)
      else if shortTimeout t < duration \<and> 1 < numConsumers t
      then (t\<lparr>numConsumers := numConsumers t - 1\<rparr>, shortTimeout t)
      else (t, 0))"

section \<open>Client\<close>

definition ErrRWTimeout :: go_error where
  "ErrRWTimeout = Err ''r/w timeout''"

text \<open>
  The state of the client's loop.  A pending request is the caller's message together with the
  caller; \<open>decremented\<close>, \<open>clientError\<close>, \<open>ioInflight\<close> and \<open>timeOfLastActivity\<close> are the local variables
  of \<^verbatim>\<open>loop\<close>, and \<open>ended\<close> says that the loop has returned.
\<close>

type_synonym caller = nat

record Client =
  cseq :: u32
  messages :: "(u32 \<times> caller \<times> Message) list"
  clientError :: "go_error option"
  ioInflight :: int
  timeOfLastActivity :: "int option"
  decremented :: bool
  ended :: bool

definition new_client :: Client where
  "new_client = \<lparr> cseq = 0, messages = [], clientError = None, ioInflight = 0, timeOfLastActivity = None,
     decremented = False, ended = False \<rparr>"

text \<open>What the outside sees of a step: a message sent, or a request completed.\<close>

datatype client_out = Sent Message | Completed caller Message

datatype client_in =
    CEnd
  | CTick int
  | CRequest caller int Message
  | CResponse int Message

definition is_io :: "Message \<Rightarrow> bool" where
  "is_io msg \<longleftrightarrow> m_Type msg = TypeRead \<or> m_Type msg = TypeWrite \<or> m_Type msg = TypeUnmap"

definition nextSeq :: "Client \<Rightarrow> Client \<times> u32" where
  "nextSeq c = (c\<lparr>cseq := cseq c + 1\<rparr>, cseq c + 1)"

definition replyError :: "caller \<Rightarrow> Message \<Rightarrow> go_error \<Rightarrow> Client \<Rightarrow> Client \<times> client_out list" where
  "replyError k req err c =
     (c\<lparr>messages := adelete (messages c) (m_Seq req)\<rparr>,
      [Completed k (req\<lparr>m_Type := TypeError, m_Data := text_bytes (error_string err)\<rparr>)])"

definition handleRequest :: "caller \<Rightarrow> Message \<Rightarrow> Client \<Rightarrow> Client \<times> client_out list" where
  "handleRequest k req c =
     (let (c1, seq) = nextSeq c;
          req1 = req\<lparr>m_Magic := MagicVersion, m_Seq := seq\<rparr>
      in (c1\<lparr>messages := aupdate (messages c1) seq (k, req1)\<rparr>, [Sent req1]))"

definition handleResponse :: "Message \<Rightarrow> Client \<Rightarrow> Client \<times> client_out list" where
  "handleResponse resp c =
     (case alookup (messages c) (m_Seq resp) of
        None \<Rightarrow> (c, [])
      | Some (k, req) \<Rightarrow>
          (c\<lparr>messages := adelete (messages c) (m_Seq resp)\<rparr>,
           [Completed k (req\<lparr>m_Type := m_Type resp, m_Size := m_Size resp, m_Data := m_Data resp\<rparr>)]))"

fun reply_all :: "(u32 \<times> caller \<times> Message) list \<Rightarrow> go_error \<Rightarrow> Client \<Rightarrow> Client \<times> client_out list" where
  "reply_all [] err c = (c, [])"
| "reply_all ((s, k, req) # ms) err c =
     (let (c1, out1) = replyError k req err c; (c2, out2) = reply_all ms err c1 in (c2, out1 @ out2))"

definition handleClientError :: "go_error \<Rightarrow> Client \<Rightarrow> Client \<times> client_out list" where
  "handleClientError err c =
     (let c1 = c\<lparr>clientError := Some err\<rparr>; (c2, out) = reply_all (messages c1) err c1
      in (c2\<lparr>ioInflight := 0, timeOfLastActivity := None\<rparr>, out))"

text \<open>One iteration of \<^verbatim>\<open>loop\<close>; an event after the loop has returned is never received.\<close>

fun loop_step :: "client_in \<Rightarrow> SharedTimeouts \<times> Client \<Rightarrow> SharedTimeouts \<times> Client \<times> client_out list" where
  "loop_step CEnd (t, c) =
     (if ended c then (t, c, [])
      else (if decremented c then t else Decrement t, c\<lparr>ended := True\<rparr>, []))"
| "loop_step (CTick now) (t, c) =
     (if ended c then (t, c, [])
      else
        (case timeOfLastActivity c of
           None \<Rightarrow> (t, c, [])
         | Some since \<Rightarrow>
             if ioInflight c = 0 then (t, c, [])
             else
               (let (t', exceeded) = CheckAndDecrement (now - since) t
                in if 0 < exceeded
                   then (let (c', out) = handleClientError ErrRWTimeout (c\<lparr>decremented := True\<rparr>) in (t', c', out))
                   else (t', c, []))))"
| "loop_step (CRequest k now req) (t, c) =
     (if ended c then (t, c, [])
      else
        (case clientError c of
           Some e \<Rightarrow> (let (c', out) = replyError k req e c in (t, c', out))
         | None \<Rightarrow>
             (let c1 = (if is_io req
                        then c\<lparr>timeOfLastActivity := (if ioInflight c = 0 then Some now else timeOfLastActivity c),
                               ioInflight := ioInflight c + 1\<rparr>
                        else c);
                  (c2, out) = handleRequest k req c1
              in (t, c2, out))))"
| "loop_step (CResponse now resp) (t, c) =
     (if ended c then (t, c, [])
      else
        (case m_transportErr resp of
           Some e \<Rightarrow> (let (c', out) = handleClientError e c in (t, c', out))
         | None \<Rightarrow>
             (case alookup (messages c) (m_Seq resp) of
                None \<Rightarrow> (t, c, [])
              | Some (k, req) \<Rightarrow>
                  (let c1 = (if is_io req
                             then c\<lparr>ioInflight := ioInflight c - 1, timeOfLastActivity := Some now\<rparr> else c)
                   in case clientError c of
                        Some e \<Rightarrow> (let (c2, out) = replyError k req e c1 in (t, c2, out))
                      | None \<Rightarrow> (let (c2, out) = handleResponse resp c1 in (t, c2, out))))))"

fun loop_run :: "client_in list \<Rightarrow> SharedTimeouts \<times> Client \<Rightarrow> SharedTimeouts \<times> Client \<times> client_out list" where
  "loop_run [] (t, c) = (t, c, [])"
| "loop_run (e # es) s =
     (let (t1, c1, out1) = loop_step e s; (t2, c2, out2) = loop_run es (t1, c1) in (t2, c2, out1 @ out2))"

text \<open>The loop starts by entering itself among the consumers of the timeouts.\<close>

definition loop :: "client_in list \<Rightarrow> SharedTimeouts \<Rightarrow> SharedTimeouts \<times> Client \<times> client_out list" where
  "loop es t = loop_run es (Increment t, new_client)"

text \<open>The message of an operation, and its result once the message is completed.\<close>

definition operation_request :: "u32 \<Rightarrow> byte list \<Rightarrow> u32 \<Rightarrow> int \<Rightarrow> Message" where
  "operation_request op buf len off =
     zero_message\<lparr>m_Type := op, m_Offset := off, m_Size := len,
                  m_Data := (if op = TypeWrite then buf else [])\<rparr>"

definition operation_result :: "u32 \<Rightarrow> byte list \<Rightarrow> Message \<Rightarrow> byte list \<times> int \<times> go_error option" where
  "operation_result op buf msg =
     (let buf' = (if op = TypeRead \<and> (m_Type msg = TypeResponse \<or> m_Type msg = TypeEOF)
                  then copy_at buf 0 (m_Data msg) else buf)
      in if m_Type msg = TypeError then (buf', 0, Some (Err (bytes_text (m_Data msg))))
         else if m_Type msg = TypeEOF then (buf', uint (m_Size msg), Some EOF)
         else (buf', uint (m_Size msg), None))"

section \<open>A request and its response\<close>

text \<open>
  One operation from the client's call to its result, when nothing else is in flight: the loop
  sends the request, the bytes travel to the server, its handler answers, and the loop completes
  the request with the response read from the wire.
\<close>

definition exchange ::
  "'p data_ops \<Rightarrow> u32 \<Rightarrow> byte list \<Rightarrow> u32 \<Rightarrow> int \<Rightarrow> Client \<times> 'p \<Rightarrow> ((Client \<times> 'p) \<times> byte list \<times> int \<times> go_error option) option" where
  "exchange ops op buf len off = (\<lambda>(c, p).
     (case handleRequest 0 (operation_request op buf len off) c of
        (c1, [Sent req]) \<Rightarrow>
          do { r \<leftarrow> readFromWire ops (Wire_Write req) p;
               (case r of
                  Inr (p', [resp], rest) \<Rightarrow>
                    (case Wire_Read (Wire_Write resp) of
                       Inr (resp', _) \<Rightarrow>
                         (case handleResponse resp' c1 of
                            (c2, [Completed _ msg]) \<Rightarrow> Some ((c2, p'), operation_result op buf msg)
                          | _ \<Rightarrow> None)
                     | Inl _ \<Rightarrow> None)
                | _ \<Rightarrow> None) }
      | _ \<Rightarrow> None))"

definition Client_WriteAt :: "'p data_ops \<Rightarrow> byte list \<Rightarrow> int \<Rightarrow> Client \<times> 'p \<Rightarrow> ((Client \<times> 'p) \<times> int \<times> go_error option) option" where
  "Client_WriteAt ops buf off s =
     do { (s', _, n, e) \<leftarrow> exchange ops TypeWrite buf (of_nat (length buf)) off s; Some (s', n, e) }"

definition Client_ReadAt :: "'p data_ops \<Rightarrow> byte list \<Rightarrow> int \<Rightarrow> Client \<times> 'p \<Rightarrow> ((Client \<times> 'p) \<times> byte list \<times> int \<times> go_error option) option" where
  "Client_ReadAt ops buf off s = exchange ops TypeRead buf (of_nat (length buf)) off s"

definition Client_UnmapAt :: "'p data_ops \<Rightarrow> u32 \<Rightarrow> int \<Rightarrow> Client \<times> 'p \<Rightarrow> ((Client \<times> 'p) \<times> int \<times> go_error option) option" where
  "Client_UnmapAt ops len off s =
     do { (s', _, n, e) \<leftarrow> exchange ops TypeUnmap [] len off s; Some (s', n, e) }"

definition Client_Ping :: "'p data_ops \<Rightarrow> Client \<times> 'p \<Rightarrow> ((Client \<times> 'p) \<times> go_error option) option" where
  "Client_Ping ops s = do { (s', _, n, e) \<leftarrow> exchange ops TypePing [] 0 0 s; Some (s', e) }"

end
