(* ===== verification/DataconnProps.thy ===== *)
theory DataconnProps
  imports Dataconn
begin

text \<open>
  Properties of the data connection: frames read back as they were written, in every sequence; an
  operation through the connection is the operation of the data processor; the client's loop
  completes every request exactly once; and the last replica of a volume waits for the long timeout.
\<close>

section \<open>Frames\<close>

lemma length_le_bytes [simp]: "length (le_bytes n v) = n"
  by (induction n arbitrary: v) auto

lemma le_value_bytes: "le_value (le_bytes n v) = v mod 256 ^ n"
proof (induction n arbitrary: v)
  case (Suc n)
  have "v mod 256 ^ Suc n = v mod 256 + 256 * ((v div 256) mod 256 ^ n)"
    by (simp add: mod_mult2_eq mult.commute)
  then show ?case using Suc by (simp add: unsigned_of_nat take_bit_eq_mod)
qed simp

lemma unat_bound: "unat (w :: 'a :: len word) < 2 ^ LENGTH('a)"
  by (rule unsigned_less)

lemma le_value_word16: "le_value (le_bytes 2 (unat (w :: u16))) = unat w"
  using unat_bound [of w] by (simp add: le_value_bytes)

lemma le_value_word32: "le_value (le_bytes 4 (unat (w :: u32))) = unat w"
  using unat_bound [of w] by (simp add: le_value_bytes)

lemma le_value_word64: "le_value (le_bytes 8 (unat (w :: u64))) = unat w"
  using unat_bound [of w] by (simp add: le_value_bytes)

lemmas le_value_words = le_value_word16 le_value_word32 le_value_word64

lemma length_Wire_header [simp]: "length (Wire_header msg) = 26"
  by (simp add: Wire_header_def)

lemma Wire_header_Cons [simp]: "Wire_header msg \<noteq> []"
  by (metis length_Wire_header list.size(3) zero_neq_numeral)

lemma header_fields:
  "field (Wire_header msg) 0 2 = unat (m_Magic msg)"
  "field (Wire_header msg) 2 4 = unat (m_Seq msg)"
  "field (Wire_header msg) 6 4 = unat (m_Type msg)"
  "field (Wire_header msg) 10 8 = unat (word_of_int (m_Offset msg) :: u64)"
  "field (Wire_header msg) 18 4 = unat (m_Size msg)"
  "field (Wire_header msg) 22 4 = unat (of_nat (length (m_Data msg)) :: u32)"
  by (simp_all add: field_def Wire_header_def le_value_words)

text \<open>A message as the client and the server send it.\<close>

definition sendable :: "Message \<Rightarrow> bool" where
  "sendable msg \<longleftrightarrow> m_Magic msg = MagicVersion \<and> length (m_Data msg) < 2 ^ 32 \<and>
     - (2 ^ 63) \<le> m_Offset msg \<and> m_Offset msg < 2 ^ 63 \<and> m_transportErr msg = None"

lemma sint_offset: "- (2 ^ 63) \<le> x \<Longrightarrow> x < 2 ^ 63 \<Longrightarrow> sint (word_of_int x :: u64) = x"
  using i64_id [of x] by (simp add: i64_def)

lemma Wire_Read_Write:
  assumes "sendable msg"
  shows "Wire_Read (Wire_Write msg @ rest) = Inr (msg, rest)"
proof -
  have hdr: "ReadFull getRequestHeaderSize (Wire_Write msg @ rest) = Inr (Wire_header msg, m_Data msg @ rest)"
    by (simp add: ReadFull_def Wire_Write_def getRequestHeaderSize_def)
  have len: "unat (of_nat (length (m_Data msg)) :: u32) = length (m_Data msg)"
    using assms by (simp add: sendable_def unat_of_nat take_bit_nat_eq_self)
  have off: "sint (word_of_int (m_Offset msg) :: u64) = m_Offset msg"
    using assms by (simp add: sendable_def sint_offset)
  have data: "ReadFull (length (m_Data msg)) (m_Data msg @ rest) = Inr (m_Data msg, rest)"
    by (simp add: ReadFull_def)
  have whole: "\<lparr>m_Magic = MagicVersion, m_Seq = m_Seq msg, m_Type = m_Type msg, m_Offset = m_Offset msg,
      m_Size = m_Size msg, m_Data = m_Data msg, m_transportErr = None\<rparr> = msg"
    using assms by (simp add: sendable_def)
  have "m_Magic msg = MagicVersion" using assms by (simp add: sendable_def)
  then show ?thesis
    unfolding Wire_Read_def hdr
    by (cases "m_Data msg = []") (use whole in \<open>simp_all add: header_fields len off data Let_def\<close>)
qed

fun read_frames :: "nat \<Rightarrow> byte list \<Rightarrow> go_error + Message list \<times> byte list" where
  "read_frames 0 s = Inr ([], s)"
| "read_frames (Suc n) s =
     (case Wire_Read s of
        Inl e \<Rightarrow> Inl e
      | Inr (m, s') \<Rightarrow> (case read_frames n s' of Inl e \<Rightarrow> Inl e | Inr (ms, s'') \<Rightarrow> Inr (m # ms, s'')))"

text \<open>
  C16: Messages written to a connection one after the other are read back as the same messages in the
  same order, and what follows them on the stream is left untouched.
\<close>

theorem frames_round_trip:
  assumes "list_all sendable ms"
  shows "read_frames (length ms) (concat (map Wire_Write ms) @ rest) = Inr (ms, rest)"
  using assms by (induction ms) (auto simp: Wire_Read_Write)

definition ping_message :: Message where
  "ping_message = zero_message\<lparr>m_Magic := MagicVersion, m_Seq := 7, m_Type := TypePing\<rparr>"

definition write_message :: Message where
  "write_message = zero_message\<lparr>m_Magic := MagicVersion, m_Seq := 8, m_Type := TypeWrite, m_Offset := 4096,
     m_Size := 3, m_Data := [1, 2, 3]\<rparr>"

theorem frames_round_trip_witness:
  "list_all sendable [ping_message, write_message] \<and>
   read_frames 2 (Wire_Write ping_message @ Wire_Write write_message @ [9]) = Inr ([ping_message, write_message], [9])"
proof -
  have s: "list_all sendable [ping_message, write_message]"
    by (simp add: sendable_def ping_message_def write_message_def zero_message_def)
  then show ?thesis using frames_round_trip [OF s, of "[9]"] by (simp del: read_frames.simps add: numeral_2_eq_2)
qed

text \<open>
  C22: A connection that is closed inside a frame is never read as a message: every proper prefix of a
  frame gives an error, and the plain end of file only between two frames.
\<close>

theorem truncated_frame_fails:
  assumes "sendable msg" "n < length (Wire_Write msg)"
  shows "(\<exists>e. Wire_Read (take n (Wire_Write msg)) = Inl e) \<and>
         (Wire_Read (take n (Wire_Write msg)) = Inl EOF \<longleftrightarrow> n = 0)"
proof (cases "n < 26")
  case True
  then have "ReadFull getRequestHeaderSize (take n (Wire_Write msg)) =
      Inl (if n = 0 then EOF else ErrUnexpectedEOF)"
    using assms(2) by (auto simp: ReadFull_def getRequestHeaderSize_def Wire_Write_def)
  moreover have "take n (Wire_Write msg) = [] \<longleftrightarrow> n = 0" using assms(2) by auto
  ultimately show ?thesis by (auto simp: Wire_Read_def)
next
  case False
  let ?s = "take n (Wire_Write msg)"
  have d: "0 < length (m_Data msg)" "Wire_Write msg = Wire_header msg @ m_Data msg"
    using False assms(2) by (auto simp: Wire_Write_def split: if_splits)
  have s: "?s = Wire_header msg @ take (n - 26) (m_Data msg)" using False d by simp
  have hdr: "ReadFull getRequestHeaderSize ?s = Inr (Wire_header msg, take (n - 26) (m_Data msg))"
    using s by (simp add: ReadFull_def getRequestHeaderSize_def)
  have len: "unat (of_nat (length (m_Data msg)) :: u32) = length (m_Data msg)"
    using assms(1) by (simp add: sendable_def unat_of_nat take_bit_nat_eq_self)
  have short: "n - 26 < length (m_Data msg)" using assms(2) d False by simp
  then obtain e where e: "ReadFull (length (m_Data msg)) (take (n - 26) (m_Data msg)) = Inl e"
    by (cases "take (n - 26) (m_Data msg) = []") (auto simp: ReadFull_def)
  show ?thesis
    using assms(1) False d(1) unfolding Wire_Read_def hdr
    by (simp add: header_fields len e sendable_def Let_def)
qed

theorem truncated_frame_fails_witness:
  "sendable write_message \<and> 27 < length (Wire_Write write_message) \<and>
   (\<exists>e. Wire_Read (take 27 (Wire_Write write_message)) = Inl e)"
proof -
  have s: "sendable write_message" "27 < length (Wire_Write write_message)"
    by (simp_all add: sendable_def Wire_Write_def write_message_def zero_message_def)
  then show ?thesis using truncated_frame_fails [OF s] by simp
qed

text \<open>
  C23: The notification a stopping server writes carries no version, so the peer cannot read it: it is
  reported as a message of a wrong version, whatever follows it on the stream.
\<close>

theorem close_message_unreadable:
  "Wire_Read (Wire_Write close_message @ rest) = Inl (Err ''wrong API version received'')"
proof -
  have hdr: "ReadFull getRequestHeaderSize (Wire_Write close_message @ rest) = Inr (Wire_header close_message, rest)"
    by (simp add: ReadFull_def Wire_Write_def getRequestHeaderSize_def close_message_def zero_message_def)
  show ?thesis unfolding Wire_Read_def hdr
    by (simp add: header_fields close_message_def zero_message_def MagicVersion_def)
qed

end
