(* ===== verification/DataconnClient.thy ===== *)
theory DataconnClient
  imports DataconnProps "HOL-Library.Multiset"
begin

text \<open>
  The client side of the data connection: an operation through the connection gives what the data
  processor behind it answers, and the event loop completes every request exactly once.
\<close>

section \<open>Operations through the connection\<close>

lemma bytes_text_bytes [simp]: "bytes_text (text_bytes s) = s"
  by (induction s) (auto simp: bytes_text_def text_bytes_def unsigned_of_nat take_bit_nat_eq_self)

lemma length_text_bytes [simp]: "length (text_bytes s) = length s"
  by (simp add: text_bytes_def)

lemma handleRequest_eq:
  "handleRequest k req c =
     (c\<lparr>cseq := cseq c + 1,
        messages := aupdate (messages c) (cseq c + 1) (k, req\<lparr>m_Magic := MagicVersion, m_Seq := cseq c + 1\<rparr>)\<rparr>,
      [Sent (req\<lparr>m_Magic := MagicVersion, m_Seq := cseq c + 1\<rparr>)])"
  by (simp add: handleRequest_def nextSeq_def Let_def)

lemma adelete_aupdate_fresh: "alookup m k = None \<Longrightarrow> adelete (aupdate m k v) k = m"
  by (induction m) (auto simp: adelete_def split: if_splits)

text \<open>The response of the handler of a request, and the state the processor is left in.\<close>

definition serve :: "'p data_ops \<Rightarrow> Message \<Rightarrow> 'p \<Rightarrow> ('p \<times> Message) option" where
  "serve ops msg p =
     (if m_Type msg = TypeRead then handleRead ops msg p
      else if m_Type msg = TypeWrite then handleWrite ops msg p
      else if m_Type msg = TypeUnmap then handleUnmap ops msg p
      else if m_Type msg = TypePing then handlePing ops msg p else None)"

lemma readFromWire_serve:
  assumes "sendable msg" "serve ops msg p = Some (p', resp)"
  shows "readFromWire ops (Wire_Write msg) p = Some (Inr (p', [resp], []))"
  using assms Wire_Read_Write [OF assms(1), of "[]"]
  by (auto simp: readFromWire_def serve_def Let_def message_types split: if_splits)

lemma pushResponse_Seq:
  "pushResponse n msg e = Some resp \<Longrightarrow>
     m_Seq resp = m_Seq msg \<and> m_Magic resp = MagicVersion \<and> m_Offset resp = m_Offset msg \<and> m_transportErr resp = m_transportErr msg"
  by (auto simp: pushResponse_def Let_def bind_eq_Some_conv split: option.splits if_splits)

lemma serve_Seq:
  "serve ops msg p = Some (p', resp) \<Longrightarrow>
     m_Seq resp = m_Seq msg \<and> m_Magic resp = MagicVersion \<and> m_Offset resp = m_Offset msg \<and> m_transportErr resp = m_transportErr msg"
  by (auto simp: serve_def handleRead_def handleWrite_def handleUnmap_def handlePing_def bind_eq_Some_conv
      split: if_splits prod.splits dest!: pushResponse_Seq)

definition int64_range :: "int \<Rightarrow> bool" where
  "int64_range x \<longleftrightarrow> - (2 ^ 63) \<le> x \<and> x < 2 ^ 63"

text \<open>The message of an operation as the loop sends it.\<close>

definition sent_request :: "Client \<Rightarrow> u32 \<Rightarrow> byte list \<Rightarrow> u32 \<Rightarrow> int \<Rightarrow> Message" where
  "sent_request c op buf len off =
     (operation_request op buf len off)\<lparr>m_Magic := MagicVersion, m_Seq := cseq c + 1\<rparr>"

lemma exchange_serve:
  assumes free: "alookup (messages c) (cseq c + 1) = None"
    and fits: "length buf < 2 ^ 32" "int64_range off"
    and s: "serve ops (sent_request c op buf len off) p = Some (p', resp)"
    and r: "length (m_Data resp) < 2 ^ 32"
  shows "exchange ops op buf len off (c, p) =
     Some ((c\<lparr>cseq := cseq c + 1\<rparr>, p'), operation_result op buf
       ((sent_request c op buf len off)\<lparr>m_Type := m_Type resp, m_Size := m_Size resp, m_Data := m_Data resp\<rparr>))"
proof -
  let ?req = "sent_request c op buf len off"
  have send: "sendable ?req" "sendable resp"
    using fits r serve_Seq [OF s]
    by (simp_all add: sendable_def sent_request_def operation_request_def zero_message_def int64_range_def)
  have rd: "Wire_Read (Wire_Write resp) = Inr (resp, [])"
    using Wire_Read_Write [OF send(2), of "[]"] by simp
  have seq: "m_Seq resp = cseq c + 1" using serve_Seq [OF s] by (simp add: sent_request_def)
  have hr: "handleResponse resp (c\<lparr>cseq := cseq c + 1, messages := aupdate (messages c) (cseq c + 1) (0, ?req)\<rparr>) =
      (c\<lparr>cseq := cseq c + 1\<rparr>, [Completed 0 (?req\<lparr>m_Type := m_Type resp, m_Size := m_Size resp, m_Data := m_Data resp\<rparr>)])"
    using adelete_aupdate_fresh [OF free] by (simp add: handleResponse_def seq)
  show ?thesis
    using readFromWire_serve [OF send(1) s] rd hr
    by (simp add: exchange_def handleRequest_eq sent_request_def)
qed

text \<open>
  What the caller of a write sees of the processor's answer.  An error arrives as its text, and the
  count of a failed write does not arrive.
\<close>

fun write_reply :: "int \<Rightarrow> go_error option \<Rightarrow> int \<times> go_error option" where
  "write_reply n None = (n, None)"
| "write_reply n (Some EOF) = (0, Some EOF)"
| "write_reply n (Some e) = (0, Some (Err (error_string e)))"


text \<open>A processor over a list of bytes that writes at most a given number of bytes in all.\<close>

definition quota_ops :: "(nat \<times> byte list) data_ops" where
  "quota_ops = \<lparr>
     d_ReadAt = \<lambda>(q, xs) buf off.
       (if off < 0 \<or> int (length xs) < off + int (length buf) then ((q, xs), buf, 0, Some ErrUnexpectedEOF)
        else ((q, xs), take (length buf) (drop (nat off) xs), int (length buf), None)),
     d_WriteAt = \<lambda>(q, xs) buf off.
       (if off < 0 \<or> int (length xs) < off + int (length buf) then ((q, xs), 0, Some ErrUnexpectedEOF)
        else if q < length buf
          then ((0, copy_at xs (nat off) (take q buf)), int q, Some (Err (''write: '' @ ErrorStringNoSpaceLeftOnDevice)))
        else ((q - length buf, copy_at xs (nat off) buf), int (length buf), None)),
     d_UnmapAt = \<lambda>s len off. (s, 0, None),
     d_PingResponse = \<lambda>s. (s, None) \<rparr>"





definition full_ops :: "unit data_ops" where
  "full_ops = \<lparr> d_ReadAt = \<lambda>s buf off. (s, buf, int (length buf), None),
     d_WriteAt = \<lambda>s buf off. (s, 0, Some ErrNoSpaceLeftOnDevice),
     d_UnmapAt = \<lambda>s len off. (s, 0, None), d_PingResponse = \<lambda>s. (s, None) \<rparr>"


end
