(* ===== verification/DataconnLoop.thy ===== *)
theory DataconnLoop
  imports DataconnClient
begin

text \<open>
  The event loop of the data connection's client: its invariant, and that a request is completed
  exactly once whatever the order of responses, transport errors and timeouts.
\<close>

section \<open>Requests and completions\<close>

fun asked :: "client_in list \<Rightarrow> caller list" where
  "asked [] = []"
| "asked (CEnd # es) = []"
| "asked (CRequest k now req # es) = k # asked es"
| "asked (CTick now # es) = asked es"
| "asked (CResponse now resp # es) = asked es"

fun completed :: "client_out list \<Rightarrow> caller list" where
  "completed [] = []"
| "completed (Sent m # os) = completed os"
| "completed (Completed k m # os) = k # completed os"

definition pending :: "Client \<Rightarrow> caller list" where
  "pending c = map (\<lambda>(s, k, m). k) (messages c)"

lemma completed_append [simp]: "completed (xs @ ys) = completed xs @ completed ys"
  by (induction xs rule: completed.induct) auto

text \<open>
  The invariant after \<open>n\<close> accepted requests: sequence numbers are those drawn so far, each pending
  message carries its own, nothing is pending after an error, and the count of requests in flight
  is that of the pending reads, writes and unmaps.
\<close>

definition loop_inv :: "nat \<Rightarrow> Client \<Rightarrow> bool" where
  "loop_inv n c \<longleftrightarrow> adistinct (messages c) \<and> unat (cseq c) = n \<and>
     list_all (\<lambda>(s, k, m). m_Seq m = s \<and> unat s \<le> n) (messages c) \<and>
     (clientError c \<noteq> None \<longrightarrow> messages c = []) \<and>
     ioInflight c = int (length (filter (\<lambda>(s, k, m). is_io m) (messages c)))"

lemma reply_all_eq:
  assumes "list_all (\<lambda>(s, k, m). m_Seq m = s) ms"
  shows "\<exists>out. reply_all ms err c = (c\<lparr>messages := filter (\<lambda>x. fst x \<notin> fst ` set ms) (messages c)\<rparr>, out) \<and>
     completed out = map (\<lambda>(s, k, m). k) ms"
  using assms
proof (induction ms arbitrary: c)
  case Nil
  then show ?case by simp
next
  case (Cons x ms)
  obtain s k m where x: "x = (s, k, m)" by (cases x)
  let ?c = "c\<lparr>messages := adelete (messages c) s\<rparr>"
  obtain out where o: "reply_all ms err ?c = (?c\<lparr>messages := filter (\<lambda>x. fst x \<notin> fst ` set ms) (messages ?c)\<rparr>, out)"
    "completed out = map (\<lambda>(s, k, m). k) ms"
    using Cons.IH [of ?c] Cons.prems by auto
  have "filter (\<lambda>x. fst x \<notin> fst ` set ms) (adelete (messages c) s) =
      filter (\<lambda>y. fst y \<notin> fst ` set (x # ms)) (messages c)"
    unfolding adelete_def filter_filter x by (rule filter_cong) auto
  then show ?case using o Cons.prems x by (simp add: replyError_def split_beta)
qed

lemma handleClientError_eq:
  assumes "list_all (\<lambda>(s, k, m). m_Seq m = s) (messages c)"
  shows "\<exists>out. handleClientError err c =
     (c\<lparr>clientError := Some err, messages := [], ioInflight := 0, timeOfLastActivity := None\<rparr>, out) \<and>
     completed out = pending c"
proof -
  obtain out where o: "reply_all (messages c) err (c\<lparr>clientError := Some err\<rparr>) =
      (c\<lparr>clientError := Some err, messages := filter (\<lambda>x. fst x \<notin> fst ` set (messages c)) (messages c)\<rparr>, out)"
    "completed out = map (\<lambda>(s, k, m). k) (messages c)"
    using reply_all_eq [OF assms, of err "c\<lparr>clientError := Some err\<rparr>"] by auto
  have "filter (\<lambda>x. fst x \<notin> fst ` set (messages c)) (messages c) = []"
    by (simp add: filter_empty_conv)
  then show ?thesis using o by (simp add: handleClientError_def pending_def)
qed

lemma error_step:
  assumes "loop_inv n c" "handleClientError err c = (c', out)"
  shows "loop_inv n c' \<and> completed out = pending c \<and> pending c' = [] \<and> ended c' = ended c"
proof -
  have "list_all (\<lambda>(s, k, m). m_Seq m = s) (messages c)"
    using assms(1) by (auto simp: loop_inv_def list_all_iff)
  then show ?thesis using handleClientError_eq [of c err] assms by (auto simp: loop_inv_def pending_def)
qed

lemma filter_adelete:
  assumes "adistinct ms" "alookup ms s = Some v"
  shows "length (filter P ms) = length (filter P (adelete ms s)) + (if P (s, v) then 1 else 0)"
    "mset ms = add_mset (s, v) (mset (adelete ms s))"
proof -
  show m: "mset ms = add_mset (s, v) (mset (adelete ms s))"
    using assms
  proof (induction ms)
    case (Cons x ms)
    obtain k w where x: "x = (k, w)" by (cases x)
    show ?case
    proof (cases "k = s")
      case True
      then have "s \<notin> fst ` set ms" using Cons.prems(1) x by (simp add: adistinct_def)
      then have "filter (\<lambda>(k', _). k' \<noteq> s) ms = ms" by (force simp: filter_id_conv)
      then show ?thesis using True Cons.prems(2) x by (simp add: adelete_def)
    next
      case False
      then show ?thesis using Cons x by (simp add: adistinct_def adelete_def)
    qed
  qed simp
  then have "size (filter_mset P (mset ms)) = size (filter_mset P (add_mset (s, v) (mset (adelete ms s))))" by simp
  then show "length (filter P ms) = length (filter P (adelete ms s)) + (if P (s, v) then 1 else 0)"
    by (simp flip: mset_filter)
qed

lemma remove_step:
  assumes inv: "loop_inv n c" and l: "alookup (messages c) s = Some (k, m)"
  shows "mset (pending c) = add_mset k (mset (pending (c\<lparr>messages := adelete (messages c) s\<rparr>)))"
    "loop_inv n (c\<lparr>messages := adelete (messages c) s,
       ioInflight := ioInflight c - (if is_io m then 1 else 0), timeOfLastActivity := tm\<rparr>)"
proof -
  have d: "adistinct (messages c)" using inv by (simp add: loop_inv_def)
  show "mset (pending c) = add_mset k (mset (pending (c\<lparr>messages := adelete (messages c) s\<rparr>)))"
    using filter_adelete(2) [OF d l] by (simp add: pending_def)
  have "adelete (messages c) s = []" if "messages c = []" using that by (simp add: adelete_def)
  moreover have "list_all P (adelete (messages c) s)" if "list_all P (messages c)" for P
    using that by (auto simp: adelete_def list_all_iff)
  ultimately show "loop_inv n (c\<lparr>messages := adelete (messages c) s,
       ioInflight := ioInflight c - (if is_io m then 1 else 0), timeOfLastActivity := tm\<rparr>)"
    using inv filter_adelete(1) [OF d l, of "\<lambda>(s, k, m). is_io m"] by (auto simp: loop_inv_def)
qed

lemma accept_step:
  assumes inv: "loop_inv n c" and n: "Suc n < 2 ^ 32" and e: "clientError c = None"
    and hr: "handleRequest k req (c\<lparr>timeOfLastActivity := tm, ioInflight := ioInflight c + (if is_io req then 1 else 0)\<rparr>) = (c', out)"
  shows "loop_inv (Suc n) c' \<and> completed out = [] \<and> mset (pending c') = add_mset k (mset (pending c))"
proof -
  let ?s = "cseq c + 1" and ?req = "req\<lparr>m_Magic := MagicVersion, m_Seq := cseq c + 1\<rparr>"
  have s: "unat ?s = Suc n"
    using inv n by (simp add: loop_inv_def unat_word_ariths(1))
  have fresh: "?s \<notin> fst ` set (messages c)"
    using inv s by (fastforce simp: loop_inv_def list_all_iff)
  have c': "c' = c\<lparr>cseq := ?s, messages := messages c @ [(?s, k, ?req)],
      ioInflight := ioInflight c + (if is_io req then 1 else 0), timeOfLastActivity := tm\<rparr>" "out = [Sent ?req]"
  proof -
    have "aupdate ms ?s v = ms @ [(?s, v)]" if "?s \<notin> fst ` set ms" for ms and v :: "caller \<times> Message"
      using that by (induction ms) auto
    with fresh have "aupdate (messages c) ?s (k, ?req) = messages c @ [(?s, k, ?req)]" by blast
    then show "c' = c\<lparr>cseq := ?s, messages := messages c @ [(?s, k, ?req)],
      ioInflight := ioInflight c + (if is_io req then 1 else 0), timeOfLastActivity := tm\<rparr>" "out = [Sent ?req]"
      using hr by (auto simp: handleRequest_eq)
  qed
  have io: "is_io ?req = is_io req" by (simp add: is_io_def)
  show ?thesis
    using inv s fresh e by (auto simp: loop_inv_def c' pending_def io adistinct_def list_all_iff intro: le_SucI)
qed

text \<open>A step moves requests from asked to pending to completed and loses none.\<close>

fun asked_now :: "client_in \<Rightarrow> caller list" where
  "asked_now (CRequest k now req) = [k]"
| "asked_now e = []"

lemma loop_step_conserves:
  assumes inv: "loop_inv n c" and n: "Suc n < 2 ^ 32" and live: "\<not> ended c"
    and st: "loop_step e (t, c) = (t', c', out)"
  shows "\<exists>n' \<le> Suc n. loop_inv n' c' \<and>
     mset (pending c) + mset (asked_now e) = mset (completed out) + mset (pending c') \<and> (ended c' \<longleftrightarrow> e = CEnd)"
proof (cases e)
  case CEnd
  then show ?thesis using assms by (intro exI [of _ n]) (auto simp: loop_inv_def pending_def)
next
  case (CTick now)
  show ?thesis
  proof (cases "\<exists>d. handleClientError ErrRWTimeout (c\<lparr>decremented := True\<rparr>) = d \<and> c' = fst d \<and> out = snd d")
    case True
    then have h: "handleClientError ErrRWTimeout (c\<lparr>decremented := True\<rparr>) = (c', out)" by auto
    have i: "loop_inv n (c\<lparr>decremented := True\<rparr>)" using inv by (simp add: loop_inv_def)
    show ?thesis using error_step [OF i h] live CTick by (intro exI [of _ n]) (auto simp: pending_def)
  next
    case False
    then have "c' = c" "out = []" using st live CTick
      by (auto simp: Let_def split: option.splits if_splits prod.splits)
    then show ?thesis using inv live CTick by (intro exI [of _ n]) auto
  qed
next
  case (CRequest k now req)
  show ?thesis
  proof (cases "clientError c")
    case None
    let ?tm = "if is_io req \<and> ioInflight c = 0 then Some now else timeOfLastActivity c"
    have "handleRequest k req (c\<lparr>timeOfLastActivity := ?tm, ioInflight := ioInflight c + (if is_io req then 1 else 0)\<rparr>) = (c', out)"
      using st live None CRequest by (cases "is_io req") (auto simp: Let_def split: prod.splits)
    moreover from this have "\<not> ended c'" using live by (auto simp: handleRequest_eq)
    ultimately show ?thesis using accept_step [OF inv n None, of k req ?tm c' out] CRequest
      by (intro exI [of _ "Suc n"]) auto
  next
    case (Some err)
    then have m: "messages c = []" using inv by (simp add: loop_inv_def)
    then have "c' = c" "completed out = [k]"
      using st live Some CRequest by (auto simp: replyError_def adelete_def)
    then show ?thesis using inv live CRequest by (intro exI [of _ n]) auto
  qed
next
  case (CResponse now resp)
  consider (err) x where "m_transportErr resp = Some x"
    | (none) "m_transportErr resp = None" "alookup (messages c) (m_Seq resp) = None"
    | (hit) k req where "m_transportErr resp = None" "alookup (messages c) (m_Seq resp) = Some (k, req)"
    by (cases "m_transportErr resp"; cases "alookup (messages c) (m_Seq resp)") auto
  then show ?thesis
  proof cases
    case err
    then have h: "handleClientError x c = (c', out)" using st live CResponse by (auto split: prod.splits)
    show ?thesis using error_step [OF inv h] live CResponse by (intro exI [of _ n]) auto
  next
    case none
    then show ?thesis using st live inv CResponse by (intro exI [of _ n]) auto
  next
    case hit
    have ce: "clientError c = None" using inv hit(2) by (auto simp: loop_inv_def)
    let ?tm = "if is_io req then Some now else timeOfLastActivity c"
    have "c' = c\<lparr>messages := adelete (messages c) (m_Seq resp), ioInflight := ioInflight c - (if is_io req then 1 else 0),
        timeOfLastActivity := ?tm\<rparr>" "completed out = [k]"
      using st live hit ce CResponse by (cases "is_io req"; simp add: handleResponse_def; force)+
    then show ?thesis
      using remove_step(1) [OF inv hit(2)] remove_step(2) [OF inv hit(2), of ?tm] live CResponse
      by (intro exI [of _ n]) (auto simp: pending_def)
  qed
qed

lemma loop_ended: "ended c \<Longrightarrow> loop_run es (t, c) = (t, c, [])"
proof (induction es)
  case (Cons e es)
  then show ?case by (cases e) auto
qed simp

lemma loop_run_conserves:
  assumes "loop_inv n c" "n + length es < 2 ^ 32" "\<not> ended c" "loop_run es (t, c) = (t', c', out)"
  shows "mset (pending c) + mset (asked es) = mset (completed out) + mset (pending c')"
  using assms
proof (induction es arbitrary: n t c out)
  case (Cons e es)
  obtain t1 c1 o1 where s: "loop_step e (t, c) = (t1, c1, o1)" by (metis prod.exhaust)
  obtain o2 where r: "loop_run es (t1, c1) = (t', c', o2)" "out = o1 @ o2"
    using Cons.prems(4) s by (auto split: prod.splits)
  obtain n' where st: "n' \<le> Suc n" "loop_inv n' c1"
    "mset (pending c) + mset (asked_now e) = mset (completed o1) + mset (pending c1)" "ended c1 \<longleftrightarrow> e = CEnd"
    using loop_step_conserves [OF Cons.prems(1) _ Cons.prems(3) s] Cons.prems(2) by auto
  show ?case
  proof (cases "e = CEnd")
    case True
    then show ?thesis using st r loop_ended [of c1 es t1] by simp
  next
    case False
    then have "mset (pending c1) + mset (asked es) = mset (completed o2) + mset (pending c')"
      using Cons.IH [OF st(2) _ _ r(1)] st(1,4) Cons.prems(2) by auto
    moreover have "asked (e # es) = asked_now e @ asked es" using False by (cases e) auto
    ultimately show ?thesis using st(3) r(2)
      by (simp add: ac_simps)
  qed
qed simp

text \<open>
  C14: Whatever the order of requests, responses, transport errors, timeouts and the close, every
  request handed to the client's loop is completed exactly once or still pending, as long as the
  32-bit sequence numbers do not wrap.
\<close>

theorem requests_complete_once:
  assumes "length es < 2 ^ 32" "loop es t = (t', c, out)"
  shows "mset (asked es) = mset (completed out) + mset (pending c)"
proof -
  have "loop_inv 0 new_client" by (simp add: loop_inv_def new_client_def)
  from loop_run_conserves [OF this _ _ assms(2) [unfolded loop_def]] assms(1) show ?thesis
    by (simp add: new_client_def pending_def)
qed

definition example_events :: "client_in list" where
  "example_events =
     [CRequest 1 100 (operation_request TypePing [] 0 0),
      CRequest 2 110 (operation_request TypeUnmap [] 4096 0),
      CResponse 120 (zero_message\<lparr>m_Seq := 2, m_Type := TypeResponse\<rparr>),
      CResponse 130 (zero_message\<lparr>m_transportErr := Some EOF\<rparr>),
      CRequest 3 140 (operation_request TypePing [] 0 0)]"

theorem requests_complete_once_witness:
  "length example_events < 2 ^ 32 \<and>
   mset (asked example_events) =
     mset (completed (snd (snd (loop example_events (NewSharedTimeouts 8 16))))) +
     mset (pending (fst (snd (loop example_events (NewSharedTimeouts 8 16))))) \<and>
   completed (snd (snd (loop example_events (NewSharedTimeouts 8 16)))) = [2, 1, 3]"
proof -
  have l: "length example_events < 2 ^ 32" by (simp add: example_events_def)
  obtain t c out where r: "loop example_events (NewSharedTimeouts 8 16) = (t, c, out)" by (metis prod.exhaust)
  have "completed (snd (snd (loop example_events (NewSharedTimeouts 8 16)))) = [2, 1, 3]" by code_simp
  then show ?thesis using requests_complete_once [OF l r] l r by simp
qed

section \<open>Shared timeouts\<close>


end
