(* ===== verification/ReplicatorLemmas.thy ===== *)
theory ReplicatorLemmas
  imports Replicator
begin

text \<open>
  The lemmas on the replicator: what a request does to the map of backends, that the index maps
  enumerate the backends that serve it, and the outcome of reads, writes and expansions.
\<close>

section \<open>Requests to the live backends\<close>

definition live_addrs :: "'b backend_map \<Rightarrow> string list" where
  "live_addrs bs = map fst (filter (\<lambda>(a, w). wmode w \<noteq> ERR) bs)"

definition rw_addrs :: "'b backend_map \<Rightarrow> string list" where
  "rw_addrs bs = map fst (filter (\<lambda>(a, w). wmode w = RW) bs)"

text \<open>Only a backend in mode \<^term>\<open>ERR\<close> may be nil.\<close>

definition backed :: "'b backend_map \<Rightarrow> bool" where
  "backed bs \<longleftrightarrow> list_all (\<lambda>(a, w). wmode w \<noteq> ERR \<longrightarrow> wbackend w \<noteq> None) bs"

definition touch :: "('b \<Rightarrow> 'b \<times> 'r) \<Rightarrow> 'b backendWrapper \<Rightarrow> 'b backendWrapper" where
  "touch f w = w\<lparr>wbackend := map_option (\<lambda>b. fst (f b)) (wbackend w)\<rparr>"

definition touch_live :: "('b \<Rightarrow> 'b \<times> 'r) \<Rightarrow> 'b backend_map \<Rightarrow> 'b backend_map" where
  "touch_live f bs = map (\<lambda>(a, w). (a, if wmode w = ERR then w else touch f w)) bs"

definition answers :: "('b \<Rightarrow> 'b \<times> 'r) \<Rightarrow> 'b backend_map \<Rightarrow> (string \<times> 'r) list" where
  "answers f bs = map (\<lambda>(a, w). (a, snd (f (the (wbackend w))))) (filter (\<lambda>(a, w). wmode w \<noteq> ERR) bs)"

lemma touch_sel [simp]:
  "wmode (touch f w) = wmode w" "wbackend (touch f w) = map_option (\<lambda>b. fst (f b)) (wbackend w)"
  by (simp_all add: touch_def)

lemma each_backend_eq:
  "backed bs \<Longrightarrow> each_backend f bs = Some (touch_live f bs, answers f bs)"
proof (induction bs)
  case (Cons x bs)
  obtain a w where x: "x = (a, w)" by (cases x)
  show ?case
  proof (cases "wmode w = ERR")
    case True
    then show ?thesis using Cons x by (simp add: backed_def touch_live_def answers_def)
  next
    case False
    then obtain b where "wbackend w = Some b" using Cons.prems x by (auto simp: backed_def)
    then show ?thesis using Cons x False
      by (simp add: backed_def touch_live_def answers_def touch_def split_beta)
  qed
qed (simp add: touch_live_def answers_def)

lemma alookup_append_skip: "a \<notin> fst ` set pre \<Longrightarrow> alookup (pre @ bs) a = alookup bs a"
  by (induction pre) auto

lemma aupdate_append_skip: "a \<notin> fst ` set pre \<Longrightarrow> aupdate (pre @ bs) a v = pre @ aupdate bs a v"
  by (induction pre) auto

lemma run_at_live_gen:
  "adistinct (pre @ bs) \<Longrightarrow> backed bs \<Longrightarrow>
     run_at (live_addrs bs) f (pre @ bs) = Some (pre @ touch_live f bs, map snd (answers f bs))"
proof (induction bs arbitrary: pre)
  case (Cons x bs)
  obtain a w where x: "x = (a, w)" by (cases x)
  have a: "a \<notin> fst ` set pre" using Cons.prems(1) x by (auto simp: adistinct_def)
  show ?case
  proof (cases "wmode w = ERR")
    case True
    then show ?thesis using Cons.IH [of "pre @ [x]"] Cons.prems x
      by (simp add: backed_def live_addrs_def touch_live_def answers_def)
  next
    case False
    then obtain b where b: "wbackend w = Some b" using Cons.prems(2) x by (auto simp: backed_def)
    let ?y = "(a, touch f w)"
    have "call_at a f (pre @ x # bs) = Some (pre @ ?y # bs, snd (f b))"
      using a b x by (simp add: call_at_def alookup_append_skip aupdate_append_skip touch_def split_beta)
    moreover have "run_at (live_addrs bs) f ((pre @ [?y]) @ bs) =
        Some ((pre @ [?y]) @ touch_live f bs, map snd (answers f bs))"
      using Cons.prems x by (intro Cons.IH) (auto simp: adistinct_def backed_def)
    ultimately show ?thesis using False b x
      by (simp add: live_addrs_def touch_live_def answers_def)
  qed
qed (simp add: live_addrs_def touch_live_def answers_def)

lemma run_at_live:
  "adistinct bs \<Longrightarrow> backed bs \<Longrightarrow>
     run_at (live_addrs bs) f bs = Some (touch_live f bs, map snd (answers f bs))"
  using run_at_live_gen [of "[]" bs f] by simp

text \<open>A request changes neither the addresses nor the modes.\<close>

lemma keys_touch_live [simp]: "map fst (touch_live f bs) = map fst bs"
  by (simp add: touch_live_def case_prod_unfold comp_def)

lemma adistinct_touch_live [simp]: "adistinct (touch_live f bs) = adistinct bs"
  by (simp add: adistinct_def)

lemma alookup_touch_live:
  "alookup (touch_live f bs) a =
     map_option (\<lambda>w. if wmode w = ERR then w else touch f w) (alookup bs a)"
  by (induction bs) (auto simp: touch_live_def)

lemma live_addrs_touch_live [simp]: "live_addrs (touch_live f bs) = live_addrs bs"
  by (induction bs) (auto simp: live_addrs_def touch_live_def split: if_splits)

lemma rw_addrs_touch_live [simp]: "rw_addrs (touch_live f bs) = rw_addrs bs"
  by (induction bs) (auto simp: rw_addrs_def touch_live_def split: if_splits)

lemma backed_touch_live [simp]: "backed (touch_live f bs) = backed bs"
  by (induction bs) (auto simp: backed_def touch_live_def)

lemma fst_answers [simp]: "map fst (answers f bs) = live_addrs bs"
  by (simp add: answers_def live_addrs_def case_prod_unfold comp_def)

lemma length_answers [simp]: "length (answers f bs) = length (live_addrs bs)"
  by (simp add: answers_def live_addrs_def)

lemma set_live_addrs: "adistinct bs \<Longrightarrow> a \<in> set (live_addrs bs) \<longleftrightarrow> (\<exists>w. alookup bs a = Some w \<and> wmode w \<noteq> ERR)"
  by (force simp: live_addrs_def alookup_mem_iff [symmetric])

lemma set_rw_addrs: "adistinct bs \<Longrightarrow> a \<in> set (rw_addrs bs) \<longleftrightarrow> (\<exists>w. alookup bs a = Some w \<and> wmode w = RW)"
  by (force simp: rw_addrs_def alookup_mem_iff [symmetric])

lemma distinct_live_addrs: "adistinct bs \<Longrightarrow> distinct (live_addrs bs)"
  by (simp add: adistinct_def live_addrs_def distinct_map_filter)

lemma distinct_rw_addrs: "adistinct bs \<Longrightarrow> distinct (rw_addrs bs)"
  by (simp add: adistinct_def rw_addrs_def distinct_map_filter)

lemma rw_live: "set (rw_addrs bs) \<subseteq> set (live_addrs bs)"
  by (auto simp: rw_addrs_def live_addrs_def)

lemma answers_lookup:
  "adistinct bs \<Longrightarrow> alookup bs a = Some w \<Longrightarrow> wmode w \<noteq> ERR \<Longrightarrow>
     alookup (answers f bs) a = Some (snd (f (the (wbackend w))))"
  by (induction bs) (auto simp: answers_def adistinct_def split: if_splits)

lemma answers_lookup_None:
  "adistinct bs \<Longrightarrow> a \<notin> set (live_addrs bs) \<Longrightarrow> alookup (answers f bs) a = None"
  by (metis alookup_None_iff fst_answers set_map)

lemma backedD: "backed bs \<Longrightarrow> alookup bs a = Some w \<Longrightarrow> wmode w \<noteq> ERR \<Longrightarrow> \<exists>b. wbackend w = Some b"
  by (auto simp: backed_def list_all_iff dest: alookup_in_set)

section \<open>The index maps\<close>

definition numbered :: "string list \<Rightarrow> (int \<times> string) list" where
  "numbered as = zip (map int [0..<length as]) as"

lemma aupdate_fresh: "k \<notin> fst ` set m \<Longrightarrow> aupdate m k v = m @ [(k, v)]"
  by (induction m) auto

lemma keys_numbered: "fst ` set (numbered as) = int ` {0..<length as}"
proof -
  have "fst ` set (numbered as) = set (map fst (numbered as))" by simp
  also have "map fst (numbered as) = map int [0..<length as]" by (simp add: numbered_def)
  finally show ?thesis by simp
qed

lemma numbered_snoc: "aupdate (numbered as) (int (length as)) a = numbered (as @ [a])"
proof -
  have "int (length as) \<notin> fst ` set (numbered as)" by (auto simp: keys_numbered)
  then show ?thesis by (simp add: aupdate_fresh numbered_def)
qed

lemma adistinct_numbered: "adistinct (numbered as)"
  by (simp add: adistinct_def numbered_def distinct_map)

lemma index_at_numbered: "i < length as \<Longrightarrow> index_at (numbered as) (int i) = as ! i"
proof -
  assume "i < length as"
  then have "(int i, as ! i) \<in> set (numbered as)" by (force simp: numbered_def set_zip)
  then have "alookup (numbered as) (int i) = Some (as ! i)"
    using alookup_mem_iff [OF adistinct_numbered] by blast
  then show ?thesis by (simp add: index_at_def)
qed

definition indices_of :: "string list \<Rightarrow> string list \<Rightarrow> indices" where
  "indices_of rs ws = \<lparr> ix_readers = rs, ix_writers = ws, ix_unmappers = ws, ix_readerIndex = numbered rs,
     ix_writerIndex = numbered ws, ix_unmapperIndex = numbered ws \<rparr>"

lemma build_loop_eq:
  "build_loop bs (indices_of rs ws) = indices_of (rs @ rw_addrs bs) (ws @ live_addrs bs)"
proof (induction bs arbitrary: rs ws)
  case (Cons x bs)
  obtain a w where x: "x = (a, w)" by (cases x)
  show ?case
    using Cons.IH [of "rs @ [a]" "ws @ [a]"] Cons.IH [of rs "ws @ [a]"] Cons.IH [of rs ws] x
    by (cases "wmode w") (simp_all add: indices_of_def numbered_snoc rw_addrs_def live_addrs_def)
qed (simp add: indices_of_def rw_addrs_def live_addrs_def)

definition built :: "'b replicator \<Rightarrow> bool" where
  "built r \<longleftrightarrow>
     readers r = rw_addrs (backends r) \<and> readerIndex r = numbered (rw_addrs (backends r)) \<and>
     rwriter r = Some (live_addrs (backends r)) \<and> writerIndex r = numbered (live_addrs (backends r)) \<and>
     runmapper r = Some (live_addrs (backends r)) \<and> unmapperIndex r = numbered (live_addrs (backends r)) \<and>
     (backendsAvailable r \<longleftrightarrow> rw_addrs (backends r) \<noteq> [])"

text \<open>The state between requests: built, or empty before the first backend and after a close.\<close>

definition rep_ok :: "'b replicator \<Rightarrow> bool" where
  "rep_ok r \<longleftrightarrow> adistinct (backends r) \<and> 0 \<le> rnext r \<and>
     (built r \<or> backends r = [] \<and> \<not> backendsAvailable r)"

lemma build_backends [simp]:
  "backends (buildReaderWriterUnmappers r) = backends r" "rnext (buildReaderWriterUnmappers r) = rnext r"
  by (simp_all add: buildReaderWriterUnmappers_def reset_def Let_def)

lemma built_build: "built (buildReaderWriterUnmappers r)"
proof -
  have "build_loop (backends r) (indices_of [] []) = indices_of (rw_addrs (backends r)) (live_addrs (backends r))"
    using build_loop_eq [of "backends r" "[]" "[]"] by simp
  then show ?thesis
    by (simp add: built_def buildReaderWriterUnmappers_def reset_def indices_of_def Let_def numbered_def)
qed

lemma rep_ok_build: "adistinct (backends r) \<Longrightarrow> 0 \<le> rnext r \<Longrightarrow> rep_ok (buildReaderWriterUnmappers r)"
  by (simp add: rep_ok_def built_build)

lemma rep_okD:
  assumes "rep_ok r"
  shows "adistinct (backends r)" "0 \<le> rnext r" "backendsAvailable r \<Longrightarrow> built r"
    "backendsAvailable r \<longleftrightarrow> rw_addrs (backends r) \<noteq> []"
  using assms by (auto simp: rep_ok_def built_def rw_addrs_def)

text \<open>A change of backend states alone keeps the index maps.\<close>

lemma rep_ok_states:
  assumes "rep_ok r" "live_addrs bs = live_addrs (backends r)" "rw_addrs bs = rw_addrs (backends r)"
    "map fst bs = map fst (backends r)" "0 \<le> k"
  shows "rep_ok (r\<lparr>rnext := k, backends := bs\<rparr>)"
  using assms by (auto simp: rep_ok_def built_def adistinct_def)

lemma rep_ok_touch: "rep_ok r \<Longrightarrow> rep_ok (r\<lparr>backends := touch_live f (backends r)\<rparr>)"
  using rep_ok_states [of r "touch_live f (backends r)" "rnext r"] by (simp add: rep_ok_def built_def)

lemma call_at_Some:
  "call_at a f bs = Some (bs', x) \<longleftrightarrow>
     (\<exists>w b. alookup bs a = Some w \<and> wbackend w = Some b \<and> bs' = aupdate bs a (touch f w) \<and> x = snd (f b))"
  by (auto simp: call_at_def touch_def split_beta split: option.splits)

lemma aupdate_same_mode:
  assumes "alookup bs a = Some w" "wmode w' = wmode w"
  shows "map fst (aupdate bs a w') = map fst bs" "live_addrs (aupdate bs a w') = live_addrs bs"
    "rw_addrs (aupdate bs a w') = rw_addrs bs"
  using assms by (induction bs) (auto simp: live_addrs_def rw_addrs_def split: if_splits)

lemma call_at_addrs:
  assumes "call_at a f bs = Some (bs', x)"
  shows "map fst bs' = map fst bs" "live_addrs bs' = live_addrs bs" "rw_addrs bs' = rw_addrs bs"
proof -
  obtain w where "alookup bs a = Some w" "bs' = aupdate bs a (touch f w)"
    using assms by (auto simp: call_at_Some)
  then show "map fst bs' = map fst bs" "live_addrs bs' = live_addrs bs" "rw_addrs bs' = rw_addrs bs"
    using aupdate_same_mode [of bs a w "touch f w"] by auto
qed

lemma rep_ok_call:
  "rep_ok r \<Longrightarrow> call_at a f (backends r) = Some (bs', x) \<Longrightarrow> rep_ok (r\<lparr>backends := bs'\<rparr>)"
  using rep_ok_states [of r bs' "rnext r"] call_at_addrs [of a f "backends r" bs' x]
  by (simp add: rep_ok_def built_def)

section \<open>Writes\<close>

lemma writers_result_eq:
  "writers_result es l (n, failed) =
     (if list_ex (\<lambda>e. e = None) es then l else n, failed \<or> list_ex (\<lambda>e. e \<noteq> None) es)"
  by (induction es l "(n, failed)" arbitrary: n failed rule: writers_result.induct) auto

text \<open>The errors of a parallel write by address, in the order of the writers.\<close>

definition failed_at :: "string list \<Rightarrow> go_error option list \<Rightarrow> (string \<times> go_error) list" where
  "failed_at as es = failures (zip as es)"

definition wrote_at :: "string list \<Rightarrow> go_error option list \<Rightarrow> int list \<Rightarrow> (string \<times> int) list" where
  "wrote_at as es ws = map (\<lambda>(a, e, w). (a, w)) (filter (\<lambda>(a, e, w). e \<noteq> None) (zip as (zip es ws)))"

lemma failures_simps [simp]:
  "failures [] = []" "failures ((a, None) # rs) = failures rs" "failures ((a, Some e) # rs) = (a, e) # failures rs"
  by (simp_all add: failures_def)

lemma failures_Nil_iff: "failures rs = [] \<longleftrightarrow> list_all (\<lambda>(a, e). e = None) rs"
  by (induction rs) (auto simp: failures_def split: option.splits)

lemma length_failures_le: "length (failures rs) \<le> length rs"
  by (induction rs) (auto simp: failures_def split: option.splits)

lemma length_failures_less: "length (failures rs) < length rs \<longleftrightarrow> list_ex (\<lambda>(a, e). e = None) rs"
proof (induction rs)
  case (Cons x rs)
  show ?case using Cons length_failures_le [of rs] by (cases x; cases "snd x") auto
qed simp

lemma alookup_failures:
  "alookup (failures rs) a = (case alookup rs a of Some e \<Rightarrow> e | None \<Rightarrow> None)" if "adistinct rs" for rs
  using that
proof (induction rs)
  case (Cons x rs)
  obtain b e where x: "x = (b, e)" by (cases x)
  have ih: "alookup (failures rs) a = (case alookup rs a of Some e \<Rightarrow> e | None \<Rightarrow> None)"
    using Cons by (simp add: adistinct_def)
  have "alookup rs b = None" using Cons.prems x by (simp add: adistinct_def alookup_None_iff)
  then show ?case using ih x by (cases e) auto
qed simp

lemma keys_failures: "fst ` set (failures rs) \<subseteq> fst ` set rs"
  by (force simp: failures_def)

lemma attribute_errors_eq:
  "distinct (pre @ as) \<Longrightarrow> length es = length as \<Longrightarrow> length ws = length as \<Longrightarrow>
   fst ` set errors \<subseteq> set pre \<Longrightarrow> fst ` set wbs \<subseteq> set pre \<Longrightarrow>
     attribute_errors (numbered (pre @ as)) (int (length pre)) es ws errors wbs =
       (errors @ failed_at as es, wbs @ wrote_at as es ws)"
proof (induction as arbitrary: pre es ws errors wbs)
  case (Cons a as)
  obtain e es' w ws' where l: "es = e # es'" "ws = w # ws'"
    using Cons.prems by (cases es; cases ws) auto
  have i: "index_at (numbered (pre @ a # as)) (int (length pre)) = a"
    using index_at_numbered [of "length pre" "pre @ a # as"] by simp
  have fresh: "a \<notin> fst ` set errors" "a \<notin> fst ` set wbs" using Cons.prems(1,4,5) by auto
  have c: "int (length pre) + 1 = int (length (pre @ [a]))" by simp
  have ih: "attribute_errors (numbered (pre @ a # as)) (int (length pre) + 1) es' ws' errors' wbs' =
      (errors' @ failed_at as es', wbs' @ wrote_at as es' ws')"
    if "fst ` set errors' \<subseteq> set (pre @ [a])" "fst ` set wbs' \<subseteq> set (pre @ [a])" for errors' wbs'
    using Cons.IH [of "pre @ [a]" es' ws' errors' wbs'] Cons.prems l that unfolding c by simp
  show ?case
  proof (cases e)
    case None
    then show ?thesis using ih [of errors wbs] Cons.prems(4,5) l
      by (auto simp: failed_at_def wrote_at_def)
  next
    case (Some x)
    then show ?thesis
      using ih [of "errors @ [(a, x)]" "wbs @ [(a, w)]"] Cons.prems(4,5) l
        aupdate_fresh [OF fresh(1), of x] aupdate_fresh [OF fresh(2), of w] i
      by (auto simp: failed_at_def wrote_at_def)
  qed
qed (simp add: failed_at_def wrote_at_def)

text \<open>
  The outcome of a write: every live backend has taken the request, the count is the length of the
  buffer iff one of them succeeded, and the error lists exactly the backends that failed.
\<close>

definition write_answers :: "'b backend_ops \<Rightarrow> 'b backend_map \<Rightarrow> byte list \<Rightarrow> int \<Rightarrow> (string \<times> int \<times> go_error option) list" where
  "write_answers ops bs p off = answers (\<lambda>b. b_WriteAt ops b p off) bs"

definition write_failures :: "'b backend_ops \<Rightarrow> 'b backend_map \<Rightarrow> byte list \<Rightarrow> int \<Rightarrow> (string \<times> go_error) list" where
  "write_failures ops bs p off = failures (map (\<lambda>(a, n, e). (a, e)) (write_answers ops bs p off))"

definition write_counts :: "'b backend_ops \<Rightarrow> 'b backend_map \<Rightarrow> byte list \<Rightarrow> int \<Rightarrow> (string \<times> int) list" where
  "write_counts ops bs p off =
     map (\<lambda>(a, n, e). (a, n)) (filter (\<lambda>(a, n, e). e \<noteq> None) (write_answers ops bs p off))"

lemma zip_answers: "zip (map fst xs) (map (\<lambda>x. g (snd x)) xs) = map (\<lambda>(a, x). (a, g x)) xs"
  by (induction xs) auto

lemma wrote_at_answers:
  "wrote_at (map fst xs) (map (\<lambda>x. snd (snd x)) xs) (map (\<lambda>x. (\<lambda>(wn, err). if err \<noteq> None then wn else 0) (snd x)) xs) =
     map (\<lambda>(a, n, e). (a, n)) (filter (\<lambda>(a, n, e). e \<noteq> None) xs)"
  by (induction xs) (auto simp: wrote_at_def)

lemma WriteAt_outcome:
  assumes ok: "rep_ok r" "backendsAvailable r" "backed (backends r)"
    and fs_def: "fs = write_failures ops (backends r) p off"
  shows "WriteAt ops r p off =
     Some (r\<lparr>backends := touch_live (\<lambda>b. b_WriteAt ops b p off) (backends r)\<rparr>,
           if length fs < length (live_addrs (backends r)) then int (length p) else 0,
           if fs = [] then None else Some (BackendError fs (write_counts ops (backends r) p off)))"
proof -
  let ?f = "\<lambda>b. b_WriteAt ops b p off" and ?as = "live_addrs (backends r)"
  let ?rs = "answers ?f (backends r)"
  let ?es = "map (\<lambda>x. snd (snd x)) ?rs" and ?ws = "map (\<lambda>x. (\<lambda>(wn, err). if err \<noteq> None then wn else 0) (snd x)) ?rs"
  have b: "built r" "adistinct (backends r)" using rep_okD [OF ok(1)] ok(2) by auto
  have run: "run_at ?as ?f (backends r) = Some (touch_live ?f (backends r), map snd ?rs)"
    by (rule run_at_live [OF b(2) ok(3)])
  have keys: "?as = map fst ?rs" by simp
  have att: "attribute_errors (numbered ?as) 0 ?es ?ws [] [] = (failed_at ?as ?es, wrote_at ?as ?es ?ws)"
    using attribute_errors_eq [of "[]" ?as ?es ?ws "[]" "[]"] distinct_live_addrs [OF b(2)] by simp
  have fa: "failed_at ?as ?es = fs"
    unfolding failed_at_def keys zip_answers fs_def write_failures_def write_answers_def
    by (simp add: case_prod_unfold)
  have wa: "wrote_at ?as ?es ?ws = write_counts ops (backends r) p off"
    unfolding keys wrote_at_answers write_counts_def write_answers_def ..
  have len: "length fs < length ?as \<longleftrightarrow> list_ex (\<lambda>e. e = None) ?es"
    using length_failures_less [of "map (\<lambda>(a, n, e). (a, e)) ?rs"]
    by (simp add: fs_def write_failures_def write_answers_def list_ex_iff case_prod_unfold image_iff eq_commute [of None])
  have nil: "fs = [] \<longleftrightarrow> \<not> list_ex (\<lambda>e. e \<noteq> None) ?es"
    by (auto simp: fs_def write_failures_def write_answers_def failures_Nil_iff list_ex_iff list_all_iff case_prod_unfold)
  show ?thesis
    using ok(2) b(1) run att fa wa len nil
    by (auto simp: WriteAt_def MultiWriterAt_WriteAt_def built_def writers_result_eq comp_def Let_def)
qed

end
