(* ===== verification/ReplicatorData.thy ===== *)
theory ReplicatorData
  imports ReplicatorLemmas
begin

text \<open>
  The data the replicator stores.  \<open>agree\<close> says that every backend in mode \<^term>\<open>RW\<close> stores the same
  volume; under the contract of the backends a read returns bytes of that volume whenever one
  reader answers, and a write leaves the backends that reported no error with the new volume.
\<close>

section \<open>Agreement of the backends\<close>

definition holds_volume :: "('b \<Rightarrow> bool) \<Rightarrow> ('b \<Rightarrow> byte list) \<Rightarrow> byte list \<Rightarrow> 'b backendWrapper \<Rightarrow> bool" where
  "holds_volume good stored V w \<longleftrightarrow> (wmode w \<noteq> ERR \<longrightarrow>
     (case wbackend w of None \<Rightarrow> False
      | Some b \<Rightarrow> good b \<and> length (stored b) = length V \<and> (wmode w = RW \<longrightarrow> stored b = V)))"

definition agree :: "('b \<Rightarrow> bool) \<Rightarrow> ('b \<Rightarrow> byte list) \<Rightarrow> byte list \<Rightarrow> 'b backend_map \<Rightarrow> bool" where
  "agree good stored V bs \<longleftrightarrow> list_all (\<lambda>(a, w). holds_volume good stored V w) bs"

lemma agree_backed: "agree good stored V bs \<Longrightarrow> backed bs"
  by (auto simp: agree_def backed_def holds_volume_def list_all_iff split: option.splits)

lemma agreeD:
  assumes "agree good stored V bs" "alookup bs a = Some w" "wmode w \<noteq> ERR"
  shows "\<exists>b. wbackend w = Some b \<and> good b \<and> length (stored b) = length V \<and> (wmode w = RW \<longrightarrow> stored b = V)"
  using assms by (auto simp: agree_def list_all_iff holds_volume_def dest!: alookup_in_set split: option.splits)

lemma agreeI:
  "(\<And>a w. (a, w) \<in> set bs \<Longrightarrow> holds_volume good stored V w) \<Longrightarrow> agree good stored V bs"
  by (auto simp: agree_def list_all_iff)

lemma set_aupdate_subset: "set (aupdate bs a w) \<subseteq> insert (a, w) (set bs)"
  by (induction bs a w rule: aupdate.induct) auto

lemma agree_aupdate:
  "agree good stored V bs \<Longrightarrow> holds_volume good stored V w \<Longrightarrow> agree good stored V (aupdate bs a w)"
  using set_aupdate_subset [of bs a w] by (fastforce simp: agree_def list_all_iff)

lemma length_aupdate_le: "length (aupdate m k v) \<le> Suc (length m)"
  by (induction m k v rule: aupdate.induct) auto

section \<open>Reads\<close>

text \<open>What a run of the read loop leaves: the data of the volume, or an error for each reader tried.\<close>

definition read_done ::
  "('b \<Rightarrow> bool) \<Rightarrow> ('b \<Rightarrow> byte list) \<Rightarrow> byte list \<Rightarrow> string list \<Rightarrow> nat \<Rightarrow> nat \<Rightarrow> nat \<Rightarrow> nat \<Rightarrow> nat \<Rightarrow>
     'b backend_map \<Rightarrow> 'b backend_map \<Rightarrow> byte list \<Rightarrow> int \<Rightarrow> (string \<times> go_error) list \<Rightarrow> bool" where
  "read_done good stored V rs off len k i m bs bs' buf n errs \<longleftrightarrow>
     agree good stored V bs' \<and> map fst bs' = map fst bs \<and> live_addrs bs' = live_addrs bs \<and>
     rw_addrs bs' = rw_addrs bs \<and> length buf = len \<and>
     (buf = take len (drop off V) \<and> n = int len \<and> length errs < m + k \<or>
      (\<forall>j < k. rs ! ((i + j) mod length rs) \<in> fst ` set errs))"

context backend_contract
begin

lemma reader_answers:
  assumes "agree good stored V bs" "adistinct bs" "a \<in> set (rw_addrs bs)" "off + length buf \<le> length V"
  shows "\<exists>bs' buf' n e. call_at a (\<lambda>b. b_ReadAt ops b buf (int off)) bs = Some (bs', buf', n, e) \<and>
     agree good stored V bs' \<and> length buf' = length buf \<and>
     (e = None \<longrightarrow> buf' = take (length buf) (drop off V) \<and> n = int (length buf))"
proof -
  obtain w where w: "alookup bs a = Some w" "wmode w = RW" using assms(2,3) set_rw_addrs by blast
  then obtain b where b: "wbackend w = Some b" "good b" "stored b = V"
    using agreeD [OF assms(1)] by fastforce
  obtain b' q n e where r: "b_ReadAt ops b buf (int off) = (b', q, n, e)" by (metis prod.exhaust)
  have k: "good b'" "stored b' = V" "length q = length buf"
    using read_keeps [OF b(2) _ r] b(3) assms(4) by auto
  have ok: "e = None \<Longrightarrow> q = take (length buf) (drop off V) \<and> n = int (length buf)"
    using read_ok [of b off buf b' q n] b r assms(4) by auto
  let ?f = "\<lambda>b. b_ReadAt ops b buf (int off)"
  have "call_at a ?f bs = Some (aupdate bs a (touch ?f w), q, n, e)"
    using w(1) b(1) r by (auto simp: call_at_Some)
  moreover have "agree good stored V (aupdate bs a (touch ?f w))"
    using k b(1) r w(2) by (intro agree_aupdate [OF assms(1)]) (simp add: holds_volume_def)
  ultimately show ?thesis using ok k(3) by blast
qed

lemma ReadAt_loop_done:
  assumes "agree good stored V bs" "adistinct bs" "rw_addrs bs = rs" "off + length buf \<le> length V" "i < length rs"
  shows "\<exists>bs' buf' n' errs'.
     ReadAt_loop ops rs (numbered rs) (int off) k (int i) bs buf n errs = Some (bs', buf', n', errs') \<and>
     fst ` set errs \<subseteq> fst ` set errs' \<and> fst ` set errs' \<subseteq> fst ` set errs \<union> set rs \<and> (adistinct errs \<longrightarrow> adistinct errs') \<and>
     read_done good stored V rs off (length buf) k i (length errs) bs bs' buf' n' errs'"
  using assms
proof (induction k arbitrary: i bs buf n errs)
  case 0
  then show ?case by (simp add: read_done_def)
next
  case (Suc k)
  let ?a = "rs ! i" and ?m = "length rs"
  have a: "?a \<in> set (rw_addrs bs)" using Suc.prems(3,5) by simp
  obtain bs1 q n1 e where c: "call_at ?a (\<lambda>b. b_ReadAt ops b buf (int off)) bs = Some (bs1, q, n1, e)"
    "agree good stored V bs1" "length q = length buf"
    "e = None \<Longrightarrow> q = take (length buf) (drop off V) \<and> n1 = int (length buf)"
    using reader_answers [OF Suc.prems(1,2) a Suc.prems(4)] by blast
  note adr = call_at_addrs [OF c(1)]
  have ix: "go_nth rs (int i) = Some ?a" "index_at (numbered rs) (int i) = ?a"
    using Suc.prems(5) by (simp_all add: go_nth_def index_at_numbered)
  show ?case
  proof (cases e)
    case None
    then show ?thesis using c adr ix Suc.prems(1) by (auto simp: read_done_def)
  next
    case (Some x)
    let ?i = "(i + 1) mod ?m" and ?errs = "aupdate errs ?a x"
    have nx: "(int i + 1) smod int ?m = int ?i"
      using smod_int [of "i + 1" ?m] by (simp add: add.commute)
    have d1: "adistinct bs1" using Suc.prems(2) adr(1) by (simp add: adistinct_def)
    have len: "0 < ?m" "?i < ?m" using Suc.prems(5) by (auto intro: mod_less_divisor)
    obtain bs' buf' n' errs' where ih:
      "ReadAt_loop ops rs (numbered rs) (int off) k (int ?i) bs1 q n1 ?errs = Some (bs', buf', n', errs')"
      "fst ` set ?errs \<subseteq> fst ` set errs'" "fst ` set errs' \<subseteq> fst ` set ?errs \<union> set rs"
      "adistinct ?errs \<longrightarrow> adistinct errs'"
      "read_done good stored V rs off (length q) k ?i (length ?errs) bs1 bs' buf' n' errs'"
      using Suc.IH [of bs1 q ?i n1 ?errs] c(2,3) d1 adr Suc.prems(3,4) len by auto
    have run: "ReadAt_loop ops rs (numbered rs) (int off) (Suc k) (int i) bs buf n errs = Some (bs', buf', n', errs')"
      using ix c(1) Some nx ih(1) by simp
    have keys: "fst ` set ?errs = insert ?a (fst ` set errs)" by (rule keys_aupdate)
    have all: "rs ! ((i + j) mod ?m) \<in> fst ` set errs'"
      if "\<forall>j < k. rs ! ((?i + j) mod ?m) \<in> fst ` set errs'" "j < Suc k" for j
    proof (cases j)
      case 0
      then show ?thesis using keys ih(2) Suc.prems(5) by auto
    next
      case (Suc j')
      then have "rs ! ((?i + j') mod ?m) \<in> fst ` set errs'" using that by simp
      moreover have "(?i + j') mod ?m = (i + j) mod ?m" using Suc by (simp add: mod_add_left_eq)
      ultimately show ?thesis by simp
    qed
    have sub: "fst ` set errs \<subseteq> fst ` set errs'" "fst ` set errs' \<subseteq> fst ` set errs \<union> set rs"
      using ih(2,3) keys nth_mem [OF Suc.prems(5)] by auto
    have "length ?errs + k \<le> length errs + Suc k" using length_aupdate_le [of errs ?a x] by simp
    moreover note rd = ih(5) [unfolded read_done_def]
    ultimately have "buf' = take (length buf) (drop off V) \<and> n' = int (length buf) \<and> length errs' < length errs + Suc k \<or>
        (\<forall>j < Suc k. rs ! ((i + j) mod ?m) \<in> fst ` set errs')"
      using all c(3) by (elim conjE disjE) (simp, blast)
    then have "read_done good stored V rs off (length buf) (Suc k) i (length errs) bs bs' buf' n' errs'"
      using rd c(3) adr unfolding read_done_def by simp
    then show ?thesis using run sub ih(4) by auto
  qed
qed

text \<open>
  A read of the replicator: it never panics, keeps the volume and the membership, and fails as a
  whole only if every reader failed.
\<close>

lemma ReadAt_outcome:
  assumes ok: "rep_ok r" "backendsAvailable r" and ag: "agree good stored V (backends r)"
    and fits: "off + length buf \<le> length V"
  shows "\<exists>r' q n es. ReadAt ops r buf (int off) =
       Some (r', q, n, if es = [] then None else Some (BackendError es [])) \<and>
     rep_ok r' \<and> agree good stored V (backends r') \<and> map fst (backends r') = map fst (backends r) \<and>
     live_addrs (backends r') = live_addrs (backends r) \<and> rw_addrs (backends r') = rw_addrs (backends r) \<and>
     fst ` set es \<subseteq> set (rw_addrs (backends r)) \<and> adistinct es \<and> length q = length buf \<and>
     (q = take (length buf) (drop off V) \<and> n = int (length buf) \<or> fst ` set es = set (rw_addrs (backends r)))"
proof -
  let ?rs = "rw_addrs (backends r)"
  have b: "built r" "adistinct (backends r)" "?rs \<noteq> []" "0 \<le> rnext r"
    using rep_okD [OF ok(1)] ok(2) by auto
  define i where "i = (nat (rnext r) + 1) mod length ?rs"
  have i: "(rnext r + 1) smod int (length ?rs) = int i"
    using smod_int [of "nat (rnext r) + 1" "length ?rs"] b(4) by (simp add: i_def add.commute)
  have il: "i < length ?rs" using b(3) by (simp add: i_def)
  obtain bs' q n es where l:
    "ReadAt_loop ops ?rs (numbered ?rs) (int off) (length ?rs) (int i) (backends r) buf 0 [] = Some (bs', q, n, es)"
    "fst ` set es \<subseteq> set ?rs \<and> adistinct es"
    "read_done good stored V ?rs off (length buf) (length ?rs) i 0 (backends r) bs' q n es"
    using ReadAt_loop_done [OF ag b(2) refl fits il, of "length ?rs" 0 "[]"] by auto
  have all: "set ?rs \<subseteq> fst ` set es" if all: "\<forall>j < length ?rs. ?rs ! ((i + j) mod length ?rs) \<in> fst ` set es"
  proof
    fix a assume "a \<in> set ?rs"
    then obtain t where t: "t < length ?rs" "a = ?rs ! t" by (auto simp: in_set_conv_nth)
    let ?j = "(t + length ?rs - i) mod length ?rs"
    have "(i + ?j) mod length ?rs = (i + (t + length ?rs - i)) mod length ?rs" by (rule mod_add_right_eq)
    also have "\<dots> = t" using t(1) il by simp
    finally show "a \<in> fst ` set es" using all t b(3) by (metis length_greater_0_conv mod_less_divisor)
  qed
  have "ReadAt ops r buf (int off) = Some (r\<lparr>rnext := int i, backends := bs'\<rparr>, q, n,
      if es = [] then None else Some (BackendError es []))"
    using ok(2) b(1,3) i l(1) by (auto simp: ReadAt_def built_def Let_def)
  moreover have "rep_ok (r\<lparr>rnext := int i, backends := bs'\<rparr>)"
    using l(3) by (intro rep_ok_states [OF ok(1)]) (auto simp: read_done_def)
  ultimately show ?thesis
    using l(2,3) all unfolding read_done_def
    by (intro exI [of _ "r\<lparr>rnext := int i, backends := bs'\<rparr>"] exI [of _ q] exI [of _ n] exI [of _ es]) auto
qed

section \<open>Writes\<close>

text \<open>
  After a write the backends in mode \<^term>\<open>RW\<close> that are not among the failures store the new volume;
  every live backend keeps the size of the volume.
\<close>

lemma WriteAt_stored:
  assumes ok: "rep_ok r" and ag: "agree good stored V (backends r)"
    and fits: "off + length p \<le> length V"
    and w: "alookup (backends r) a = Some w" "wmode w \<noteq> ERR"
  shows "\<exists>w' b'. alookup (touch_live (\<lambda>b. b_WriteAt ops b p (int off)) (backends r)) a = Some w' \<and>
     wmode w' = wmode w \<and> wbackend w' = Some b' \<and> good b' \<and> length (stored b') = length V \<and>
     (wmode w = RW \<and> a \<notin> fst ` set (write_failures ops (backends r) p (int off)) \<longrightarrow> stored b' = copy_at V off p)"
proof -
  let ?f = "\<lambda>b. b_WriteAt ops b p (int off)"
  have d: "adistinct (backends r)" using rep_okD [OF ok] by simp
  obtain b where b: "wbackend w = Some b" "good b" "length (stored b) = length V" "wmode w = RW \<Longrightarrow> stored b = V"
    using agreeD [OF ag w] by auto
  obtain b' n e where r: "?f b = (b', n, e)" by (metis prod.exhaust)
  have l: "alookup (touch_live ?f (backends r)) a = Some (touch ?f w)"
    using w by (simp add: alookup_touch_live)
  have d': "adistinct (map (\<lambda>(a, n, e). (a, e)) (answers ?f (backends r)))"
    using distinct_live_addrs [OF d] fst_answers [of ?f "backends r"]
    by (simp add: adistinct_def case_prod_unfold comp_def)
  have an: "alookup (map (\<lambda>(a, n, e). (a, e)) xs) a = map_option snd (alookup xs a)" for xs :: "(string \<times> int \<times> go_error option) list"
    by (induction xs) auto
  have al: "alookup (write_failures ops (backends r) p (int off)) a = e"
    using answers_lookup [OF d w, of ?f] b(1) r
    by (simp add: write_failures_def write_answers_def alookup_failures [OF d'] an)
  have g: "good b' \<and> length (stored b') = length V" "e = None \<Longrightarrow> wmode w = RW \<Longrightarrow> stored b' = copy_at V off p"
    using write_ok [of b off p b' n] write_fail [of b off p b' n] b fits r by (cases e; force)+
  have "e = None" if "a \<notin> fst ` set (write_failures ops (backends r) p (int off))"
    using that al alookup_None_iff by metis
  then show ?thesis using l b(1) r g by (intro exI [of _ "touch ?f w"] exI [of _ b']) auto
qed

end

end
