(* ===== verification/ControllerErr.thy ===== *)
theory ControllerErr
  imports ReplicatorData Controller
begin

text \<open>
  How the controller takes replicas out of service: every error path sets a set of replicas to
  \<^term>\<open>ERR\<close>, in its own list and in the replicator, and nothing else.  From this follow the outcome of
  \<open>handleErrorNoLock\<close> and the choice of the replicas that are kept when disks are full.
\<close>

section \<open>Agreement of controller and replicator\<close>

definition modes :: "('b, 'fe) controller \<Rightarrow> (string \<times> Mode) list" where
  "modes c = map (\<lambda>r. (Address r, RMode r)) (creplicas c)"

definition ctl_ok :: "('b, 'fe) controller \<Rightarrow> bool" where
  "ctl_ok c \<longleftrightarrow> rep_ok (cbackend c) \<and> backed (backends (cbackend c)) \<and>
     modes c = map (\<lambda>(a, w). (a, wmode w)) (backends (cbackend c))"

definition down :: "'b backend_ops \<Rightarrow> 'b backendWrapper \<Rightarrow> 'b backendWrapper" where
  "down ops w = (if wmode w = ERR then w
     else w\<lparr>wmode := ERR, wbackend := map_option (b_StopMonitoring ops) (wbackend w)\<rparr>)"

definition down_all :: "'b backend_ops \<Rightarrow> string set \<Rightarrow> 'b backend_map \<Rightarrow> 'b backend_map" where
  "down_all ops A bs = map (\<lambda>(a, w). (a, if a \<in> A then down ops w else w)) bs"

definition down_replicas :: "string set \<Rightarrow> Replica list \<Rightarrow> Replica list" where
  "down_replicas A rs = map (\<lambda>r. if Address r \<in> A then r\<lparr>RMode := ERR\<rparr> else r) rs"

text \<open>The replicas of \<open>A\<close> have been set to \<^term>\<open>ERR\<close>.\<close>

definition took_down :: "'b backend_ops \<Rightarrow> string set \<Rightarrow> ('b, 'fe) controller \<Rightarrow> ('b, 'fe) controller \<Rightarrow> bool" where
  "took_down ops A c c' \<longleftrightarrow>
     (\<exists>r. c' = c\<lparr>creplicas := down_replicas A (creplicas c), cbackend := r\<rparr> \<and>
        backends r = down_all ops A (backends (cbackend c)) \<and> rep_ok r)"

lemma wmode_down [simp]: "wmode (down ops w) = ERR"
  by (simp add: down_def)

lemma down_down [simp]: "down ops (down ops w) = down ops w"
  by (simp add: down_def)

lemma down_all_empty [simp]: "down_all ops {} bs = bs"
  by (induction bs) (auto simp: down_all_def)

lemma down_all_down_all: "down_all ops B (down_all ops A bs) = down_all ops (A \<union> B) bs"
  by (induction bs) (auto simp: down_all_def)

lemma down_replicas_empty [simp]: "down_replicas {} rs = rs"
  by (simp add: down_replicas_def)

lemma down_replicas_twice: "down_replicas B (down_replicas A rs) = down_replicas (A \<union> B) rs"
  by (induction rs) (auto simp: down_replicas_def)

lemma keys_down_all [simp]: "map fst (down_all ops A bs) = map fst bs"
  by (simp add: down_all_def case_prod_unfold comp_def)

lemma alookup_down_all:
  "alookup (down_all ops A bs) a = map_option (\<lambda>w. if a \<in> A then down ops w else w) (alookup bs a)"
  by (induction bs) (auto simp: down_all_def)

lemma backed_down_all: "backed bs \<Longrightarrow> backed (down_all ops A bs)"
  by (induction bs) (auto simp: backed_def down_all_def split: if_splits)

lemma took_down_empty: "ctl_ok c \<Longrightarrow> took_down ops {} c c"
  unfolding took_down_def ctl_ok_def by (intro exI [of _ "cbackend c"]) simp

lemma took_down_trans:
  assumes "took_down ops A c c1" "took_down ops B c1 c2"
  shows "took_down ops (A \<union> B) c c2"
proof -
  obtain r1 r2 where r: "c1 = c\<lparr>creplicas := down_replicas A (creplicas c), cbackend := r1\<rparr>"
    "backends r1 = down_all ops A (backends (cbackend c))"
    "c2 = c1\<lparr>creplicas := down_replicas B (creplicas c1), cbackend := r2\<rparr>"
    "backends r2 = down_all ops B (backends (cbackend c1))" "rep_ok r2"
    using assms unfolding took_down_def by blast
  show ?thesis
    unfolding took_down_def
    by (rule exI [of _ r2]) (simp add: r down_all_down_all down_replicas_twice)
qed

lemma took_downD:
  assumes "took_down ops A c c'" "ctl_ok c"
  shows "ctl_ok c'" "creplicas c' = down_replicas A (creplicas c)"
    "backends (cbackend c') = down_all ops A (backends (cbackend c))"
    "csize c' = csize c" "isExpanding c' = isExpanding c" "modes c' = map (\<lambda>(a, m). (a, if a \<in> A then ERR else m)) (modes c)"
proof -
  obtain r where r: "c' = c\<lparr>creplicas := down_replicas A (creplicas c), cbackend := r\<rparr>"
    "backends r = down_all ops A (backends (cbackend c))" "rep_ok r"
    using assms(1) unfolding took_down_def by blast
  show m: "modes c' = map (\<lambda>(a, m). (a, if a \<in> A then ERR else m)) (modes c)"
    by (simp add: r modes_def down_replicas_def comp_def)
  have "modes c' = map (\<lambda>(a, w). (a, wmode w)) (backends r)"
    using assms(2) unfolding m by (simp add: ctl_ok_def r(2) down_all_def comp_def case_prod_unfold)
  then show "ctl_ok c'" using r assms(2) by (simp add: ctl_ok_def backed_down_all)
qed (use assms in \<open>auto simp: took_down_def\<close>)

lemma ctl_ok_mode:
  assumes "ctl_ok c" "alookup (backends (cbackend c)) a = Some w"
  shows "alookup (modes c) a = Some (wmode w)"
proof -
  have "alookup (map (\<lambda>(a, w). (a, wmode w)) bs) a = map_option wmode (alookup bs a)" for bs :: "'a backend_map"
    by (induction bs) auto
  then show ?thesis using assms by (simp add: ctl_ok_def)
qed

lemma modes_mode:
  assumes "ctl_ok c" "alookup (modes c) a = Some m"
  shows "\<exists>w. alookup (backends (cbackend c)) a = Some w \<and> wmode w = m"
proof -
  have "alookup (map (\<lambda>(a, w). (a, wmode w)) bs) a = map_option wmode (alookup bs a)" for bs :: "'a backend_map"
    by (induction bs) auto
  then show ?thesis using assms by (simp add: ctl_ok_def)
qed

lemma ctl_ok_distinct: "ctl_ok c \<Longrightarrow> distinct (map Address (creplicas c))"
proof -
  assume c: "ctl_ok c"
  have "map Address (creplicas c) = map fst (modes c)" by (simp add: modes_def comp_def)
  also have "\<dots> = map fst (backends (cbackend c))" using c by (simp add: ctl_ok_def case_prod_unfold comp_def)
  finally show ?thesis using c by (simp add: ctl_ok_def rep_ok_def adistinct_def)
qed

lemma adistinct_modes: "ctl_ok c \<Longrightarrow> adistinct (modes c)"
  using ctl_ok_distinct [of c] by (simp add: adistinct_def modes_def comp_def)

lemma mem_modes: "ctl_ok c \<Longrightarrow> i \<in> set (creplicas c) \<Longrightarrow> alookup (modes c) (Address i) = Some (RMode i)"
  using adistinct_modes [of c] alookup_mem_iff [of "modes c" "Address i" "RMode i"] by (force simp: modes_def)

section \<open>Setting modes\<close>

definition up_wrap :: "'b backend_ops \<Rightarrow> Mode \<Rightarrow> 'b backendWrapper \<Rightarrow> 'b backendWrapper" where
  "up_wrap ops m w = (if m = ERR then down ops w else w\<lparr>wmode := m\<rparr>)"

lemma SetMode_eq:
  assumes "rep_ok r" "alookup (backends r) a = Some w" "wbackend w = Some b" "wmode w \<noteq> ERR"
  shows "\<exists>r'. SetMode ops a m r = Some r' \<and> rep_ok r' \<and> backends r' = aupdate (backends r) a (up_wrap ops m w)"
proof -
  have d: "adistinct (backends r)" "0 \<le> rnext r" using rep_okD [OF assms(1)] by auto
  have aa: "aupdate (aupdate bs a x) a y = aupdate bs a y" for bs and x y :: "'a backendWrapper"
    by (induction bs) auto
  let ?bs = "aupdate (backends r) a (up_wrap ops m w)"
  have "SetMode ops a m r = Some (buildReaderWriterUnmappers (r\<lparr>backends := ?bs\<rparr>))"
    using assms(2-4) by (simp add: SetMode_def call_at_def aa up_wrap_def down_def)
  moreover have "rep_ok (buildReaderWriterUnmappers (r\<lparr>backends := ?bs\<rparr>))"
    using d by (intro rep_ok_build) simp_all
  ultimately show ?thesis by simp
qed

lemma set_mode_loop_miss:
  "list_all (\<lambda>i. Address i = a \<longrightarrow> RMode i = ERR) is \<Longrightarrow> set_mode_loop ops a m is r = Some (is, r)"
  by (induction "is") auto

lemma set_mode_loop_hit:
  assumes "distinct (map Address is)" "i \<in> set is" "Address i = a" "RMode i \<noteq> ERR" "SetMode ops a m r = Some r'"
  shows "set_mode_loop ops a m is r = Some (map (\<lambda>i. if Address i = a then i\<lparr>RMode := m\<rparr> else i) is, r')"
  using assms
proof (induction "is")
  case (Cons j js)
  show ?case
  proof (cases "Address j = a")
    case True
    then have "a \<notin> Address ` set js" using Cons.prems(1) by auto
    then have miss: "set_mode_loop ops a m js r' = Some (js, r')" and
      same: "map (\<lambda>i. if Address i = a then i\<lparr>RMode := m\<rparr> else i) js = js"
      by (auto intro!: set_mode_loop_miss map_idI simp: list_all_iff)
    have "j = i" using True Cons.prems by (auto simp: image_iff)
    then show ?thesis using True Cons.prems miss same by simp
  next
    case False
    then show ?thesis using Cons by auto
  qed
qed simp

lemma map_same_key: "adistinct bs \<Longrightarrow> alookup bs a = Some w \<Longrightarrow>
    aupdate bs a (f w) = map (\<lambda>(x, v). (x, if x = a then f v else v)) bs"
proof (induction bs)
  case (Cons y bs)
  obtain k v where y: "y = (k, v)" by (cases y)
  have "map (\<lambda>(x, v). (x, if x = a then f v else v)) bs = bs" if "k = a"
    using Cons.prems(1) y that by (auto intro!: map_idI simp: adistinct_def image_iff)
  then show ?case using Cons y by (auto simp: adistinct_def)
qed simp

text \<open>A replica that exists and is not \<^term>\<open>ERR\<close> changes its mode; otherwise nothing changes.\<close>

lemma setReplicaModeNoLock_down:
  assumes "ctl_ok c"
  shows "\<exists>c'. setReplicaModeNoLock ops a ERR c = Some c' \<and> took_down ops {a} c c'"
proof (cases "\<exists>i \<in> set (creplicas c). Address i = a \<and> RMode i \<noteq> ERR")
  case True
  then obtain i where i: "i \<in> set (creplicas c)" "Address i = a" "RMode i \<noteq> ERR" by blast
  then obtain w where w: "alookup (backends (cbackend c)) a = Some w" "wmode w = RMode i"
    using modes_mode [OF assms mem_modes [OF assms i(1)]] by auto
  obtain b where b: "wbackend w = Some b"
    using backedD [of "backends (cbackend c)" a w] assms w i(3) by (auto simp: ctl_ok_def)
  have rep: "rep_ok (cbackend c)" using assms by (simp add: ctl_ok_def)
  have "wmode w \<noteq> ERR" using w(2) i(3) by simp
  then obtain r' where r': "SetMode ops a ERR (cbackend c) = Some r'" "rep_ok r'"
    "backends r' = aupdate (backends (cbackend c)) a (down ops w)"
    using SetMode_eq [OF rep w(1) b, of ops ERR] by (auto simp: up_wrap_def)
  have bs: "backends r' = down_all ops {a} (backends (cbackend c))"
    using map_same_key [OF rep_okD(1) [OF rep] w(1), of "down ops"] r'(3) by (simp add: down_all_def)
  have rs: "map (\<lambda>i. if Address i = a then i\<lparr>RMode := ERR\<rparr> else i) (creplicas c) = down_replicas {a} (creplicas c)"
    by (auto simp: down_replicas_def)
  have "set_mode_loop ops a ERR (creplicas c) (cbackend c) = Some (down_replicas {a} (creplicas c), r')"
    using set_mode_loop_hit [OF ctl_ok_distinct [OF assms] i r'(1)] rs by simp
  then show ?thesis using r'(2) bs by (auto simp: setReplicaModeNoLock_def took_down_def)
next
  case False
  then have miss: "set_mode_loop ops a ERR (creplicas c) (cbackend c) = Some (creplicas c, cbackend c)"
    by (intro set_mode_loop_miss) (auto simp: list_all_iff)
  have rs: "down_replicas {a} (creplicas c) = creplicas c"
    using False by (auto simp: down_replicas_def intro!: map_idI)
  have "wmode w = ERR" if "(a, w) \<in> set (backends (cbackend c))" for w
  proof -
    have "(a, wmode w) \<in> set (modes c)" using assms that by (force simp: ctl_ok_def)
    then show ?thesis using False by (auto simp: modes_def)
  qed
  then have bs: "down_all ops {a} (backends (cbackend c)) = backends (cbackend c)"
    by (auto simp: down_all_def down_def intro!: map_idI)
  have "took_down ops {a} c c"
    unfolding took_down_def using assms by (intro exI [of _ "cbackend c"]) (simp add: rs bs ctl_ok_def)
  then show ?thesis using miss by (simp add: setReplicaModeNoLock_def)
qed

lemma set_modes_down:
  "ctl_ok c \<Longrightarrow> \<exists>c'. set_modes ops as ERR c = Some c' \<and> took_down ops (set as) c c'"
proof (induction as arbitrary: c)
  case Nil
  then show ?case using took_down_empty by auto
next
  case (Cons a as)
  obtain c1 where c1: "setReplicaModeNoLock ops a ERR c = Some c1" "took_down ops {a} c c1"
    using setReplicaModeNoLock_down [OF Cons.prems] by blast
  obtain c2 where c2: "set_modes ops as ERR c1 = Some c2" "took_down ops (set as) c1 c2"
    using Cons.IH [OF took_downD(1) [OF c1(2) Cons.prems]] by blast
  show ?case using c1 c2 took_down_trans [OF c1(2) c2(2)] by simp
qed

end
