(* ===== verification/ControllerSpace.thy ===== *)
theory ControllerSpace
  imports ControllerErr
begin

text \<open>
  What the controller does when the disks of replicas are full, and the outcome of its error
  handling as a whole.
\<close>

section \<open>The replicas that are kept\<close>

definition writers_of :: "(string \<times> int) list \<Rightarrow> int \<Rightarrow> string set" where
  "writers_of m wb = {a. (a, wb) \<in> set m}"

definition grouped :: "(int \<times> string list) list \<Rightarrow> (string \<times> int) list \<Rightarrow> bool" where
  "grouped g m \<longleftrightarrow> adistinct g \<and>
     (\<forall>wb as. alookup g wb = Some as \<longrightarrow> distinct as \<and> as \<noteq> [] \<and> set as = writers_of m wb) \<and>
     (\<forall>wb. alookup g wb = None \<longrightarrow> writers_of m wb = {})"

lemma grouped_add:
  assumes g: "grouped g m" and fresh: "a \<notin> fst ` set m"
  shows "grouped (aupdate g wb (case alookup g wb of None \<Rightarrow> [a] | Some as \<Rightarrow> List.insert a as)) (m @ [(a, wb)])"
proof -
  have w: "writers_of (m @ [(a, wb)]) v = (if v = wb then insert a (writers_of m v) else writers_of m v)" for v
    by (auto simp: writers_of_def)
  have "a \<notin> writers_of m wb" using fresh by (force simp: writers_of_def)
  then show ?thesis using g by (auto simp: grouped_def w split: option.splits if_splits)
qed

lemma group_loop_grouped:
  "grouped g m \<Longrightarrow> adistinct (m @ m') \<Longrightarrow> grouped (group_loop m' g) (m @ m')"
proof (induction m' arbitrary: g m)
  case (Cons x m')
  obtain a wb where x: "x = (a, wb)" by (cases x)
  have "a \<notin> fst ` set m" using Cons.prems(2) x by (auto simp: adistinct_def)
  from grouped_add [OF Cons.prems(1) this, of wb] show ?case
    using Cons.IH [of _ "m @ [x]"] Cons.prems(2) x by simp
qed simp

lemma max_loop_spec: "m \<le> max_loop m xs \<and> (\<forall>x \<in> set xs. x \<le> max_loop m xs) \<and> (max_loop m xs = m \<or> max_loop m xs \<in> set xs)"
proof (induction m xs rule: max_loop.induct)
  case (2 m wb wbs)
  then show ?case by (auto split: if_splits)
qed simp

lemma max_group_loop_spec:
  assumes "max_group_loop g (n, ws) = (n', ws')"
  shows "n \<le> n'" "\<And>wb as. (wb, as) \<in> set g \<Longrightarrow> length as \<le> n'"
    "\<And>wb as. (wb, as) \<in> set g \<Longrightarrow> length as = n' \<Longrightarrow> wb \<in> set ws'"
    "\<And>wb. wb \<in> set ws' \<Longrightarrow> wb \<in> set ws \<and> n' = n \<or> (\<exists>as. (wb, as) \<in> set g \<and> length as = n')"
    "n' = n \<Longrightarrow> set ws \<subseteq> set ws'" "n' = n \<or> (\<exists>wb as. (wb, as) \<in> set g \<and> length as = n')"
proof -
  have "n \<le> n' \<and> (\<forall>wb as. (wb, as) \<in> set g \<longrightarrow> length as \<le> n' \<and> (length as = n' \<longrightarrow> wb \<in> set ws')) \<and>
     (\<forall>wb. wb \<in> set ws' \<longrightarrow> wb \<in> set ws \<and> n' = n \<or> (\<exists>as. (wb, as) \<in> set g \<and> length as = n')) \<and>
     (n' = n \<longrightarrow> set ws \<subseteq> set ws') \<and> (n' = n \<or> (\<exists>wb as. (wb, as) \<in> set g \<and> length as = n'))"
    using assms
  proof (induction g arbitrary: n ws)
    case (Cons x g)
    obtain wb as where x: "x = (wb, as)" by (cases x)
    consider (more) "n < length as" | (same) "length as = n" | (less) "length as < n" by linarith
    then show ?case
    proof cases
      case more
      then have "max_group_loop g (length as, [wb]) = (n', ws')" using Cons.prems x by simp
      from Cons.IH [OF this] more x show ?thesis by (elim conjE) (intro conjI; auto; metis)
    next
      case same
      then have "max_group_loop g (n, ws @ [wb]) = (n', ws')" using Cons.prems x by simp
      from Cons.IH [OF this] same x show ?thesis by (elim conjE) (intro conjI; auto; metis)
    next
      case less
      then have "max_group_loop g (n, ws) = (n', ws')" using Cons.prems x by simp
      from Cons.IH [OF this] less x show ?thesis by (elim conjE) (intro conjI; auto; metis)
    qed
  qed simp
  then show "n \<le> n'" "\<And>wb as. (wb, as) \<in> set g \<Longrightarrow> length as \<le> n'"
    "\<And>wb as. (wb, as) \<in> set g \<Longrightarrow> length as = n' \<Longrightarrow> wb \<in> set ws'"
    "\<And>wb. wb \<in> set ws' \<Longrightarrow> wb \<in> set ws \<and> n' = n \<or> (\<exists>as. (wb, as) \<in> set g \<and> length as = n')"
    "n' = n \<Longrightarrow> set ws \<subseteq> set ws'" "n' = n \<or> (\<exists>wb as. (wb, as) \<in> set g \<and> length as = n')"
    by blast+
qed

text \<open>
  The kept replicas are the largest group that wrote the same number of bytes, of several such
  groups the one that wrote most.
\<close>

lemma getRetainedReplicasMap_spec:
  assumes d: "adistinct m" and ne: "m \<noteq> []" and pos: "\<forall>(a, wb) \<in> set m. 0 \<le> wb"
  shows "\<exists>wb. set (getRetainedReplicasMap m) = writers_of m wb \<and> writers_of m wb \<noteq> {} \<and>
     (\<forall>v. card (writers_of m v) \<le> card (writers_of m wb)) \<and>
     (\<forall>v. card (writers_of m v) = card (writers_of m wb) \<longrightarrow> v \<le> wb)"
proof -
  define g where "g = group_loop m []"
  have g: "grouped g m"
    using group_loop_grouped [of "[]" "[]" m] d by (simp add: g_def grouped_def writers_of_def)
  obtain n ws where r: "max_group_loop g (0, []) = (n, ws)" by (cases "max_group_loop g (0, [])")
  note spec = max_group_loop_spec [OF r]
  define mx where "mx = max_loop (- 1) ws"
  have mxs: "\<forall>x \<in> set ws. x \<le> mx" "mx = - 1 \<or> mx \<in> set ws" using max_loop_spec [of "- 1" ws] by (auto simp: mx_def)
  have dg: "adistinct g" using g by (simp add: grouped_def)
  have len: "card (writers_of m v) = length as" if "alookup g v = Some as" for v as
    using g that by (auto simp: grouped_def distinct_card [symmetric])
  obtain a wb where aw: "(a, wb) \<in> set m" using ne by (cases m) auto
  then obtain as where as: "alookup g wb = Some as" "as \<noteq> []"
    using g by (cases "alookup g wb") (auto simp: grouped_def writers_of_def)
  then have n0: "0 < n" using spec(2) [OF alookup_in_set [OF as(1)]] by (cases as) auto
  then obtain v bs where vb: "(v, bs) \<in> set g" "length bs = n" using spec(6) by blast
  have "v \<in> set ws" by (rule spec(3) [OF vb])
  moreover have "0 \<le> x" if xw: "x \<in> set ws" for x
  proof -
    obtain cs where cs: "(x, cs) \<in> set g" "length cs = n" using spec(4) [OF xw] n0 by auto
    then have "set cs = writers_of m x" "cs \<noteq> []" using g alookup_mem_iff [OF dg] by (auto simp: grouped_def)
    then obtain y where "(y, x) \<in> set m" by (cases cs) (auto simp: writers_of_def)
    then show ?thesis using pos by auto
  qed
  ultimately have mx: "mx \<in> set ws" using mxs by force
  then obtain cs where cs: "(mx, cs) \<in> set g" "length cs = n" using spec(4) n0 by force
  then have al: "alookup g mx = Some cs" using alookup_mem_iff [OF dg] by blast
  have ret: "getRetainedReplicasMap m = cs"
    using r al by (simp add: getRetainedReplicasMap_def g_def [symmetric] mx_def)
  have le: "card (writers_of m v) \<le> n \<and> (card (writers_of m v) = n \<longrightarrow> v \<le> mx)" for v
  proof (cases "alookup g v")
    case None
    then show ?thesis using g n0 by (simp add: grouped_def)
  next
    case (Some es)
    then have "(v, es) \<in> set g" by (rule alookup_in_set)
    then show ?thesis using spec(2,3) [of v es] len [OF Some] mxs(1) by auto
  qed
  have "set cs = writers_of m mx" "cs \<noteq> []" using g al by (auto simp: grouped_def)
  then show ?thesis using ret le len [OF al] cs(2) by (intro exI [of _ mx]) auto
qed

section \<open>Full disks\<close>

definition rw_of :: "('b, 'fe) controller \<Rightarrow> string list" where
  "rw_of c = map Address (filter (\<lambda>r. RMode r = RW) (creplicas c))"

definition wo_of :: "('b, 'fe) controller \<Rightarrow> string list" where
  "wo_of c = map Address (filter (\<lambda>r. RMode r = WO) (creplicas c))"

definition restricted :: "(string \<times> int) list \<Rightarrow> string list \<Rightarrow> (string \<times> int) list" where
  "restricted m as = [(a, wb). a \<leftarrow> as, (wb) \<leftarrow> (case alookup m a of None \<Rightarrow> [] | Some wb \<Rightarrow> [wb])]"

lemma restricted_Cons:
  "restricted m (a # as) = (case alookup m a of None \<Rightarrow> [] | Some wb \<Rightarrow> [(a, wb)]) @ restricted m as"
  by (simp add: restricted_def split: option.splits)

lemma restricted_Nil [simp]: "restricted m [] = []"
  by (simp add: restricted_def)

lemma set_restricted: "set (restricted m as) = {(a, wb). a \<in> set as \<and> alookup m a = Some wb}"
  by (auto simp: restricted_def split: option.splits)

lemma keys_restricted: "fst ` set (restricted m as) = set as \<inter> fst ` set m"
proof -
  have "a \<in> fst ` set m \<longleftrightarrow> (\<exists>wb. alookup m a = Some wb)" for a
    using alookup_None_iff [of m a] by (cases "alookup m a") auto
  then show ?thesis by (auto simp: set_restricted image_def)
qed

lemma distinct_restricted: "distinct as \<Longrightarrow> distinct (map fst (restricted m as))"
proof (induction as)
  case (Cons a as)
  have "a \<notin> fst ` set (restricted m as)" using Cons.prems by (auto simp: set_restricted)
  then show ?case using Cons by (auto simp: restricted_Cons split: option.splits)
qed simp

lemma length_restricted: "length (restricted m as) = length as \<longleftrightarrow> set as \<subseteq> fst ` set m"
proof (induction as)
  case (Cons a as)
  have le: "length (restricted m as) \<le> length as" for as
    by (induction as) (auto simp: restricted_Cons split: option.splits)
  show ?case using Cons le [of as] alookup_None_iff [of m a]
    by (auto simp: restricted_Cons split: option.splits)
qed simp

lemma categorize_loop_eq:
  assumes "distinct (map Address rs)" "fst ` set rwm \<inter> Address ` set rs = {}"
  shows "categorize_loop m rs (n, rwm, wol) =
     (n + length (filter (\<lambda>r. RMode r = RW) rs),
      rwm @ restricted m (map Address (filter (\<lambda>r. RMode r = RW) rs)),
      wol @ filter (\<lambda>a. a \<in> fst ` set m) (map Address (filter (\<lambda>r. RMode r = WO) rs)))"
  using assms
proof (induction rs arbitrary: n rwm wol)
  case (Cons r rs)
  have fresh: "Address r \<notin> fst ` set rwm" using Cons.prems(2) by auto
  have ih: "fst ` set (rwm @ [(Address r, wb)]) \<inter> Address ` set rs = {}" for wb
    using Cons.prems by auto
  have key: "Address r \<in> fst ` set m \<longleftrightarrow> alookup m (Address r) \<noteq> None" using alookup_None_iff [of m] by metis
  show ?case
    using Cons.IH [of "rwm @ [(Address r, the (alookup m (Address r)))]"] Cons.IH [of rwm] Cons.prems ih key
      aupdate_fresh [OF fresh]
    by (cases "RMode r"; cases "alookup m (Address r)") (auto simp: restricted_Cons)
qed simp

lemma categorize_eq:
  assumes "ctl_ok c"
  shows "categorizeOutOfSpaceReplicas m c =
     (length (rw_of c), restricted m (rw_of c), filter (\<lambda>a. a \<in> fst ` set m) (wo_of c))"
  using categorize_loop_eq [OF ctl_ok_distinct [OF assms], of "[]" m 0 "[]"]
  by (simp add: categorizeOutOfSpaceReplicas_def rw_of_def wo_of_def)

text \<open>The replicas taken down for a map of full disks, and whether all replicas in use are full.\<close>

definition space_victims :: "(string \<times> int) list \<Rightarrow> ('b, 'fe) controller \<Rightarrow> string set" where
  "space_victims m c =
     (let rwm = restricted m (rw_of c); wo = set (wo_of c) \<inter> fst ` set m
      in if set (rw_of c) \<subseteq> fst ` set m then
           (if length (rw_of c) = 1 then wo else wo \<union> (set (rw_of c) - set (getRetainedReplicasMap rwm)))
         else wo \<union> (set (rw_of c) \<inter> fst ` set m))"

lemma handleDiskNoSpace_eq:
  assumes "ctl_ok c" "m \<noteq> []"
  shows "\<exists>c'. handleDiskNoSpaceErrorForReplicas ops m c = Some (c', set (rw_of c) \<subseteq> fst ` set m) \<and>
     took_down ops (space_victims m c) c c'"
proof -
  let ?wol = "filter (\<lambda>a. a \<in> fst ` set m) (wo_of c)" and ?rwm = "restricted m (rw_of c)"
  have wol: "set ?wol = set (wo_of c) \<inter> fst ` set m" by auto
  obtain c1 where c1: "set_modes ops ?wol ERR c = Some c1" "took_down ops (set ?wol) c c1"
    using set_modes_down [OF assms(1)] by blast
  have ok1: "ctl_ok c1" by (rule took_downD(1) [OF c1(2) assms(1)])
  have more: "\<exists>c2. set_modes ops as ERR c1 = Some c2 \<and> took_down ops (set ?wol \<union> set as) c c2" for as
    using set_modes_down [OF ok1, of ops as] took_down_trans [OF c1(2)] by blast
  note simps = handleDiskNoSpaceErrorForReplicas_def categorize_eq [OF assms(1)] space_victims_def Let_def
  show ?thesis
  proof (cases "set (rw_of c) \<subseteq> fst ` set m")
    case full: True
    then have len: "length ?rwm = length (rw_of c)" using length_restricted by blast
    show ?thesis
    proof (cases "length (rw_of c) = 1")
      case True
      then show ?thesis using full len c1 assms(2) wol by (simp add: simps)
    next
      case False
      obtain c2 where c2: "set_modes ops (listReplicasToErrOnEnospc ?rwm) ERR c1 = Some c2"
        "took_down ops (set ?wol \<union> set (listReplicasToErrOnEnospc ?rwm)) c c2" using more by blast
      have "set (listReplicasToErrOnEnospc ?rwm) = set (rw_of c) - set (getRetainedReplicasMap ?rwm)"
        using keys_restricted [of m "rw_of c"] full by (auto simp: listReplicasToErrOnEnospc_def)
      then show ?thesis using full len False c1 c2 assms(2) wol by (simp add: simps)
    qed
  next
    case False
    then have len: "length ?rwm \<noteq> length (rw_of c)" using length_restricted by blast
    obtain c2 where c2: "set_modes ops (map fst ?rwm) ERR c1 = Some c2"
      "took_down ops (set ?wol \<union> set (map fst ?rwm)) c c2" using more by blast
    have "set (map fst ?rwm) = set (rw_of c) \<inter> fst ` set m" using keys_restricted [of m "rw_of c"] by simp
    then show ?thesis using False len c1 c2 assms(2) wol by (simp add: simps)
  qed
qed

section \<open>The outcome of error handling\<close>

text \<open>The classes of the errors of a request.\<close>

definition exist_errs :: "(string \<times> go_error) list \<Rightarrow> string set" where
  "exist_errs es = set (map fst (filter (\<lambda>(a, e). isSnapshotDiskExist e) es))"

definition space_err :: "go_error \<Rightarrow> bool" where
  "space_err e \<longleftrightarrow> \<not> isSnapshotDiskExist e \<and> Contains (error_string e) ErrorStringNoSpaceLeftOnDevice"

definition space_errs :: "(string \<times> int) list \<Rightarrow> (string \<times> go_error) list \<Rightarrow> (string \<times> int) list" where
  "space_errs wbs es = map (\<lambda>(a, e). (a, case alookup wbs a of Some n \<Rightarrow> n | None \<Rightarrow> 0)) (filter (\<lambda>(a, e). space_err e) es)"

definition hard_errs :: "(string \<times> go_error) list \<Rightarrow> string set" where
  "hard_errs es = set (map fst (filter (\<lambda>(a, e). \<not> isSnapshotDiskExist e \<and> \<not> space_err e) es))"

lemma errs_classes: "fst ` set es = exist_errs es \<union> fst ` set (space_errs wbs es) \<union> hard_errs es"
  by (force simp: exist_errs_def space_errs_def hard_errs_def space_err_def)

lemma classify_loop_eq:
  assumes "ctl_ok c" "adistinct es" "fst ` set ns \<inter> fst ` set es = {}"
  shows "\<exists>c' ex'. classify_loop ops wbs es (c, ex, ns) = Some (c', ex', ns @ space_errs wbs es) \<and>
     set ex' = set ex \<union> exist_errs es \<and> took_down ops (hard_errs es) c c'"
  using assms
proof (induction es arbitrary: c ex ns)
  case Nil
  then show ?case using took_down_empty by (auto simp: space_errs_def exist_errs_def hard_errs_def)
next
  case (Cons x es)
  obtain a e where x: "x = (a, e)" by (cases x)
  have d: "adistinct es" "fst ` set ns \<inter> fst ` set es = {}" "a \<notin> fst ` set ns" "a \<notin> fst ` set es"
    using Cons.prems(2,3) x by (auto simp: adistinct_def)
  consider (ex) "isSnapshotDiskExist e" | (sp) "space_err e" "\<not> isSnapshotDiskExist e"
    | (hard) "\<not> isSnapshotDiskExist e" "\<not> space_err e" by blast
  then show ?case
  proof cases
    case ex
    obtain c' ex' where ih: "classify_loop ops wbs es (c, List.insert a ex, ns) = Some (c', ex', ns @ space_errs wbs es)"
      "set ex' = set (List.insert a ex) \<union> exist_errs es" "took_down ops (hard_errs es) c c'"
      using Cons.IH [OF Cons.prems(1) d(1,2)] by blast
    have "hard_errs (x # es) = hard_errs es" "exist_errs (x # es) = {a} \<union> exist_errs es"
      "space_errs wbs (x # es) = space_errs wbs es"
      using ex x by (auto simp: hard_errs_def exist_errs_def space_errs_def space_err_def)
    then show ?thesis using ex x ih by simp
  next
    case sp
    let ?wb = "case alookup wbs a of Some n \<Rightarrow> n | None \<Rightarrow> 0"
    have "fst ` set (ns @ [(a, ?wb)]) \<inter> fst ` set es = {}" using d by auto
    then obtain c' ex' where ih: "classify_loop ops wbs es (c, ex, ns @ [(a, ?wb)]) = Some (c', ex', (ns @ [(a, ?wb)]) @ space_errs wbs es)"
      "set ex' = set ex \<union> exist_errs es" "took_down ops (hard_errs es) c c'"
      using Cons.IH [OF Cons.prems(1) d(1)] by blast
    have "hard_errs (x # es) = hard_errs es" "exist_errs (x # es) = exist_errs es"
      "space_errs wbs (x # es) = (a, ?wb) # space_errs wbs es"
      using sp x by (auto simp: hard_errs_def exist_errs_def space_errs_def)
    then show ?thesis using sp x ih aupdate_fresh [OF d(3), of ?wb] by (simp add: space_err_def)
  next
    case hard
    obtain c1 where c1: "setReplicaModeNoLock ops a ERR c = Some c1" "took_down ops {a} c c1"
      using setReplicaModeNoLock_down [OF Cons.prems(1)] by blast
    obtain c' ex' where ih: "classify_loop ops wbs es (c1, ex, ns) = Some (c', ex', ns @ space_errs wbs es)"
      "set ex' = set ex \<union> exist_errs es" "took_down ops (hard_errs es) c1 c'"
      using Cons.IH [OF took_downD(1) [OF c1(2) Cons.prems(1)] d(1,2)] by blast
    have "hard_errs (x # es) = {a} \<union> hard_errs es" "exist_errs (x # es) = exist_errs es"
      "space_errs wbs (x # es) = space_errs wbs es"
      using hard x by (auto simp: hard_errs_def exist_errs_def space_errs_def)
    then show ?thesis using hard x c1(1) ih took_down_trans [OF c1(2) ih(3)]
      by (simp add: space_err_def)
  qed
qed

text \<open>The replicas taken down, and the error the caller gets.\<close>

definition victims :: "(string \<times> int) list \<Rightarrow> (string \<times> go_error) list \<Rightarrow> ('b, 'fe) controller \<Rightarrow> string set" where
  "victims wbs es c =
     (let c1 = c\<lparr>creplicas := down_replicas (hard_errs es) (creplicas c)\<rparr>; m = space_errs wbs es
      in hard_errs es \<union> (if m = [] then {} else space_victims m c1))"

lemma handleErrorNoLock_eq:
  assumes ok: "ctl_ok c" and d: "adistinct es" and ne: "es \<noteq> []"
    and m_def: "m = space_errs wbs es"
  shows "\<exists>c' err. handleErrorNoLock ops (Some (BackendError es wbs)) c = Some (c', err) \<and>
     took_down ops (victims wbs es c) c c' \<and>
     err = (if m \<noteq> [] \<and> set (rw_of c) - hard_errs es \<subseteq> fst ` set m then Some ErrNoSpaceLeftOnDevice
            else if exist_errs es = {} \<and> rw_of c' \<noteq> [] then None
            else Some (BackendError es wbs))"
proof -
  obtain c1 ex where c1: "classify_loop ops wbs es (c, [], []) = Some (c1, ex, m)"
    "set ex = exist_errs es" "took_down ops (hard_errs es) c c1"
    using classify_loop_eq [OF ok d, of "[]" ops wbs "[]"] by (auto simp: m_def)
  note t1 = took_downD [OF c1(3) ok]
  have rw1: "set (rw_of c1) = set (rw_of c) - hard_errs es"
    unfolding rw_of_def t1(2) by (force simp: down_replicas_def)
  have ex_nil: "ex = [] \<longleftrightarrow> exist_errs es = {}" using c1(2) by auto
  have rw: "list_ex (\<lambda>r. RMode r = RW) (creplicas c') \<longleftrightarrow> rw_of c' \<noteq> []" for c' :: "('a, 'b) controller"
    by (auto simp: rw_of_def list_ex_iff filter_empty_conv)
  show ?thesis
  proof (cases "m = []")
    case True
    then have "victims wbs es c = hard_errs es" by (simp add: victims_def m_def)
    then show ?thesis using c1 True ne ex_nil rw [of c1]
      by (simp add: handleDiskNoSpaceErrorForReplicas_def)
  next
    case False
    obtain c2 where c2: "handleDiskNoSpaceErrorForReplicas ops m c1 = Some (c2, set (rw_of c1) \<subseteq> fst ` set m)"
      "took_down ops (space_victims m c1) c1 c2"
      using handleDiskNoSpace_eq [OF t1(1) False] by blast
    let ?c = "c\<lparr>creplicas := down_replicas (hard_errs es) (creplicas c)\<rparr>"
    have "rw_of c1 = rw_of ?c" "wo_of c1 = wo_of ?c" by (simp_all add: rw_of_def wo_of_def t1(2))
    then have "space_victims m c1 = space_victims m ?c" by (simp add: space_victims_def Let_def)
    then have "took_down ops (victims wbs es c) c c2"
      using took_down_trans [OF c1(3) c2(2)] False by (simp add: victims_def m_def)
    then show ?thesis using c1 c2 ne ex_nil rw [of c2] rw1 False by auto
  qed
qed

end
