(* ===== verification/ControllerData.thy ===== *)
theory ControllerData
  imports ControllerSpace
begin

text \<open>
  The data path of the controller: after a request that reports no error, the replicas still in
  mode \<^term>\<open>RW\<close> agree on the volume the request leaves.
\<close>

section \<open>After error handling\<close>

lemma rw_of_modes: "a \<in> set (rw_of c) \<longleftrightarrow> (a, RW) \<in> set (modes c)"
  by (auto simp: rw_of_def modes_def)

lemma wo_of_modes: "a \<in> set (wo_of c) \<longleftrightarrow> (a, WO) \<in> set (modes c)"
  by (auto simp: wo_of_def modes_def)

lemma handled_down:
  assumes ok: "ctl_ok c" and d: "adistinct es" and ne: "es \<noteq> []"
    and h: "handleErrorNoLock ops (Some (BackendError es wbs)) c = Some (c', None)"
  shows "\<exists>A. took_down ops A c c' \<and> rw_of c' \<noteq> [] \<and> (\<forall>a m. a \<in> fst ` set es \<longrightarrow> (a, m) \<in> set (modes c') \<longrightarrow> m = ERR)"
proof -
  let ?m = "space_errs wbs es" and ?A = "victims wbs es c"
  obtain c1 err where e: "handleErrorNoLock ops (Some (BackendError es wbs)) c = Some (c1, err)"
    "took_down ops ?A c c1"
    "err = (if ?m \<noteq> [] \<and> set (rw_of c) - hard_errs es \<subseteq> fst ` set ?m then Some ErrNoSpaceLeftOnDevice
            else if exist_errs es = {} \<and> rw_of c1 \<noteq> [] then None else Some (BackendError es wbs))"
    using handleErrorNoLock_eq [OF ok d ne refl] by blast
  have c': "c' = c1" "err = None" using e(1) h by auto
  then have nf: "exist_errs es = {}" "rw_of c1 \<noteq> []" "?m = [] \<or> \<not> set (rw_of c) - hard_errs es \<subseteq> fst ` set ?m"
    using e(3) by (auto split: if_splits)
  let ?c = "c\<lparr>creplicas := down_replicas (hard_errs es) (creplicas c)\<rparr>"
  have rw: "set (rw_of ?c) = set (rw_of c) - hard_errs es" and wo: "set (wo_of ?c) = set (wo_of c) - hard_errs es"
    by (force simp: rw_of_def wo_of_def down_replicas_def)+
  have "m = ERR" if a: "a \<in> fst ` set es" and am: "(a, m) \<in> set (modes c')" for a m
  proof (cases "a \<in> hard_errs es \<or> a \<in> ?A")
    case True
    then have "a \<in> ?A" by (auto simp: victims_def Let_def)
    then show ?thesis using am took_downD(6) [OF e(2) ok] c' by auto
  next
    case False
    then have am: "a \<in> fst ` set ?m" using a nf(1) errs_classes [of es wbs] by auto
    then have mne: "?m \<noteq> []" by auto
    then have "space_victims ?m ?c = (set (wo_of ?c) \<inter> fst ` set ?m) \<union> (set (rw_of ?c) \<inter> fst ` set ?m)"
      using nf(3) rw by (auto simp: space_victims_def Let_def)
    then have "a \<notin> set (wo_of c)" "a \<notin> set (rw_of c)"
      using False am mne rw wo by (auto simp: victims_def Let_def)
    moreover have "(a, m) \<in> set (modes c)"
      using \<open>(a, m) \<in> set (modes c')\<close> False took_downD(6) [OF e(2) ok] c' by auto
    ultimately show ?thesis by (cases m) (auto simp: rw_of_modes wo_of_modes)
  qed
  then show ?thesis using e(2) c' nf(2) by blast
qed

text \<open>A request to the live backends keeps the agreement of controller and replicator.\<close>

lemma ctl_ok_touch:
  assumes "ctl_ok c"
  shows "ctl_ok (c\<lparr>cbackend := (cbackend c)\<lparr>backends := touch_live f (backends (cbackend c))\<rparr>\<rparr>)"
proof -
  have "map (\<lambda>(a, w). (a, wmode w)) (touch_live f bs) = map (\<lambda>(a, w). (a, wmode w)) bs" for bs
    by (induction bs) (auto simp: touch_live_def)
  then show ?thesis using assms rep_ok_touch [of "cbackend c" f] by (simp add: ctl_ok_def modes_def)
qed

lemma ctl_ok_cong:
  assumes "ctl_ok c" "rep_ok r" "backed (backends r)" "map (\<lambda>(a, w). (a, wmode w)) (backends r) = map (\<lambda>(a, w). (a, wmode w)) (backends (cbackend c))"
  shows "ctl_ok (c\<lparr>cbackend := r\<rparr>)"
  using assms by (simp add: ctl_ok_def modes_def)

lemma modes_of_addrs:
  assumes "map fst bs' = map fst bs" "live_addrs bs' = live_addrs bs" "rw_addrs bs' = rw_addrs bs" "adistinct bs"
  shows "map (\<lambda>(a, w). (a, wmode w)) bs' = map (\<lambda>(a, w). (a, wmode w)) bs"
proof (rule nth_equalityI)
  show len: "length (map (\<lambda>(a, w). (a, wmode w)) bs') = length (map (\<lambda>(a, w). (a, wmode w)) bs)"
    using assms(1) by (metis length_map)
  fix i assume "i < length (map (\<lambda>(a, w). (a, wmode w)) bs')"
  then have i: "i < length bs'" "i < length bs" using len by auto
  obtain a w a' w' where w: "bs' ! i = (a, w)" "bs ! i = (a', w')" by fastforce
  have eq: "a = a'" using assms(1) i w by (metis fst_conv nth_map)
  have d': "adistinct bs'" using assms(1,4) by (simp add: adistinct_def)
  have l: "alookup bs' a = Some w" "alookup bs a = Some w'"
    using alookup_mem_iff [OF d'] alookup_mem_iff [OF assms(4)] w i eq by (metis nth_mem)+
  have "a \<in> set (live_addrs bs') \<longleftrightarrow> wmode w \<noteq> ERR" "a \<in> set (live_addrs bs) \<longleftrightarrow> wmode w' \<noteq> ERR"
    "a \<in> set (rw_addrs bs') \<longleftrightarrow> wmode w = RW" "a \<in> set (rw_addrs bs) \<longleftrightarrow> wmode w' = RW"
    using set_live_addrs [OF d'] set_live_addrs [OF assms(4)] set_rw_addrs [OF d'] set_rw_addrs [OF assms(4)] l by auto
  then have "wmode w = wmode w'" using assms(2,3) by (cases "wmode w"; cases "wmode w'") auto
  then show "map (\<lambda>(a, w). (a, wmode w)) bs' ! i = map (\<lambda>(a, w). (a, wmode w)) bs ! i"
    using w eq i by simp
qed

lemma adistinct_write_failures:
  assumes "adistinct bs"
  shows "adistinct (write_failures ops bs p off)"
proof -
  have sub: "set (map fst (failures rs)) \<subseteq> set (map fst rs)" for rs :: "(string \<times> go_error option) list"
    using keys_failures [of rs] by simp
  have d: "distinct (map fst rs) \<Longrightarrow> distinct (map fst (failures rs))" for rs :: "(string \<times> go_error option) list"
  proof (induction rs)
    case (Cons x rs)
    obtain a e where x: "x = (a, e)" by (cases x)
    show ?case using Cons sub [of rs] x by (cases e) auto
  qed simp
  show ?thesis unfolding adistinct_def write_failures_def
    by (rule d) (use distinct_live_addrs [OF assms] fst_answers [of "\<lambda>b. b_WriteAt ops b p off" bs] in
      \<open>simp add: write_answers_def case_prod_unfold comp_def\<close>)
qed

section \<open>Writes and reads\<close>

context backend_contract
begin

text \<open>
  After a write of the replicator the live backends that are not among its failures hold the new
  volume.
\<close>

lemma agree_after_write:
  assumes ok: "ctl_ok c" and ag: "agree good stored V (backends (cbackend c))" and fits: "off + length p \<le> length V"
    and bs: "bs = touch_live (\<lambda>b. b_WriteAt ops b p (int off)) (backends (cbackend c))"
    and a: "alookup bs a = Some w" "wmode w \<noteq> ERR" "a \<notin> fst ` set (write_failures ops (backends (cbackend c)) p (int off))"
  shows "holds_volume good stored (copy_at V off p) w"
proof -
  have rep: "rep_ok (cbackend c)" using ok by (simp add: ctl_ok_def)
  obtain w0 where w0: "alookup (backends (cbackend c)) a = Some w0" "wmode w0 = wmode w"
    using a(1,2) unfolding bs by (auto simp: alookup_touch_live)
  have "wmode w0 \<noteq> ERR" using w0(2) a(2) by simp
  from WriteAt_stored [OF rep ag fits w0(1) this] obtain b' where
    "wbackend w = Some b'" "good b'" "length (stored b') = length V" "wmode w = RW \<longrightarrow> stored b' = copy_at V off p"
    using a w0 bs by auto
  then show ?thesis by (simp add: holds_volume_def)
qed

definition settled :: "('b, 'fe) controller \<Rightarrow> 'b replicator \<Rightarrow> go_error option \<Rightarrow> ('b, 'fe) controller \<Rightarrow> bool" where
  "settled c r e c2 \<longleftrightarrow>
     (case e of None \<Rightarrow> c2 = c\<lparr>cbackend := r\<rparr>
      | Some x \<Rightarrow> handleErrorNoLock ops (Some x) (c\<lparr>cbackend := r\<rparr>) = Some (c2, None))"

lemma write_settled:
  assumes ok: "ctl_ok c" and ag: "agree good stored V (backends (cbackend c))" and fits: "off + length p \<le> length V"
    and w: "Replicator.WriteAt ops (cbackend c) p (int off) = Some (r, n, e)" and s: "settled c r e c2"
  shows "ctl_ok c2 \<and> agree good stored (copy_at V off p) (backends (cbackend c2)) \<and> csize c2 = csize c \<and> rw_of c2 \<noteq> []"
proof -
  let ?bs = "backends (cbackend c)" and ?f = "\<lambda>b. b_WriteAt ops b p (int off)"
  let ?fs = "write_failures ops ?bs p (int off)" and ?c1 = "c\<lparr>cbackend := r\<rparr>"
  have rep: "rep_ok (cbackend c)" "backed ?bs" using ok by (simp_all add: ctl_ok_def)
  have av: "backendsAvailable (cbackend c)"
    using w s by (cases "backendsAvailable (cbackend c)") (auto simp: Replicator.WriteAt_def settled_def ErrNoBackend_def)
  note out = WriteAt_outcome [OF rep(1) av rep(2) refl, of ops p "int off"]
  have r: "r = (cbackend c)\<lparr>backends := touch_live ?f ?bs\<rparr>"
    and e: "e = (if ?fs = [] then None else Some (BackendError ?fs (write_counts ops ?bs p (int off))))"
    using w out by auto
  have ok1: "ctl_ok ?c1" using ctl_ok_touch [OF ok, of ?f] r by simp
  have d: "adistinct (touch_live ?f ?bs)" using rep_okD(1) [OF rep(1)] by simp
  have new: "holds_volume good stored (copy_at V off p) w"
    if "(a, w) \<in> set (touch_live ?f ?bs)" "wmode w \<noteq> ERR \<longrightarrow> a \<notin> fst ` set ?fs" for a w
    using agree_after_write [OF ok ag fits refl, of a w] that alookup_mem_iff [OF d]
    by (cases "wmode w = ERR") (auto simp: holds_volume_def)
  show ?thesis
  proof (cases "?fs = []")
    case True
    then have "c2 = ?c1" using s e by (simp add: settled_def)
    moreover have "agree good stored (copy_at V off p) (touch_live ?f ?bs)" using True by (intro agreeI new) auto
    moreover have "rw_of ?c1 \<noteq> []"
    proof -
      obtain a where "a \<in> set (rw_addrs ?bs)" using rep_okD(4) [OF rep(1)] av by (cases "rw_addrs ?bs") auto
      then obtain w where "alookup ?bs a = Some w" "wmode w = RW" using set_rw_addrs [OF rep_okD(1) [OF rep(1)]] by blast
      then have "(a, RW) \<in> set (modes c)" using ctl_ok_mode [OF ok] alookup_in_set by fastforce
      then show ?thesis using rw_of_modes [of a ?c1] by (auto simp: modes_def)
    qed
    ultimately show ?thesis using ok1 r by simp
  next
    case False
    then have h: "handleErrorNoLock ops (Some (BackendError ?fs (write_counts ops ?bs p (int off)))) ?c1 = Some (c2, None)"
      using s e by (simp add: settled_def)
    obtain A where A: "took_down ops A ?c1 c2" "rw_of c2 \<noteq> []"
      "\<And>a m. a \<in> fst ` set ?fs \<Longrightarrow> (a, m) \<in> set (modes c2) \<Longrightarrow> m = ERR"
      using handled_down [OF ok1 adistinct_write_failures [OF rep_okD(1) [OF rep(1)]] False h] by blast
    note t = took_downD [OF A(1) ok1]
    have bs2: "backends (cbackend c2) = down_all ops A (touch_live ?f ?bs)" using t(3) r by simp
    have "agree good stored (copy_at V off p) (backends (cbackend c2))"
    proof (rule agreeI)
      fix a w assume aw: "(a, w) \<in> set (backends (cbackend c2))"
      show "holds_volume good stored (copy_at V off p) w"
      proof (cases "wmode w = ERR")
        case True
        then show ?thesis by (simp add: holds_volume_def)
      next
        case live: False
        then have "(a, w) \<in> set (touch_live ?f ?bs)" using aw unfolding bs2 down_all_def by auto
        moreover have "(a, wmode w) \<in> set (modes c2)" using aw t(1) by (force simp: ctl_ok_def)
        ultimately show ?thesis using new A(3) live by blast
      qed
    qed
    then show ?thesis using t(1,4) A(2) by simp
  qed
qed

lemma beyond_fits:
  assumes "int (length V) = csize c" "csize c < 2 ^ 63" "off + length p \<le> length V"
  shows "\<not> beyond (int off) (int (length p)) c"
  using assms by (simp add: beyond_def i64_id)

lemma WriteAt_normal_settled:
  assumes "\<not> hasWOReplica c" "\<not> beyond (int off) (int (length p)) c"
    "WriteAt ops lat p (int off) c = Some (c2, n, None)"
  shows "\<exists>r e c3. Replicator.WriteAt ops (cbackend c) p (int off) = Some (r, n, e) \<and> settled c r e c3 \<and>
     (c2 = c3 \<or> c2 = recordMetrics False (int (length p)) lat c3)"
proof -
  obtain r n' e where w: "Replicator.WriteAt ops (cbackend c) p (int off) = Some (r, n', e)"
    using assms by (auto simp: WriteAt_def writeInNormalMode_def Let_def bind_eq_Some_conv)
  then show ?thesis using assms
    by (cases e) (auto simp: WriteAt_def writeInNormalMode_def settled_def Let_def bind_eq_Some_conv)
qed

end

lemma recordMetrics_frame [simp]:
  "cbackend (recordMetrics rd l lat c) = cbackend c" "creplicas (recordMetrics rd l lat c) = creplicas c"
  "csize (recordMetrics rd l lat c) = csize c"
  by (simp_all add: recordMetrics_def Let_def)

lemma ctl_ok_metrics [simp]: "ctl_ok (recordMetrics rd l lat c) = ctl_ok c"
  by (simp add: ctl_ok_def modes_def)

lemma rw_of_metrics [simp]: "rw_of (recordMetrics rd l lat c) = rw_of c"
  by (simp add: rw_of_def)

end
