(* ===== verification/ControllerProps.thy ===== *)
theory ControllerProps
  imports ControllerData
begin

text \<open>
  The properties of the controller's data path: replicas in use agree on the volume after every
  successful request, reads return its bytes, and full disks never take the volume down.
\<close>

section \<open>Reads and writes of the controller\<close>

lemma copy_at_hull:
  assumes "S \<le> off" "off + length b \<le> E" "E \<le> length V"
  shows "copy_at V S (copy_at (take (E - S) (drop S V)) (off - S) b) = copy_at V off b"
  using assms by (intro nth_equalityI) (auto simp: nth_copy_at min_def)

lemma handle_total:
  assumes ok: "ctl_ok c" and e: "e = None \<or> (\<exists>x. e = Some x \<and> (\<forall>es ws. x \<noteq> BackendError es ws)) \<or>
      (\<exists>es ws. e = Some (BackendError es ws) \<and> adistinct es \<and> es \<noteq> [])"
  shows "\<exists>c2 e2. handleErrorNoLock ops e c = Some (c2, e2) \<and> ctl_ok c2 \<and> csize c2 = csize c"
  using e
proof (elim disjE exE conjE)
  assume "e = None" then show ?thesis using ok by simp
next
  fix x assume "e = Some x" "\<forall>es ws. x \<noteq> BackendError es ws"
  then have "handleErrorNoLock ops e c = Some (c, e)" by (cases x) auto
  then show ?thesis using ok by blast
next
  fix es ws assume a: "e = Some (BackendError es ws)" "adistinct es" "es \<noteq> []"
  obtain c2 e2 where h: "handleErrorNoLock ops e c = Some (c2, e2)" "took_down ops (victims ws es c) c c2"
    using handleErrorNoLock_eq [OF ok a(2,3) refl, of ops ws] a(1) by blast
  then show ?thesis using took_downD [OF h(2) ok] by blast
qed

lemma replicator_write_total:
  assumes ok: "ctl_ok c"
  shows "\<exists>r n e. Replicator.WriteAt ops (cbackend c) p off = Some (r, n, e) \<and> ctl_ok (c\<lparr>cbackend := r\<rparr>) \<and>
     (\<exists>c2 e2. handleErrorNoLock ops e (c\<lparr>cbackend := r\<rparr>) = Some (c2, e2) \<and> ctl_ok c2 \<and> csize c2 = csize c)"
proof (cases "backendsAvailable (cbackend c)")
  case False
  then have "Replicator.WriteAt ops (cbackend c) p off = Some (cbackend c, 0, Some ErrNoBackend)"
    by (simp add: Replicator.WriteAt_def)
  then show ?thesis using ok by (auto simp: ErrNoBackend_def)
next
  case True
  let ?bs = "backends (cbackend c)" and ?f = "\<lambda>b. b_WriteAt ops b p off"
  let ?r = "(cbackend c)\<lparr>backends := touch_live ?f ?bs\<rparr>" and ?fs = "write_failures ops ?bs p off"
  let ?e = "if ?fs = [] then None else Some (BackendError ?fs (write_counts ops ?bs p off))"
  have rep: "rep_ok (cbackend c)" "backed ?bs" using ok by (simp_all add: ctl_ok_def)
  note out = WriteAt_outcome [OF rep(1) True rep(2) refl, of ops p off]
  have ok1: "ctl_ok (c\<lparr>cbackend := ?r\<rparr>)" using ctl_ok_touch [OF ok, of ?f] by simp
  have "\<exists>c2 e2. handleErrorNoLock ops ?e (c\<lparr>cbackend := ?r\<rparr>) = Some (c2, e2) \<and> ctl_ok c2 \<and> csize c2 = csize c"
  proof -
    have e: "?e = None \<or> (\<exists>x. ?e = Some x \<and> (\<forall>es ws. x \<noteq> BackendError es ws)) \<or>
        (\<exists>es ws. ?e = Some (BackendError es ws) \<and> adistinct es \<and> es \<noteq> [])"
      using adistinct_write_failures [OF rep_okD(1) [OF rep(1)], of ops p off] by simp
    obtain c2 e2 where "handleErrorNoLock ops ?e (c\<lparr>cbackend := ?r\<rparr>) = Some (c2, e2)" "ctl_ok c2"
      "csize c2 = csize (c\<lparr>cbackend := ?r\<rparr>)"
      using handle_total [OF ok1 e] by blast
    moreover have "csize (c\<lparr>cbackend := ?r\<rparr>) = csize c" by simp
    ultimately show ?thesis by metis
  qed
  then show ?thesis unfolding out using ok1 by blast
qed

context backend_contract
begin

lemma read_keeps_ctl:
  assumes ok: "ctl_ok c" and ag: "agree good stored V (backends (cbackend c))" and fits: "off + length buf \<le> length V"
  shows "\<exists>r q n e. Replicator.ReadAt ops (cbackend c) buf (int off) = Some (r, q, n, e) \<and> ctl_ok (c\<lparr>cbackend := r\<rparr>) \<and>
     agree good stored V (backends r) \<and> length q = length buf \<and>
     (e = None \<longrightarrow> backendsAvailable (cbackend c) \<and> q = take (length buf) (drop off V) \<and> n = int (length buf)) \<and>
     (e = None \<or> e = Some ErrNoBackend \<or>
       (\<exists>es. e = Some (BackendError es []) \<and> adistinct es \<and> es \<noteq> [] \<and>
          (q = take (length buf) (drop off V) \<and> n = int (length buf) \<or> fst ` set es = set (rw_addrs (backends r)))))"
proof (cases "backendsAvailable (cbackend c)")
  case False
  then show ?thesis using ok ag by (simp add: Replicator.ReadAt_def)
next
  case True
  have rep: "rep_ok (cbackend c)" using ok by (simp add: ctl_ok_def)
  obtain r q n es where o: "Replicator.ReadAt ops (cbackend c) buf (int off) =
       Some (r, q, n, if es = [] then None else Some (BackendError es []))"
    "rep_ok r" "agree good stored V (backends r)" "map fst (backends r) = map fst (backends (cbackend c))"
    "live_addrs (backends r) = live_addrs (backends (cbackend c))" "rw_addrs (backends r) = rw_addrs (backends (cbackend c))"
    "adistinct es" "length q = length buf"
    "q = take (length buf) (drop off V) \<and> n = int (length buf) \<or> fst ` set es = set (rw_addrs (backends (cbackend c)))"
    using ReadAt_outcome [OF rep True ag fits] by (elim exE conjE) (rule that; assumption)
  have ne: "rw_addrs (backends (cbackend c)) \<noteq> []" using rep_okD(4) [OF rep] True by simp
  have ok1: "ctl_ok (c\<lparr>cbackend := r\<rparr>)"
    using ctl_ok_cong [OF ok o(2) agree_backed [OF o(3)] modes_of_addrs [OF o(4-6) rep_okD(1) [OF rep]]] .
  show ?thesis using o ok1 True ne by (cases "es = []") auto
qed

text \<open>The state of the controller once the outcome \<open>e\<close> of a request has been handled.\<close>

definition finished :: "byte list \<Rightarrow> ('b, 'fe) controller \<Rightarrow> ('b, 'fe) controller \<Rightarrow> go_error option \<Rightarrow> bool" where
  "finished V c c1 e \<longleftrightarrow> (\<exists>c2 e2. handleErrorNoLock ops e c1 = Some (c2, e2) \<and> ctl_ok c2 \<and> csize c2 = csize c \<and>
     (e2 = None \<longrightarrow> agree good stored V (backends (cbackend c2)) \<and> rw_of c2 \<noteq> []))"

lemma replicator_write_finished:
  assumes ok: "ctl_ok c" and ag: "agree good stored V (backends (cbackend c))" and fits: "off + length p \<le> length V"
  shows "\<exists>r n e. Replicator.WriteAt ops (cbackend c) p (int off) = Some (r, n, e) \<and>
     finished (copy_at V off p) c (c\<lparr>cbackend := r\<rparr>) e"
proof -
  obtain r n e c2 e2 where w: "Replicator.WriteAt ops (cbackend c) p (int off) = Some (r, n, e)"
    "handleErrorNoLock ops e (c\<lparr>cbackend := r\<rparr>) = Some (c2, e2)" "ctl_ok c2" "csize c2 = csize c"
    using replicator_write_total [OF ok, of ops p "int off"] by (elim exE conjE) (rule that; assumption)
  have "settled c r e c2" if "e2 = None" using w(2) that by (cases e) (auto simp: settled_def)
  then have "e2 = None \<longrightarrow> agree good stored (copy_at V off p) (backends (cbackend c2)) \<and> rw_of c2 \<noteq> []"
    using write_settled [OF ok ag fits w(1), of c2] by auto
  then have "finished (copy_at V off p) c (c\<lparr>cbackend := r\<rparr>) e"
    unfolding finished_def using w(2-4) by blast
  then show ?thesis using w(1) by blast
qed

lemma writeInWOMode_finished:
  assumes ok: "ctl_ok c" and ag: "agree good stored V (backends (cbackend c))" and fits: "off + length b \<le> length V"
    and al: "4096 dvd length V"
  shows "\<exists>c1 n e. writeInWOMode ops b (int off) c = Some (c1, n, e) \<and> finished (copy_at V off b) c c1 e"
proof (cases "length b = 0 \<or> int off smod VolumeSectorSize = 0 \<and> int (length b) smod VolumeSectorSize = 0")
  case True
  obtain r n e where "Replicator.WriteAt ops (cbackend c) b (int off) = Some (r, n, e)"
    "finished (copy_at V off b) c (c\<lparr>cbackend := r\<rparr>) e"
    using replicator_write_finished [OF ok ag fits] by blast
  then show ?thesis using True by (auto simp: writeInWOMode_def)
next
  case False
  define S where "S = off div 4096 * 4096"
  define E where "E = (if (off + length b) mod 4096 = 0 then off + length b else ((off + length b) div 4096 + 1) * 4096)"
  have S: "S \<le> off" "off - S = off mod 4096" by (simp_all add: S_def minus_div_mult_eq_mod)
  have E: "off + length b \<le> E" "S \<le> E"
    using div_mult_mod_eq [of "off + length b" 4096] mod_less_divisor [of 4096 "off + length b"] S
    by (auto simp: E_def)
  have EV: "E \<le> length V"
  proof (cases "(off + length b) mod 4096 = 0")
    case True
    then show ?thesis using fits by (simp add: E_def)
  next
    case False
    obtain q where q: "length V = 4096 * q" using al by blast
    then have "off + length b < 4096 * q" using fits False by (cases "off + length b = 4096 * q") auto
    then have "(off + length b) div 4096 + 1 \<le> q" by (simp add: less_mult_imp_div_less Suc_le_eq mult.commute)
    then show ?thesis using False q by (simp add: E_def)
  qed
  have ints: "(int off sdiv VolumeSectorSize) * VolumeSectorSize = int S"
    "(if (int off + int (length b)) smod VolumeSectorSize = 0 then int off + int (length b)
      else ((int off + int (length b)) sdiv VolumeSectorSize + 1) * VolumeSectorSize) = int E"
    "int off smod VolumeSectorSize = int (off - S)"
    using sdiv_int [of off 4096] smod_int [of off 4096] sdiv_int [of "off + length b" 4096] smod_int [of "off + length b" 4096] S(2)
    by (simp_all add: VolumeSectorSize_def S_def E_def)
  let ?buf = "replicate (E - S) (0 :: byte)"
  obtain r1 q n1 e1 where rd: "Replicator.ReadAt ops (cbackend c) ?buf (int S) = Some (r1, q, n1, e1)"
    "ctl_ok (c\<lparr>cbackend := r1\<rparr>)" "agree good stored V (backends r1)" "length q = E - S"
    "e1 = None \<longrightarrow> q = take (E - S) (drop S V)"
    using read_keeps_ctl [OF ok ag, of S ?buf] E EV by auto
  have ns: "nat (int E - int S) = E - S" "\<not> int E < int S" using E by auto
  have eq: "writeInWOMode ops b (int off) c =
      (let c1 = c\<lparr>cbackend := r1\<rparr>
       in case e1 of
            Some e \<Rightarrow> Some (c1, 0, Some (Wrapped ''failed to retrieve aligned sectors from RW replicas'' e))
          | None \<Rightarrow>
              do { _ \<leftarrow> go_slice q (int (off - S)) (int (off - S) + int (length b));
                   (r2, n, err) \<leftarrow> Replicator.WriteAt ops r1 (copy_at q (nat (int (off - S))) b) (int S);
                   let c2 = c1\<lparr>cbackend := r2\<rparr>
                   in case err of
                        Some e \<Rightarrow>
                          if n < int (off - S) then Some (c2, 0, Some e)
                          else if n - int (off - S) < int (length b) then Some (c2, n - int (off - S), Some e)
                          else Some (c2, int (length b), Some e)
                      | None \<Rightarrow> Some (c2, int (length b), None) })"
  proof -
    have guard: "(int (length b) = 0 \<or> int (off - S) = 0 \<and> int (length b) smod VolumeSectorSize = 0) = False"
      using False ints(3) by auto
    show ?thesis
      unfolding writeInWOMode_def Let_def ints ns(1) rd(1) guard using ns(2)
      by (simp only: Option.bind.simps if_False prod.case)
  qed
  show ?thesis
  proof (cases e1)
    case (Some x)
    have "finished (copy_at V off b) c (c\<lparr>cbackend := r1\<rparr>) (Some (Wrapped m x))" for m
      using rd(2) by (auto simp: finished_def)
    then show ?thesis using Some by (auto simp: eq)
  next
    case None
    let ?p = "copy_at q (off - S) b"
    have "S + length ?p \<le> length V" using rd(4) E EV by simp
    from replicator_write_finished [OF rd(2), of V S ?p] rd(3) this obtain r n e where
      w: "Replicator.WriteAt ops r1 ?p (int S) = Some (r, n, e)"
      "finished (copy_at V S ?p) (c\<lparr>cbackend := r1\<rparr>) (c\<lparr>cbackend := r\<rparr>) e" by auto
    have vol: "copy_at V S ?p = copy_at V off b" using copy_at_hull [OF S(1) E(1) EV] rd(5) None by simp
    have sl: "go_slice q (int (off - S)) (int (off - S) + int (length b)) \<noteq> None"
      using rd(4) E S by (simp add: go_slice_def)
    have fin: "finished (copy_at V off b) c (c\<lparr>cbackend := r\<rparr>) e" using w(2) vol by (simp add: finished_def)
    from sl obtain z where "go_slice q (int (off - S)) (int (off - S) + int (length b)) = Some z" by blast
    then show ?thesis using None w(1) fin by (cases e) (auto simp: eq Let_def)
  qed
qed

end

end
