(* ===== verification/ControllerClaims.thy ===== *)
theory ControllerClaims
  imports ControllerProps ControllerLife
begin

text \<open>
  The properties of the controller over the contract of its backends, with controllers of two file
  backends as concrete instances.
\<close>

section \<open>The outcome of reads and writes\<close>

lemma agree_down_all: "agree good stored V bs \<Longrightarrow> agree good stored V (down_all ops A bs)"
proof (induction bs)
  case (Cons x bs)
  have "holds_volume good stored V (down ops w)" for w by (simp add: holds_volume_def)
  then show ?case using Cons by (cases x) (simp add: agree_def down_all_def)
qed (simp add: agree_def down_all_def)

context backend_contract
begin

lemma WriteAt_finished:
  assumes ok: "ctl_ok c" and ag: "agree good stored V (backends (cbackend c))" and fits: "off + length b \<le> length V"
    and sz: "int (length V) = csize c" "csize c < 2 ^ 63" "4096 dvd length V"
  shows "\<exists>c' n e. Controller.WriteAt ops lat b (int off) c = Some (c', n, e) \<and> ctl_ok c' \<and> csize c' = csize c \<and>
     (e = None \<longrightarrow> agree good stored (copy_at V off b) (backends (cbackend c')) \<and> rw_of c' \<noteq> [])"
proof -
  have nb: "\<not> beyond (int off) (int (length b)) c" by (rule beyond_fits [OF sz(1,2) fits])
  obtain c1 n e where w: "(if hasWOReplica c then writeInWOMode ops b (int off) c else writeInNormalMode ops b (int off) c) = Some (c1, n, e)"
    "finished (copy_at V off b) c c1 e"
  proof (cases "hasWOReplica c")
    case True
    then show ?thesis using writeInWOMode_finished [OF ok ag fits sz(3)] that by auto
  next
    case False
    then show ?thesis using replicator_write_finished [OF ok ag fits] that by (auto simp: writeInNormalMode_def)
  qed
  obtain c2 e2 where h: "handleErrorNoLock ops e c1 = Some (c2, e2)" "ctl_ok c2" "csize c2 = csize c"
    "e2 = None \<longrightarrow> agree good stored (copy_at V off b) (backends (cbackend c2)) \<and> rw_of c2 \<noteq> []"
    using w(2) unfolding finished_def by blast
  show ?thesis
  proof (cases e)
    case None
    then have "Controller.WriteAt ops lat b (int off) c = Some (recordMetrics False (int (length b)) lat c2, n, None)" "e2 = None"
      using nb w(1) h(1) by (simp_all add: Controller.WriteAt_def Let_def)
    then show ?thesis using h by simp
  next
    case (Some x)
    then have "Controller.WriteAt ops lat b (int off) c = Some (c2, n, e2)"
      using nb w(1) h(1) by (simp add: Controller.WriteAt_def Let_def)
    then show ?thesis using h by simp
  qed
qed

lemma ReadAt_finished:
  assumes ok: "ctl_ok c" and ag: "agree good stored V (backends (cbackend c))" and fits: "off + length b \<le> length V"
    and sz: "int (length V) = csize c" "csize c < 2 ^ 63"
  shows "\<exists>c' q n e. Controller.ReadAt ops lat b (int off) c = Some (c', q, n, e) \<and> ctl_ok c' \<and> csize c' = csize c \<and>
     agree good stored V (backends (cbackend c')) \<and>
     (e = None \<longrightarrow> q = take (length b) (drop off V) \<and> n = int (length b))"
proof -
  have nb: "\<not> beyond (int off) (int (length b)) c" by (rule beyond_fits [OF sz fits])
  obtain r q n e where r: "Replicator.ReadAt ops (cbackend c) b (int off) = Some (r, q, n, e)"
    "ctl_ok (c\<lparr>cbackend := r\<rparr>)" "agree good stored V (backends r)"
    "e = None \<Longrightarrow> q = take (length b) (drop off V) \<and> n = int (length b)"
    "e = None \<or> e = Some ErrNoBackend \<or> (\<exists>es. e = Some (BackendError es []) \<and> adistinct es \<and> es \<noteq> [] \<and>
       (q = take (length b) (drop off V) \<and> n = int (length b) \<or> fst ` set es = set (rw_addrs (backends r))))"
    using read_keeps_ctl [OF ok ag fits] by (elim exE conjE) (rule that; blast)
  let ?c1 = "c\<lparr>cbackend := r\<rparr>"
  consider (none) "e = None" | (nob) "e = Some ErrNoBackend" | (be) es where "e = Some (BackendError es [])" "adistinct es" "es \<noteq> []"
      "q = take (length b) (drop off V) \<and> n = int (length b) \<or> fst ` set es = set (rw_addrs (backends r))"
    using r(5) by blast
  then show ?thesis
  proof cases
    case none
    then show ?thesis using nb r by (auto simp: Controller.ReadAt_def Let_def)
  next
    case nob
    then show ?thesis using nb r by (auto simp: Controller.ReadAt_def Let_def ErrNoBackend_def)
  next
    case be
    obtain c2 e2 where h: "handleErrorNoLock ops e ?c1 = Some (c2, e2)" "took_down ops (victims [] es ?c1) ?c1 c2"
      using handleErrorNoLock_eq [OF r(2) be(2,3) refl, of ops "[]"] be(1) by blast
    note t = took_downD [OF h(2) r(2)]
    have "q = take (length b) (drop off V) \<and> n = int (length b)" if none: "e2 = None"
    proof (rule ccontr)
      assume "\<not> (q = take (length b) (drop off V) \<and> n = int (length b))"
      then have all: "fst ` set es = set (rw_addrs (backends r))" using be(4) by blast
      obtain A where A: "rw_of c2 \<noteq> []" "\<And>a m. a \<in> fst ` set es \<Longrightarrow> (a, m) \<in> set (modes c2) \<Longrightarrow> m = ERR"
        using handled_down [OF r(2) be(2,3), of ops "[]" c2] h(1) none be(1) by auto
      obtain a where a: "(a, RW) \<in> set (modes c2)" using A(1) rw_of_modes [of _ c2] by (cases "rw_of c2") auto
      then have "(a, RW) \<in> set (modes ?c1)" using t(6) by (auto split: if_splits)
      then have "alookup (modes ?c1) a = Some RW" using alookup_mem_iff [OF adistinct_modes [OF r(2)]] by blast
      then obtain w where "alookup (backends r) a = Some w" "wmode w = RW" using modes_mode [OF r(2)] by auto
      moreover have "adistinct (backends r)" using r(2) by (simp add: ctl_ok_def rep_ok_def)
      ultimately have "a \<in> set (rw_addrs (backends r))" using set_rw_addrs by blast
      then have "RW = ERR" using A(2) [of a RW] all a by simp
      then show False by simp
    qed
    moreover have "Controller.ReadAt ops lat b (int off) c = Some (c2, q, n, e2)"
      using nb r(1) h(1) be(1) by (simp add: Controller.ReadAt_def Let_def)
    moreover have "agree good stored V (backends (cbackend c2))"
      using t(3) agree_down_all [OF r(3)] by simp
    ultimately show ?thesis using t(1,4) by simp
  qed
qed

end

lemma rep_ok_AddBackend: "rep_ok r \<Longrightarrow> rep_ok (AddBackend a b m r)"
  using rep_okD(1,2) [of r] by (auto simp: AddBackend_def intro!: rep_ok_build)

lemma rep_ok_new: "rep_ok new_replicator"
  by (simp add: rep_ok_def new_replicator_def)

text \<open>A controller of two replicas that store the bytes \<open>xs\<close> in files that take \<open>m\<close> and \<open>n\<close> writes.\<close>

definition ram :: "byte list \<Rightarrow> nat \<Rightarrow> ram_file" where
  "ram xs n = \<lparr>ram_bytes = xs, ram_budget = n, ram_mtime = 0\<rparr>"

definition two_replicas :: "Mode \<Rightarrow> byte list \<Rightarrow> nat \<Rightarrow> nat \<Rightarrow> (ram_file, unit) controller" where
  "two_replicas md xs m n =
     (NewController ''vol'' None False False False False 250 0)
       \<lparr>csize := int (length xs),
        creplicas := [\<lparr>Address = ''a'', RMode = RW\<rparr>, \<lparr>Address = ''b'', RMode = md\<rparr>],
        cbackend := AddBackend ''b'' (Some (ram xs n)) md (AddBackend ''a'' (Some (ram xs m)) RW new_replicator)\<rparr>"

lemma two_replicas_ok: "md \<noteq> ERR \<Longrightarrow> ctl_ok (two_replicas md xs m n)"
proof -
  assume "md \<noteq> ERR"
  let ?r = "AddBackend ''b'' (Some (ram xs n)) md (AddBackend ''a'' (Some (ram xs m)) RW new_replicator)"
  have "backends ?r = [(''a'', \<lparr>wbackend = Some (ram xs m), wmode = RW\<rparr>), (''b'', \<lparr>wbackend = Some (ram xs n), wmode = md\<rparr>)]"
    by (simp add: AddBackend_def new_replicator_def)
  moreover have "rep_ok ?r" by (intro rep_ok_AddBackend rep_ok_new)
  ultimately show ?thesis by (simp add: ctl_ok_def two_replicas_def modes_def backed_def)
qed

lemma two_replicas_agree: "agree (\<lambda>_. True) ram_bytes xs (backends (cbackend (two_replicas md xs m n)))"
  by (simp add: two_replicas_def AddBackend_def new_replicator_def agree_def holds_volume_def ram_def)

lemma two_replicas_size: "csize (two_replicas md xs m n) = int (length xs)"
  by (simp add: two_replicas_def)

text \<open>
  C2: Writing through the controller keeps the replicas equal.  If all replicas in use store the same
  volume, a write inside it never panics and keeps the controller consistent with its replicator;
  if it reports no error, every replica still in use stores the volume with the range overwritten
  and at least one is in use.  This covers single-replica failures, full disks and the
  read-modify-write of unaligned requests during a rebuild.
\<close>

theorem WriteAt_keeps_replicas_equal:
  assumes "backend_contract ops good stored" "ctl_ok c" "agree good stored V (backends (cbackend c))"
    "off + length b \<le> length V" "int (length V) = csize c" "csize c < 2 ^ 63" "4096 dvd length V"
  shows "\<exists>c' n e. Controller.WriteAt ops lat b (int off) c = Some (c', n, e) \<and> ctl_ok c' \<and> csize c' = csize c \<and>
     (e = None \<longrightarrow> agree good stored (copy_at V off b) (backends (cbackend c')) \<and> rw_of c' \<noteq> [])"
  by (rule backend_contract.WriteAt_finished [OF assms])

theorem WriteAt_keeps_replicas_equal_witness:
  "\<exists>c' n e. Controller.WriteAt (file_backend ram_os) 0 [1, 2, 3] 5 (two_replicas WO (replicate 4096 0) 9 0) = Some (c', n, e) \<and>
     ctl_ok c' \<and> csize c' = 4096 \<and>
     (e = None \<longrightarrow> agree (\<lambda>_. True) ram_bytes (copy_at (replicate 4096 0) 5 [1, 2, 3]) (backends (cbackend c')) \<and> rw_of c' \<noteq> [])"
  using WriteAt_keeps_replicas_equal [OF ramb.backend_contract_axioms two_replicas_ok two_replicas_agree, of WO 5 "[1, 2, 3]" "replicate 4096 0" 9 0 0]
  by (simp add: two_replicas_size)

text \<open>
  C6: Reading through the controller returns the volume.  If all replicas in use store the same volume,
  a read inside it never panics and changes no replica's data; if it reports no error the buffer
  holds the bytes of the volume, whichever replicas failed on the way.
\<close>

theorem ReadAt_returns_volume:
  assumes "backend_contract ops good stored" "ctl_ok c" "agree good stored V (backends (cbackend c))"
    "off + length b \<le> length V" "int (length V) = csize c" "csize c < 2 ^ 63"
  shows "\<exists>c' q n e. Controller.ReadAt ops lat b (int off) c = Some (c', q, n, e) \<and> ctl_ok c' \<and> csize c' = csize c \<and>
     agree good stored V (backends (cbackend c')) \<and>
     (e = None \<longrightarrow> q = take (length b) (drop off V) \<and> n = int (length b))"
  by (rule backend_contract.ReadAt_finished [OF assms])

theorem ReadAt_returns_volume_witness:
  "\<exists>c' q n e. Controller.ReadAt (file_backend ram_os) 0 [0, 0] 1 (two_replicas RW [5, 6, 7] 1 1) = Some (c', q, n, e) \<and>
     ctl_ok c' \<and> csize c' = 3 \<and> agree (\<lambda>_. True) ram_bytes [5, 6, 7] (backends (cbackend c')) \<and>
     (e = None \<longrightarrow> q = [6, 7] \<and> n = 2)"
  using ReadAt_returns_volume [OF ramb.backend_contract_axioms two_replicas_ok two_replicas_agree, of RW 1 "[0, 0]" "[5, 6, 7]" 1 1 0]
  by (simp add: two_replicas_size)

lemma rw_available: "ctl_ok c \<Longrightarrow> backendsAvailable (cbackend c) \<longleftrightarrow> rw_of c \<noteq> []"
proof -
  assume ok: "ctl_ok c"
  let ?nl = "\<lambda>xs. map fst (filter (\<lambda>(a, m). m = RW) xs)"
  have "rw_addrs bs = ?nl (map (\<lambda>(a, w). (a, wmode w)) bs)" for bs :: "'a backend_map"
    by (induction bs) (auto simp: rw_addrs_def)
  then have "rw_addrs (backends (cbackend c)) = ?nl (modes c)" using ok by (simp add: ctl_ok_def)
  also have "\<dots> = rw_of c" by (auto simp: modes_def rw_of_def filter_map comp_def)
  finally show ?thesis using rep_okD(4) [of "cbackend c"] ok by (simp add: ctl_ok_def)
qed

lemma write_failures_live: "fst ` set (write_failures ops bs p off) \<subseteq> set (live_addrs bs)"
proof -
  have "fst ` set (failures rs) \<subseteq> fst ` set rs" for rs :: "(string \<times> go_error option) list"
    by (force simp: failures_def split: option.splits)
  then have "fst ` set (write_failures ops bs p off) \<subseteq> fst ` set (write_answers ops bs p off)"
    by (force simp: write_failures_def)
  then show ?thesis by (force simp: write_answers_def answers_def live_addrs_def)
qed

lemma shorter_keys:
  assumes "distinct (map fst xs)" "distinct ys" "fst ` set xs \<subseteq> set ys" "a \<in> set ys" "a \<notin> fst ` set xs"
  shows "length xs < length ys"
proof -
  have "card (fst ` set xs) < card (set ys)" using assms(3-5) by (intro psubset_card_mono) auto
  then show ?thesis using distinct_card [OF assms(1)] distinct_card [OF assms(2)] by simp
qed

lemma victims_normal:
  assumes "a \<in> set (rw_of c)" "a \<notin> fst ` set es" "exist_errs es = {}" "wo_of c = []" "fst ` set es \<subseteq> set (rw_of c)"
  shows "victims wbs es c = fst ` set es"
proof -
  let ?m = "space_errs wbs es" and ?c1 = "c\<lparr>creplicas := down_replicas (hard_errs es) (creplicas c)\<rparr>"
  have rw1: "set (rw_of ?c1) = set (rw_of c) - hard_errs es" by (force simp: rw_of_def down_replicas_def)
  have wo1: "wo_of ?c1 = []" using assms(4) by (auto simp: wo_of_def down_replicas_def filter_empty_conv)
  have cl: "fst ` set es = fst ` set ?m \<union> hard_errs es" using errs_classes [of es wbs] assms(3) by simp
  then have "\<not> set (rw_of ?c1) \<subseteq> fst ` set ?m" using rw1 assms(1,2) by auto
  then have "space_victims ?m ?c1 = set (rw_of ?c1) \<inter> fst ` set ?m" using wo1 by (simp add: space_victims_def Let_def)
  then show ?thesis using cl assms(5) rw1 by (auto simp: victims_def Let_def)
qed

lemma live_addrs_rw:
  "ctl_ok c \<Longrightarrow> \<not> hasWOReplica c \<Longrightarrow> set (live_addrs (backends (cbackend c))) = set (rw_of c) \<and> wo_of c = []"
proof -
  assume ok: "ctl_ok c" and wo: "\<not> hasWOReplica c"
  let ?nl = "\<lambda>xs. set (map fst (filter (\<lambda>(a, m). m \<noteq> ERR) xs))"
  have rw: "RMode r \<noteq> ERR \<longleftrightarrow> RMode r = RW" if "r \<in> set (creplicas c)" for r
    using wo that by (cases "RMode r") (auto simp: hasWOReplica_def list_ex_iff)
  have "set (live_addrs (backends (cbackend c))) = ?nl (map (\<lambda>(a, w). (a, wmode w)) (backends (cbackend c)))"
    by (force simp: live_addrs_def)
  also have "\<dots> = ?nl (modes c)" using ok by (simp add: ctl_ok_def)
  also have "\<dots> = set (map Address (filter (\<lambda>r. RMode r \<noteq> ERR) (creplicas c)))"
    by (force simp: modes_def)
  also have "filter (\<lambda>r. RMode r \<noteq> ERR) (creplicas c) = filter (\<lambda>r. RMode r = RW) (creplicas c)"
    by (intro filter_cong refl) (rule rw)
  finally show ?thesis using wo
    by (auto simp: rw_of_def wo_of_def hasWOReplica_def list_ex_iff filter_empty_conv)
qed

text \<open>
  C4: One working replica is enough.  Outside a rebuild, a write inside the volume that at least one
  replica in use completes reports success with the full count, whatever the other replicas
  answer; exactly the replicas that failed are taken out of service.
\<close>

theorem one_working_replica_suffices:
  assumes ok: "ctl_ok c" and "\<not> hasWOReplica c" "\<not> beyond off (int (length b)) c"
    and fs_def: "fs = write_failures ops (backends (cbackend c)) b off"
    and a: "a \<in> set (rw_of c)" "a \<notin> fst ` set fs" and ne: "\<forall>(x, e) \<in> set fs. \<not> isSnapshotDiskExist e"
  shows "\<exists>c'. Controller.WriteAt ops lat b off c = Some (c', int (length b), None) \<and> ctl_ok c' \<and>
     modes c' = map (\<lambda>(x, m). (x, if x \<in> fst ` set fs then ERR else m)) (modes c)"
proof -
  let ?bs = "backends (cbackend c)" and ?f = "\<lambda>x. b_WriteAt ops x b off"
  let ?wbs = "write_counts ops ?bs b off" and ?c1 = "c\<lparr>cbackend := (cbackend c)\<lparr>backends := touch_live ?f ?bs\<rparr>\<rparr>"
  have rep: "rep_ok (cbackend c)" "backed ?bs" using ok by (simp_all add: ctl_ok_def)
  have live: "set (live_addrs ?bs) = set (rw_of c)" "wo_of c = []" using live_addrs_rw [OF ok assms(2)] by auto
  have av: "backendsAvailable (cbackend c)" using a(1) rw_available [OF ok] by auto
  have sub: "fst ` set fs \<subseteq> set (rw_of c)" and d: "adistinct fs"
    using write_failures_live [of ops ?bs b off] adistinct_write_failures [OF rep_okD(1) [OF rep(1)], of ops b off] live
    by (auto simp: fs_def)
  have "length fs < length (live_addrs ?bs)"
    using sub a live d distinct_live_addrs [OF rep_okD(1) [OF rep(1)]] by (intro shorter_keys) (auto simp: adistinct_def)
  then have w: "writeInNormalMode ops b off c =
      Some (?c1, int (length b), if fs = [] then None else Some (BackendError fs ?wbs))"
    by (simp add: writeInNormalMode_def WriteAt_outcome [OF rep(1) av rep(2) fs_def])
  have ok1: "ctl_ok ?c1" using ctl_ok_touch [OF ok, of ?f] by simp
  show ?thesis
  proof (cases "fs = []")
    case True
    then show ?thesis using w assms(2,3) ok1 recordMetrics_frame [of False "int (length b)" lat ?c1]
      by (auto simp: Controller.WriteAt_def Let_def modes_def intro: ctl_ok_cong)
  next
    case False
    have ex: "exist_errs fs = {}" using ne by (auto simp: exist_errs_def)
    have rw1: "rw_of ?c1 = rw_of c" "wo_of ?c1 = wo_of c" "modes ?c1 = modes c" by (simp_all add: rw_of_def wo_of_def modes_def)
    have v: "victims ?wbs fs ?c1 = fst ` set fs"
      using victims_normal [of a ?c1 fs ?wbs] a ex live(2) sub rw1 by simp
    obtain c' err where h: "handleErrorNoLock ops (Some (BackendError fs ?wbs)) ?c1 = Some (c', err)"
      "took_down ops (fst ` set fs) ?c1 c'"
      "err = (if space_errs ?wbs fs \<noteq> [] \<and> set (rw_of ?c1) - hard_errs fs \<subseteq> fst ` set (space_errs ?wbs fs) then Some ErrNoSpaceLeftOnDevice
            else if exist_errs fs = {} \<and> rw_of c' \<noteq> [] then None else Some (BackendError fs ?wbs))"
      using handleErrorNoLock_eq [OF ok1 d False refl, of ops ?wbs] unfolding v by blast
    note t = took_downD [OF h(2) ok1]
    have "a \<in> set (rw_of c')" using a t(2) by (force simp: rw_of_def down_replicas_def)
    moreover have "\<not> set (rw_of ?c1) - hard_errs fs \<subseteq> fst ` set (space_errs ?wbs fs)"
      using a rw1 errs_classes [of fs ?wbs] by auto
    ultimately have "err = None" using h(3) ex by auto
    then show ?thesis using w h(1) False assms(2,3) t rw1 by (simp add: Controller.WriteAt_def Let_def)
  qed
qed

theorem one_working_replica_suffices_witness:
  "\<exists>c'. Controller.WriteAt (file_backend ram_os) 0 [7] 1 (two_replicas RW [1, 2, 3] 5 0) = Some (c', 1, None) \<and> ctl_ok c' \<and>
     modes c' = [(''a'', RW), (''b'', ERR)]"
proof -
  let ?c = "two_replicas RW [1, 2, 3] 5 0"
  have h: "\<not> hasWOReplica ?c" "\<not> beyond 1 (int (length [7 :: byte])) ?c" "''a'' \<in> set (rw_of ?c)"
    "write_failures (file_backend ram_os) (backends (cbackend ?c)) [7] 1 = [(''b'', ErrNoSpaceLeftOnDevice)]"
    "modes ?c = [(''a'', RW), (''b'', RW)]" "\<not> isSnapshotDiskExist ErrNoSpaceLeftOnDevice"
    by code_simp+
  have ok: "ctl_ok ?c" by (rule two_replicas_ok) simp
  from one_working_replica_suffices [OF ok h(1,2) refl h(3), of "file_backend ram_os" 0] show ?thesis
    unfolding h(4) by (simp add: h(5,6))
qed

section \<open>Full disks\<close>


definition full_errs :: "(string \<times> go_error) list" where
  "full_errs = [(''a'', Err ''write: no space left on device''), (''b'', Err ''write: no space left on device'')]"


section \<open>Where the error handling goes wrong\<close>

text \<open>File backends whose unmap fails once their budget is spent.\<close>

definition unmap_ops :: "ram_file backend_ops" where
  "unmap_ops = (file_backend ram_os)\<lparr>b_UnmapAt := \<lambda>h len off.
     if ram_budget h = 0 then (h, 0, Some (Err ''unmap failed'')) else (h, uint len, None)\<rparr>"


lemma sector_part: "0 \<le> x \<Longrightarrow> x < 4096 \<Longrightarrow> (x + q * 4096) mod 4096 = x \<and> (x + q * 4096) div 4096 = q"
  for x q :: int
  by simp


text \<open>File backends of which one fails its reads.\<close>

definition flaky_ops :: "ram_file backend_ops" where
  "flaky_ops = (file_backend ram_os)\<lparr>b_ReadAt := \<lambda>h p off.
     if ram_budget h = 0 then (h, p, 0, Some (Err ''read failed'')) else ram_ReadAt h p off\<rparr>"

definition three_replicas :: "byte list \<Rightarrow> (ram_file, unit) controller" where
  "three_replicas xs =
     (two_replicas RW xs 5 0)
       \<lparr>creplicas := creplicas (two_replicas RW xs 5 0) @ [\<lparr>Address = ''w'', RMode = WO\<rparr>],
        cbackend := AddBackend ''w'' (Some (ram xs 5)) WO (cbackend (two_replicas RW xs 5 0))\<rparr>"

lemma three_replicas_readers:
  "backends (cbackend (three_replicas xs)) =
     [(''a'', \<lparr>wbackend = Some (ram xs 5), wmode = RW\<rparr>), (''b'', \<lparr>wbackend = Some (ram xs 0), wmode = RW\<rparr>),
      (''w'', \<lparr>wbackend = Some (ram xs 5), wmode = WO\<rparr>)]"
  "readers (cbackend (three_replicas xs)) = [''a'', ''b'']" "readerIndex (cbackend (three_replicas xs)) = [(0, ''a''), (1, ''b'')]"
  "backendsAvailable (cbackend (three_replicas xs))" "rnext (cbackend (three_replicas xs)) = 0"
  by (simp_all add: three_replicas_def two_replicas_def AddBackend_def new_replicator_def
      buildReaderWriterUnmappers_def reset_def Let_def)



definition stuck_frontend :: "unit frontend_ops" where
  "stuck_frontend = \<lparr> fe_FrontendName = \<lambda>f. ''nbd'', fe_State = \<lambda>f. StateUp, fe_Init = \<lambda>f n s t. (f, None),
     fe_Startup = \<lambda>f. (f, None), fe_Shutdown = \<lambda>f. (f, Some (Err ''device is busy'')),
     fe_Upgrade = \<lambda>f n s t. (f, None), fe_Expand = \<lambda>f s. (f, None), fe_Endpoint = \<lambda>f. [] \<rparr>"


end
