(* ===== verification/ReplicaDir.thy ===== *)
theory ReplicaDir
  imports DiffDisk "HOL-Library.List_Lexorder" "HOL-Library.Char_ord"
begin

text \<open>
  The directory of a replica.  The first part holds the names of its files
  (\<^verbatim>\<open>pkg/util/disk/disk.go\<close> and \<^verbatim>\<open>nextFile\<close> of \<^verbatim>\<open>pkg/replica/replica.go\<close>), the second the data that is
  kept in them, the third the calls of the operating system that the replica makes.

  A file is a name and its content: an image, of which the directory holds the number of the inode,
  or a JSON document, of which it holds the value.  The contents of the images are the list
  \<open>store\<close>, indexed by inode; a hard link is a second name for the same inode.  A JSON document is
  only ever replaced by a rename, so its value may be kept per name.  Names are relative to the
  directory of the replica, as are the paths in the texts of errors.

  Every call that changes the directory may fail: \<open>faults\<close> tells for each of the coming calls whether it
  fails, which has no effect on the directory.  A crash is a schedule in which all calls from some
  point on fail: what is left is the directory as it was then.
  The buffer \<open>revisionCounterBuf\<close> is a variable of the package \<^verbatim>\<open>replica\<close>.
\<close>

section \<open>Names\<close>

definition GenerateSnapshotDiskName :: "string \<Rightarrow> string" where
  "GenerateSnapshotDiskName name = ''volume-snap-'' @ name @ ''.img''"

definition GenerateSnapshotDiskChecksumName :: "string \<Rightarrow> string" where
  "GenerateSnapshotDiskChecksumName diskName = diskName @ ''.checksum''"

definition GenerateSnapshotDiskMetaName :: "string \<Rightarrow> string" where
  "GenerateSnapshotDiskMetaName diskName = diskName @ ''.meta''"

definition GenerateDeltaFileName :: "string \<Rightarrow> string" where
  "GenerateDeltaFileName name = ''volume-delta-'' @ name @ ''.img''"

definition GenerateSnapTempFileName :: "string \<Rightarrow> string" where
  "GenerateSnapTempFileName fileName = fileName @ ''.snap_tmp''"

definition GetSnapshotNameFromTempFileName :: "string \<Rightarrow> go_error + string" where
  "GetSnapshotNameFromTempFileName tmpFileName =
     (if \<not> HasSuffix tmpFileName ''.snap_tmp'' then Inl (Err ''invalid snapshot tmp filename'')
      else Inr (TrimSuffix tmpFileName ''.snap_tmp''))"

definition GetSnapshotNameFromDiskName :: "string \<Rightarrow> go_error + string" where
  "GetSnapshotNameFromDiskName diskName =
     (if \<not> HasPrefix diskName ''volume-snap-'' \<or> \<not> HasSuffix diskName ''.img''
      then Inl (Err (''invalid snapshot disk name '' @ diskName))
      else Inr (TrimSuffix (TrimPrefix diskName ''volume-snap-'') ''.img''))"

definition GenerateExpansionSnapshotName :: "int \<Rightarrow> string" where
  "GenerateExpansionSnapshotName sz = ''expand-'' @ show_int sz"

definition GenerateExpansionSnapshotLabels :: "int \<Rightarrow> (string \<times> string) list" where
  "GenerateExpansionSnapshotLabels sz = [(''replica-expansion'', show_int sz)]"

definition IsHeadDisk :: "string \<Rightarrow> bool" where
  "IsHeadDisk diskName \<longleftrightarrow> HasPrefix diskName ''volume-head-'' \<and> HasSuffix diskName ''.img''"

text \<open>\<^verbatim>\<open>%03d\<close> in \<^verbatim>\<open>VolumeHeadDiskName\<close>.\<close>

definition pad3 :: "nat \<Rightarrow> string" where
  "pad3 n = replicate (3 - length (show_nat n)) (CHR ''0'') @ show_nat n"

definition VolumeHeadDiskName :: "nat \<Rightarrow> string" where
  "VolumeHeadDiskName n = ''volume-head-'' @ pad3 n @ ''.img''"

text \<open>
  A match of \<^verbatim>\<open>(\d)+.img\<close> at the beginning of a string, as the value of the group.  The group is
  repeated, so it holds the last digit the repetition consumed; the unescaped dot consumes one
  more character, which is a digit if the text \<^verbatim>\<open>img\<close> follows the digits at once.
\<close>

definition match_index :: "string \<Rightarrow> char option" where
  "match_index s =
     (let ds = takeWhile is_digit s; t = dropWhile is_digit s
      in if ds \<noteq> [] \<and> t \<noteq> [] \<and> hd t \<noteq> CHR 10 \<and> HasPrefix (tl t) ''img'' then Some (last ds)
         else if 2 \<le> length ds \<and> HasPrefix t ''img'' then Some (last (butlast ds))
         else None)"

text \<open>The leftmost match of the whole pattern.\<close>

fun diskPattern :: "string \<Rightarrow> char option" where
  "diskPattern [] = None"
| "diskPattern (c # s) =
     (if HasPrefix (c # s) ''volume-head-''
      then (case match_index (drop 12 (c # s)) of Some d \<Rightarrow> Some d | None \<Rightarrow> diskPattern s)
      else diskPattern s)"

definition nextFile :: "string \<Rightarrow> go_error + string" where
  "nextFile parent =
     (if parent = [] then Inr (VolumeHeadDiskName 0)
      else case diskPattern parent of
             None \<Rightarrow> Inl (Err (''invalid name '' @ parent @ '' does not match pattern: volume-head-('' @ [CHR 92] @ ''d)+.img''))
           | Some d \<Rightarrow> Inr (VolumeHeadDiskName (digit_val d + 1)))"

section \<open>Data\<close>

record disk =
  dName :: string
  dParent :: string
  dRemoved :: bool
  dUserCreated :: bool
  dCreated :: string
  dLabels :: "(string \<times> string) list option"

text \<open>An open backing file: its disk is the number of an inode.\<close>

record BackingFile =
  bfSize :: int
  bfVirtualSize :: int
  bfSectorSize :: int
  bfPath :: string
  bfDisk :: nat

record Info =
  iSize :: int
  iHead :: string
  iDirty :: bool
  iRebuilding :: bool
  iError :: string
  iParent :: string
  iSectorSize :: int
  iBackingFilePath :: string
  iBackingFile :: "BackingFile option"
  iEncrypted :: bool

definition zero_disk :: disk where
  "zero_disk = \<lparr> dName = [], dParent = [], dRemoved = False, dUserCreated = False, dCreated = [], dLabels = None \<rparr>"

definition zero_info :: Info where
  "zero_info = \<lparr> iSize = 0, iHead = [], iDirty = False, iRebuilding = False, iError = [], iParent = [],
     iSectorSize = 0, iBackingFilePath = [], iBackingFile = None, iEncrypted = False \<rparr>"

datatype content =
    Image nat
  | DiskJson disk
  | InfoJson Info
  | EmptyFile

text \<open>
  \<^verbatim>\<open>json.Encode\<close>: the field \<^verbatim>\<open>BackingFile\<close> is not written.  \<^verbatim>\<open>json.Decode\<close> overwrites the fields the
  document has; a disk and an \<^verbatim>\<open>Info\<close> have the field \<^verbatim>\<open>Parent\<close> in common.  An empty file is EOF,
  and the bytes of an image are no JSON.
\<close>

definition json_info :: "Info \<Rightarrow> content" where
  "json_info i = InfoJson (i\<lparr>iBackingFile := None\<rparr>)"

fun decode_disk :: "content \<Rightarrow> disk \<Rightarrow> disk \<times> go_error option" where
  "decode_disk (DiskJson d) x = (d, None)"
| "decode_disk (InfoJson i) x = (x\<lparr>dParent := iParent i\<rparr>, None)"
| "decode_disk EmptyFile x = (x, Some EOF)"
| "decode_disk (Image k) x = (x, Some (Err ''invalid character''))"

fun decode_info :: "content \<Rightarrow> Info \<Rightarrow> Info \<times> go_error option" where
  "decode_info (InfoJson i) x = (i\<lparr>iBackingFile := iBackingFile x\<rparr>, None)"
| "decode_info (DiskJson d) x = (x\<lparr>iParent := dParent d\<rparr>, None)"
| "decode_info EmptyFile x = (x, Some EOF)"
| "decode_info (Image k) x = (x, Some (Err ''invalid character''))"

section \<open>The operating system\<close>

record 'f world =
  entries :: "(string \<times> content) list"
  store :: "'f list"
  faults :: "nat \<Rightarrow> bool"
  revisionCounterBuf :: "byte list"

text \<open>
  What the replica needs of image files beyond \<^typ>\<open>'f file_ops\<close>: opening one
  (\<^verbatim>\<open>sparse.NewDirectFileIoProcessor\<close>, with the flag \<^verbatim>\<open>O_TRUNC\<close> or not, creating it if it is missing),
  the content of a new file, setting its size (\<^verbatim>\<open>syscall.Truncate\<close>), its blocks on disk, and the FIEMAP call on a metadata file.
\<close>

record 'f image_ops =
  im_open :: "string \<Rightarrow> bool \<Rightarrow> 'f world \<Rightarrow> 'f world \<times> (go_error + nat)"
  im_new :: 'f
  im_truncate :: "'f \<Rightarrow> int \<Rightarrow> 'f"
  im_blocks :: "'f \<Rightarrow> int"
  im_fiemap :: "content \<Rightarrow> go_error option"

definition next_call :: "'f world \<Rightarrow> bool \<times> 'f world" where
  "next_call w = (faults w 0, w\<lparr>faults := \<lambda>i. faults w (Suc i)\<rparr>)"

definition io_error :: go_error where
  "io_error = Err ''input/output error''"

definition os_exists :: "string \<Rightarrow> 'f world \<Rightarrow> bool" where
  "os_exists name w \<longleftrightarrow> alookup (entries w) name \<noteq> None"

definition os_call :: "('f world \<Rightarrow> 'f world \<times> go_error option) \<Rightarrow> 'f world \<Rightarrow> 'f world \<times> go_error option" where
  "os_call f w = (let (failed, w') = next_call w in if failed then (w', Some io_error) else f w')"

definition os_RemoveAll :: "string \<Rightarrow> 'f world \<Rightarrow> 'f world \<times> go_error option" where
  "os_RemoveAll name = os_call (\<lambda>w. (w\<lparr>entries := adelete (entries w) name\<rparr>, None))"

definition os_Remove :: "string \<Rightarrow> 'f world \<Rightarrow> 'f world \<times> go_error option" where
  "os_Remove name = os_call (\<lambda>w.
     if os_exists name w then (w\<lparr>entries := adelete (entries w) name\<rparr>, None) else (w, Some ErrNotExist))"

definition os_Link :: "string \<Rightarrow> string \<Rightarrow> 'f world \<Rightarrow> 'f world \<times> go_error option" where
  "os_Link old new = os_call (\<lambda>w.
     case alookup (entries w) old of
       None \<Rightarrow> (w, Some ErrNotExist)
     | Some c \<Rightarrow>
         if os_exists new w then (w, Some (Err ''file exists''))
         else (w\<lparr>entries := aupdate (entries w) new c\<rparr>, None))"

definition os_Create :: "string \<Rightarrow> 'f world \<Rightarrow> 'f world \<times> go_error option" where
  "os_Create name = os_call (\<lambda>w. (w\<lparr>entries := aupdate (entries w) name EmptyFile\<rparr>, None))"

definition os_Encode :: "string \<Rightarrow> content \<Rightarrow> 'f world \<Rightarrow> 'f world \<times> go_error option" where
  "os_Encode name c = os_call (\<lambda>w. (w\<lparr>entries := aupdate (entries w) name c\<rparr>, None))"

definition os_CloseFile :: "'f world \<Rightarrow> 'f world \<times> go_error option" where
  "os_CloseFile = os_call (\<lambda>w. (w, None))"

definition os_Rename :: "string \<Rightarrow> string \<Rightarrow> 'f world \<Rightarrow> 'f world \<times> go_error option" where
  "os_Rename old new = os_call (\<lambda>w.
     case alookup (entries w) old of
       None \<Rightarrow> (w, Some ErrNotExist)
     | Some c \<Rightarrow> (w\<lparr>entries := aupdate (adelete (entries w) old) new c\<rparr>, None))"

definition os_TruncateFile :: "'f image_ops \<Rightarrow> string \<Rightarrow> int \<Rightarrow> 'f world \<Rightarrow> 'f world \<times> go_error option" where
  "os_TruncateFile im name sz = os_call (\<lambda>w.
     case alookup (entries w) name of
       Some (Image k) \<Rightarrow> (w\<lparr>store := (store w)[k := im_truncate im (store w ! k) sz]\<rparr>, None)
     | Some _ \<Rightarrow> (w, None)
     | None \<Rightarrow> (w, Some ErrNotExist))"

text \<open>\<^verbatim>\<open>os.ReadDir\<close>: the names in order.\<close>

definition os_ReadDir :: "'f world \<Rightarrow> string list" where
  "os_ReadDir w = sort (map fst (entries w))"

text \<open>What is assumed of opening an image: the file is opened as it is, or created.\<close>

definition os_open :: "'f image_ops \<Rightarrow> string \<Rightarrow> bool \<Rightarrow> 'f world \<Rightarrow> 'f world \<times> (go_error + nat)" where
  "os_open im name trunc w =
     (let (failed, w') = next_call w
      in if failed then (w', Inl io_error)
         else case alookup (entries w') name of
                Some (Image k) \<Rightarrow>
                  (if trunc then w'\<lparr>store := (store w')[k := im_truncate im (store w' ! k) 0]\<rparr> else w', Inr k)
              | _ \<Rightarrow> (w'\<lparr>entries := aupdate (entries w') name (Image (length (store w'))),
                         store := store w' @ [im_new im]\<rparr>, Inr (length (store w'))))"

definition opens_images :: "'f image_ops \<Rightarrow> bool" where
  "opens_images im \<longleftrightarrow>
     (\<forall>name trunc w. (case alookup (entries w) name of None \<Rightarrow> True | Some c \<Rightarrow> \<exists>k. c = Image k) \<longrightarrow>
        im_open im name trunc w = os_open im name trunc w)"

end
