(* ===== verification/ReplicaMeta.thy ===== *)
theory ReplicaMeta
  imports ReplicaDir Backend
begin

text \<open>
  The disks of a replica (\<^verbatim>\<open>pkg/replica/replica.go\<close>, \<^verbatim>\<open>pkg/replica/revision_counter.go\<close>): the chain of
  snapshots and the head, kept in memory and in the directory.

  The code shares \<^verbatim>\<open>*disk\<close> pointers between the map \<^verbatim>\<open>diskData\<close> and the slice \<^verbatim>\<open>activeDiskData\<close> and
  changes disks through them, so a pointer is an index into \<open>heap\<close>.  The files of the volume are
  the inodes of the images.  The state of an operation is the directory and the replica; as
  elsewhere, a result \<^term>\<open>None\<close> is a panic, or a loop that does not end.
\<close>

section \<open>State\<close>

record replica =
  volume :: "nat diffDisk"
  info :: Info
  heap :: "disk list"
  diskData :: "(string \<times> nat) list"
  diskChildrenMap :: "(string \<times> string list) list"
  activeDiskData :: "nat option list"
  readOnly :: bool
  revisionCache :: int
  revisionFile :: "nat option"
  revisionCounterDisabled :: bool
  unmapMarkDiskChainRemoved :: bool
  snapshotMaxCount :: int
  snapshotMaxSize :: int

type_synonym 'f rs = "'f world \<times> replica"

definition volumeMetaData :: string where
  "volumeMetaData = ''volume.meta''"

definition meta_name :: "string \<Rightarrow> string" where
  "meta_name name = name @ ''.meta''"

definition disk_at :: "replica \<Rightarrow> string \<Rightarrow> disk option" where
  "disk_at r name = map_option (\<lambda>p. heap r ! p) (alookup (diskData r) name)"

definition set_disk :: "nat \<Rightarrow> disk \<Rightarrow> replica \<Rightarrow> replica" where
  "set_disk p d r = r\<lparr>heap := (heap r)[p := d]\<rparr>"

text \<open>
  The calls of the volume on its open files.  Reading calls answer from the content of the inode;
  the calls that change a content are applied to the store by the operations that make them.
\<close>

definition handle_ops :: "'f file_ops \<Rightarrow> 'f world \<Rightarrow> nat file_ops" where
  "handle_ops fops w =
     \<lparr> f_WriteAt = \<lambda>h p off. (h, snd (f_WriteAt fops (store w ! h) p off)),
       f_ReadAt = \<lambda>h p off. f_ReadAt fops (store w ! h) p off,
       f_UnmapAt = \<lambda>h len off. (h, snd (f_UnmapAt fops (store w ! h) len off)),
       f_Size = \<lambda>h. f_Size fops (store w ! h),
       f_Close = \<lambda>h. (h, snd (f_Close fops (store w ! h))),
       f_Fiemap = \<lambda>h start len n. f_Fiemap fops (store w ! h) start len n \<rparr>"

section \<open>Writing metadata\<close>

type_synonym 'f rollback = "'f rs \<Rightarrow> 'f rs \<times> go_error option"

definition on_world :: "('f world \<Rightarrow> 'f world \<times> go_error option) \<Rightarrow> 'f rollback" where
  "on_world f = (\<lambda>(w, r). let (w', e) = f w in ((w', r), e))"

definition encodeToFile ::
  "content \<Rightarrow> string \<Rightarrow> replica \<Rightarrow> 'f world \<Rightarrow> 'f world \<times> 'f rollback option \<times> go_error option" where
  "encodeToFile obj file r w =
     (if readOnly r then (w, None, None)
      else
        let tmpFileName = file @ ''.tmp'';
            failed = (\<lambda>w e. let (w', rerr) = os_RemoveAll tmpFileName w
                            in (w', None, GenerateFunctionErrorWithRollback (Some e) rerr))
        in case os_Create tmpFileName w of
             (w1, Some e) \<Rightarrow> failed w1 (Wrapped (''failed to create the tmp file for file '' @ file) e)
           | (w1, None) \<Rightarrow>
               (case os_Encode tmpFileName obj w1 of
                  (w2, Some e) \<Rightarrow> failed w2 e
                | (w2, None) \<Rightarrow>
                    (case os_CloseFile w2 of
                       (w3, Some e) \<Rightarrow> failed w3 e
                     | (w3, None) \<Rightarrow>
                         (case os_Rename tmpFileName file w3 of
                            (w4, Some e) \<Rightarrow> failed w4 e
                          | (w4, None) \<Rightarrow> (w4, Some (on_world (os_RemoveAll tmpFileName)), None)))))"

definition writeVolumeMetaData :: "bool \<Rightarrow> bool \<Rightarrow> replica \<Rightarrow> 'f world \<Rightarrow> 'f world \<times> go_error option" where
  "writeVolumeMetaData dirty rebuilding r w =
     (let (w', _, e) = encodeToFile (json_info ((info r)\<lparr>iDirty := dirty, iRebuilding := rebuilding\<rparr>)) volumeMetaData r w
      in (w', e))"

definition rmDisk :: "string \<Rightarrow> 'f world \<Rightarrow> 'f world \<times> go_error option" where
  "rmDisk name w =
     (if name = [] then (w, None)
      else
        let (w1, e1) = os_RemoveAll name w;
            (w2, e2) = os_RemoveAll (name @ ''.meta'') w1;
            (w3, e3) = os_RemoveAll (name @ ''.checksum'') w2
        in (w3, if e3 \<noteq> None then e3 else if e2 \<noteq> None then e2 else e1))"

section \<open>Parents and children\<close>

definition addChildDisk :: "string \<Rightarrow> string \<Rightarrow> replica \<Rightarrow> replica" where
  "addChildDisk parent child r =
     (let children = (case alookup (diskChildrenMap r) parent of None \<Rightarrow> [] | Some cs \<Rightarrow> cs)
      in r\<lparr>diskChildrenMap :=
             aupdate (diskChildrenMap r) parent (if child \<in> set children then children else children @ [child])\<rparr>)"

definition rmChildDisk :: "string \<Rightarrow> string \<Rightarrow> replica \<Rightarrow> replica" where
  "rmChildDisk parent child r =
     (case alookup (diskChildrenMap r) parent of
        None \<Rightarrow> r
      | Some children \<Rightarrow>
          if child \<notin> set children then r
          else
            let rest = filter (\<lambda>c. c \<noteq> child) children
            in r\<lparr>diskChildrenMap :=
                   if rest = [] then adelete (diskChildrenMap r) parent
                   else aupdate (diskChildrenMap r) parent rest\<rparr>)"

definition updateChildDisk :: "string \<Rightarrow> string \<Rightarrow> replica \<Rightarrow> replica option" where
  "updateChildDisk oldName newName r =
     do { d \<leftarrow> disk_at r oldName;
          let r1 = rmChildDisk (dParent d) oldName r
          in Some (if newName \<noteq> [] then addChildDisk (dParent d) newName r1 else r1) }"

definition updateParentDisk :: "string \<Rightarrow> string \<Rightarrow> 'f rs \<Rightarrow> ('f rs \<times> go_error option) option" where
  "updateParentDisk name oldParent = (\<lambda>(w, r).
     do { p \<leftarrow> alookup (diskData r) name;
          parent \<leftarrow> (if oldParent \<noteq> [] then map_option dParent (disk_at r oldParent) else Some []);
          let child = (heap r ! p)\<lparr>dParent := parent\<rparr>;
              r1 = set_disk p child r;
              (w1, _, e) = encodeToFile (DiskJson child) (dName child @ ''.meta'') r1 w
          in Some ((w1, r1), e) })"

section \<open>The chain\<close>

fun find_loop :: "disk list \<Rightarrow> nat option list \<Rightarrow> int \<Rightarrow> string \<Rightarrow> int option" where
  "find_loop h [] i name = Some 0"
| "find_loop h (None # ds) i name = None"
| "find_loop h (Some p # ds) i name = (if dName (h ! p) = name then Some i else find_loop h ds (i + 1) name)"

definition findDisk :: "string \<Rightarrow> replica \<Rightarrow> int option" where
  "findDisk name r = find_loop (heap r) (tl (activeDiskData r)) 1 name"

partial_function (option) chain_loop :: "replica \<Rightarrow> string \<Rightarrow> string list \<Rightarrow> (go_error + string list) option" where
  "chain_loop r cur result =
     (if cur = [] then Some (Inr result)
      else case disk_at r cur of
             None \<Rightarrow> Some (Inl (Err (''failed to find metadata for '' @ cur)))
           | Some d \<Rightarrow> chain_loop r (dParent d) (result @ [cur]))"

declare chain_loop.simps [code]

definition Chain :: "replica \<Rightarrow> (go_error + string list) option" where
  "Chain r = chain_loop r (iHead (info r)) []"

partial_function (option) display_loop :: "replica \<Rightarrow> string \<Rightarrow> string list \<Rightarrow> (go_error + string list) option" where
  "display_loop r cur result =
     (if cur = [] then Some (Inr result)
      else case disk_at r cur of
             None \<Rightarrow> Some (Inl (Err (''failed to find metadata for '' @ cur)))
           | Some d \<Rightarrow> display_loop r (dParent d) (if dRemoved d then result else result @ [cur]))"

declare display_loop.simps [code]

definition DisplayChain :: "replica \<Rightarrow> (go_error + string list) option" where
  "DisplayChain r = display_loop r (iHead (info r)) []"

section \<open>Counting snapshots\<close>

definition backing_disk_name :: "replica \<Rightarrow> string option" where
  "backing_disk_name r =
     (case activeDiskData r of [] \<Rightarrow> None | None # ds \<Rightarrow> Some [] | Some p # ds \<Rightarrow> Some (dName (heap r ! p)))"

definition counted :: "string \<Rightarrow> replica \<Rightarrow> disk \<Rightarrow> bool" where
  "counted backingDiskName r d \<longleftrightarrow>
     \<not> (dRemoved d \<or> dName d = backingDiskName \<or> dName d = iHead (info r))"

definition getSnapshotCountUsage :: "replica \<Rightarrow> int option" where
  "getSnapshotCountUsage r =
     do { b \<leftarrow> backing_disk_name r;
          Some (int (length (filter (\<lambda>(n, p). counted b r (heap r ! p)) (diskData r)))) }"

definition getSnapshotCountTotal :: "replica \<Rightarrow> int" where
  "getSnapshotCountTotal r = int (length (diskData r))"

definition GetSnapshotCount :: "replica \<Rightarrow> (int \<times> int) option" where
  "GetSnapshotCount r = do { u \<leftarrow> getSnapshotCountUsage r; Some (u, getSnapshotCountTotal r) }"

definition getRemainSnapshotCounts :: "replica \<Rightarrow> int option" where
  "getRemainSnapshotCounts r = do { u \<leftarrow> getSnapshotCountUsage r; Some (snapshotMaxCount r - u) }"

text \<open>A file that is missing has the size \<open>-1\<close> and puts the replica into an error state.\<close>

definition getDiskSize :: "'f image_ops \<Rightarrow> string \<Rightarrow> 'f rs \<Rightarrow> 'f rs \<times> int" where
  "getDiskSize im name = (\<lambda>(w, r).
     let failed = (w, if iError (info r) = []
                      then r\<lparr>info := (info r)\<lparr>iError := ''Failed to get file '' @ name @ '' size''\<rparr>\<rparr> else r)
     in case alookup (entries w) name of
          Some (Image k) \<Rightarrow> ((w, r), im_blocks im (store w ! k))
        | _ \<Rightarrow> (failed, -1))"

fun size_usage_loop :: "'f image_ops \<Rightarrow> string \<Rightarrow> nat option list \<Rightarrow> 'f rs \<Rightarrow> int \<Rightarrow> 'f rs \<times> int" where
  "size_usage_loop im b [] s acc = (s, acc)"
| "size_usage_loop im b (None # ds) s acc = size_usage_loop im b ds s acc"
| "size_usage_loop im b (Some p # ds) s acc =
     (if \<not> counted b (snd s) (heap (snd s) ! p) then size_usage_loop im b ds s acc
      else let (s', n) = getDiskSize im (dName (heap (snd s) ! p)) s in size_usage_loop im b ds s' (acc + n))"

definition GetSnapshotSizeUsage :: "'f image_ops \<Rightarrow> 'f rs \<Rightarrow> ('f rs \<times> int) option" where
  "GetSnapshotSizeUsage im s =
     do { b \<leftarrow> backing_disk_name (snd s); Some (size_usage_loop im b (activeDiskData (snd s)) s 0) }"

section \<open>Creating a disk\<close>

definition createNewHead ::
  "'f image_ops \<Rightarrow> string \<Rightarrow> string \<Rightarrow> string \<Rightarrow> int \<Rightarrow> replica \<Rightarrow> 'f world \<Rightarrow>
     'f world \<times> (nat \<times> disk \<times> 'f rollback) option \<times> go_error option" where
  "createNewHead im oldHead parent created sz r w =
     (case nextFile oldHead of
        Inl e \<Rightarrow> (w, None, Some e)
      | Inr newHeadName \<Rightarrow>
          if os_exists newHeadName w then (w, None, Some (Err (newHeadName @ '' already exists'')))
          else
            (case im_open im newHeadName True w of
               (w1, Inl e) \<Rightarrow> (w1, None, Some e)
             | (w1, Inr f) \<Rightarrow>
                 let failed = (\<lambda>w e. let (w', rerr) = rmDisk newHeadName w
                                     in (w', None, GenerateFunctionErrorWithRollback (Some e) rerr))
                 in case os_TruncateFile im newHeadName sz w1 of
                      (w2, Some e) \<Rightarrow> failed w2 e
                    | (w2, None) \<Rightarrow>
                        let newDisk = \<lparr> dName = newHeadName, dParent = parent, dRemoved = False, dUserCreated = False,
                                        dCreated = created, dLabels = None \<rparr>
                        in case encodeToFile (DiskJson newDisk) (newHeadName @ ''.meta'') r w2 of
                             (w3, sub, Some e) \<Rightarrow> failed w3 e
                           | (w3, sub, None) \<Rightarrow>
                               (w3, Some (f, newDisk,
                                  (\<lambda>s. case sub of
                                         None \<Rightarrow> on_world (rmDisk newHeadName) s
                                       | Some g \<Rightarrow>
                                           let (s1, e1) = g s; (s2, e2) = on_world (rmDisk newHeadName) s1
                                           in (s2, CombineErrors [e1, e2]))), None)))"

definition linkDisk :: "string \<Rightarrow> string \<Rightarrow> 'f world \<Rightarrow> 'f world \<times> 'f rollback option \<times> go_error option" where
  "linkDisk oldName newName w =
     (if oldName = [] then (w, None, None)
      else
        let failed = (\<lambda>w e. let (w', rerr) = rmDisk newName w
                            in (w', None, GenerateFunctionErrorWithRollback (Some e) rerr))
        in case os_RemoveAll (newName @ ''.meta'') w of
             (w1, Some e) \<Rightarrow> (w1, None, Some (Wrapped (''failed to clean up new disk metadata file '' @ newName @ ''.meta before linking'') e))
           | (w1, None) \<Rightarrow>
               (case os_RemoveAll (newName @ ''.checksum'') w1 of
                  (w2, Some e) \<Rightarrow> (w2, None, Some (Wrapped (''failed to clean up new disk checksum file '' @ newName @ ''.checksum before linking'') e))
                | (w2, None) \<Rightarrow>
                    (case os_RemoveAll newName w2 of
                       (w3, Some e) \<Rightarrow> (w3, None, Some (Wrapped (''failed to clean up new disk file '' @ newName @ '' before linking'') e))
                     | (w3, None) \<Rightarrow>
                         (case os_Link oldName newName w3 of
                            (w4, Some e) \<Rightarrow> failed w4 e
                          | (w4, None) \<Rightarrow>
                              (case os_Link (oldName @ ''.meta'') (newName @ ''.meta'') w4 of
                                 (w5, Some e) \<Rightarrow> failed w5 e
                               | (w5, None) \<Rightarrow> (w5, Some (on_world (rmDisk newName)), None))))))"

fun run_rollbacks :: "'f rollback list \<Rightarrow> 'f rs \<Rightarrow> go_error option \<Rightarrow> 'f rs \<times> go_error option" where
  "run_rollbacks [] s err = (s, err)"
| "run_rollbacks (f # fs) s err = (let (s', e) = f s in run_rollbacks fs s' (CombineErrors [err, e]))"

text \<open>
  The snapshot's part of the in-memory update: the new snapshot takes over the \<^verbatim>\<open>*disk\<close> of the old
  head, which is renamed through the slice of active disks only after its metadata was written.
\<close>

definition snapshot_disk ::
  "string \<Rightarrow> string \<Rightarrow> string \<Rightarrow> bool \<Rightarrow> string \<Rightarrow> (string \<times> string) list option \<Rightarrow> 'f rs \<Rightarrow>
     ('f rs \<times> go_error option) option" where
  "snapshot_disk oldHead newSnapName newHead userCreated created lbls = (\<lambda>(w, r).
     let r1 = addChildDisk newSnapName newHead r
     in do { p \<leftarrow> alookup (diskData r1) oldHead;
             let d = (heap r1 ! p)\<lparr>dUserCreated := userCreated, dCreated := created, dLabels := lbls\<rparr>;
                 r2 = set_disk p d (r1\<lparr>diskData := aupdate (diskData r1) newSnapName p\<rparr>);
                 (w1, _, e) = encodeToFile (DiskJson d) (newSnapName @ ''.meta'') r2 w
             in if e \<noteq> None then Some ((w1, r2), e)
                else do { r3 \<leftarrow> updateChildDisk oldHead newSnapName r2;
                          q \<leftarrow> (if activeDiskData r3 = [] then None else last (activeDiskData r3));
                          Some ((w1, set_disk q ((heap r3 ! q)\<lparr>dName := newSnapName\<rparr>) r3), None) } })"

definition forget_disks :: "string \<Rightarrow> string \<Rightarrow> 'f rollback" where
  "forget_disks newHead newSnapName = (\<lambda>(w, r).
     ((w, r\<lparr>diskData := adelete (adelete (diskData r) newHead) newSnapName,
            diskChildrenMap := adelete (diskChildrenMap r) newSnapName\<rparr>), None))"

definition restore_volume_meta :: "'f rollback option \<Rightarrow> 'f rollback" where
  "restore_volume_meta encodeRollback = (\<lambda>(w, r).
     let (w1, _, e) = encodeToFile (json_info (info r)) volumeMetaData r w;
         (s2, e2) = (case encodeRollback of None \<Rightarrow> ((w1, r), None) | Some g \<Rightarrow> g (w1, r))
     in (s2, CombineErrors [e2, e]))"

text \<open>The body of \<^verbatim>\<open>createDisk\<close> with the rollback functions it has registered, in order.\<close>

definition createDisk_body ::
  "'f image_ops \<Rightarrow> string \<Rightarrow> bool \<Rightarrow> string \<Rightarrow> (string \<times> string) list option \<Rightarrow> int \<Rightarrow> 'f rs \<Rightarrow>
     ('f rs \<times> 'f rollback list \<times> go_error option) option" where
  "createDisk_body im newSnapName userCreated created lbls sz = (\<lambda>(w, r).
     let oldHead = iHead (info r)
     in case createNewHead im oldHead newSnapName created sz r w of
          (w1, _, Some e) \<Rightarrow> Some ((w1, r), [], Some e)
        | (w1, None, None) \<Rightarrow> None
        | (w1, Some (f, newHeadDisk, rb1), None) \<Rightarrow>
            (case linkDisk oldHead newSnapName w1 of
               (w2, _, Some e) \<Rightarrow> Some ((w2, r), [rb1], Some e)
             | (w2, rb2, None) \<Rightarrow>
                 let rbs = rb1 # (case rb2 of None \<Rightarrow> [] | Some g \<Rightarrow> [g]);
                     info' = (info r)\<lparr>iHead := dName newHeadDisk, iDirty := True, iParent := newSnapName, iSize := sz\<rparr>
                 in case encodeToFile (json_info info') volumeMetaData r w2 of
                      (w3, _, Some e) \<Rightarrow> Some ((w3, r), rbs, Some e)
                    | (w3, rb3, None) \<Rightarrow>
                        let rbs3 = rbs @ [restore_volume_meta rb3];
                            p = length (heap r);
                            r1 = r\<lparr>heap := heap r @ [newHeadDisk], diskData := aupdate (diskData r) (dName newHeadDisk) p\<rparr>;
                            finish = (\<lambda>(w, r). (w, r\<lparr>diskData := adelete (diskData r) oldHead, info := info',
                               volume := (volume r)\<lparr>files := files (volume r) @ [Some f]\<rparr>,
                               activeDiskData := activeDiskData r @ [Some p]\<rparr>))
                        in if newSnapName = [] then Some (finish (w3, r1), rbs3, None)
                           else do { (s, e) \<leftarrow> snapshot_disk oldHead newSnapName (dName newHeadDisk) userCreated created lbls (w3, r1);
                                     (if e \<noteq> None then Some (s, rbs3 @ [forget_disks (dName newHeadDisk) newSnapName], e)
                                      else Some (finish s, rbs3, None)) }))"

definition createDisk ::
  "'f image_ops \<Rightarrow> string \<Rightarrow> bool \<Rightarrow> string \<Rightarrow> (string \<times> string) list option \<Rightarrow> int \<Rightarrow> 'f rs \<Rightarrow>
     ('f rs \<times> go_error option) option" where
  "createDisk im name userCreated created lbls sz = (\<lambda>(w, r).
     if readOnly r then Some ((w, r), Some (Err ''cannot create disk on read-only replica''))
     else do {
       remain \<leftarrow> getRemainSnapshotCounts r;
       if remain \<le> 0
       then Some ((w, r), Some (Err (''too many active disks: '' @ show_int (int (length (activeDiskData r)) - 2 + 1))))
       else
         let oldHead = iHead (info r);
             newSnapName = (if oldHead = [] then [] else GenerateSnapshotDiskName name)
         in if newSnapName \<noteq> [] \<and> alookup (diskData r) newSnapName \<noteq> None
            then Some ((w, r), Some (Err (''snapshot '' @ newSnapName @ '' is already existing'')))
            else do {
              (s, rbs, err) \<leftarrow> createDisk_body im newSnapName userCreated created lbls sz (w, r);
              (case err of
                 None \<Rightarrow> Some ((fst (rmDisk oldHead (fst s)), snd s), None)
               | Some e \<Rightarrow>
                   let (s', rollbackErr) = run_rollbacks rbs s None
                   in Some (s', WrapError (GenerateFunctionErrorWithRollback (Some e) rollbackErr)
                                  (''failed to create new disk '' @ name))) } })"

definition Snapshot ::
  "'f image_ops \<Rightarrow> string \<Rightarrow> bool \<Rightarrow> string \<Rightarrow> (string \<times> string) list option \<Rightarrow> 'f rs \<Rightarrow>
     ('f rs \<times> go_error option) option" where
  "Snapshot im name userCreated created lbls s = createDisk im name userCreated created lbls (iSize (info (snd s))) s"

definition Expand :: "'f image_ops \<Rightarrow> string \<Rightarrow> int \<Rightarrow> 'f rs \<Rightarrow> ('f rs \<times> go_error option) option" where
  "Expand im now sz = (\<lambda>(w, r).
     if sz smod 4096 \<noteq> 0 then Some ((w, r), Some (Err (''failed to expend volume replica size '' @ show_int sz @
          '', because it is not multiple of volume sector size 4096'')))
     else if sz < iSize (info r) then Some ((w, r), Some (Err (''cannot expand replica to a smaller size '' @ show_int sz)))
     else if iSize (info r) = sz then Some ((w, r), None)
     else do {
       ((w1, r1), e) \<leftarrow> createDisk im (GenerateExpansionSnapshotName sz) False now
                          (Some (GenerateExpansionSnapshotLabels sz)) sz (w, r);
       (if e \<noteq> None then Some ((w1, r1), e)
        else do { v \<leftarrow> DiffDisk.Expand (volume r1) sz; Some ((w1, r1\<lparr>volume := v\<rparr>), None) }) })"

end
