(* ===== verification/ReplicaOps.thy ===== *)
theory ReplicaOps
  imports ReplicaMeta
begin

text \<open>
  The other operations of a replica (\<^verbatim>\<open>pkg/replica/replica.go\<close>): removing and replacing disks, opening
  a replica from its directory, reverting to a snapshot, closing, and the reads, writes and unmaps
  on the volume; and its revision counter (\<^verbatim>\<open>pkg/replica/revision_counter.go\<close>).
\<close>

section \<open>Removing disks\<close>

definition removeDiskNode ::
  "'f file_ops \<Rightarrow> string \<Rightarrow> bool \<Rightarrow> 'f rs \<Rightarrow> ('f rs \<times> go_error option) option" where
  "removeDiskNode fops name force = (\<lambda>(w, r).
     case alookup (diskChildrenMap r) name of
       None \<Rightarrow> do { r1 \<leftarrow> updateChildDisk name [] r; Some ((w, r1\<lparr>diskData := adelete (diskData r1) name\<rparr>), None) }
     | Some children \<Rightarrow>
         if 1 < length children \<and> \<not> force
         then Some ((w, r), Some (Err (''cannot remove snapshot '' @ name @ '' with '' @ show_nat (length children) @ '' children'')))
         else
           let child = (if children = [] then [] else last children)
           in do {
             r1 \<leftarrow> updateChildDisk name child r;
             ((w2, r2), e) \<leftarrow> updateParentDisk child name (w, r1);
             if e \<noteq> None then Some ((w2, r2), e)
             else
               let r3 = r2\<lparr>diskData := adelete (diskData r2) name, diskChildrenMap := adelete (diskChildrenMap r2) name\<rparr>
               in do {
                 index \<leftarrow> findDisk name r3;
                 if index \<le> 0 then Some ((w2, r3), None)
                 else do {
                   (v, e) \<leftarrow> RemoveIndex (handle_ops fops w2) (volume r3) index;
                   if e \<noteq> None then Some ((w2, r3\<lparr>volume := v\<rparr>), e)
                   else do {
                     parent \<leftarrow> (if int (length (activeDiskData r3)) - 2 = index
                                then map_option dParent (disk_at r3 (iHead (info r3))) else Some (iParent (info r3)));
                     Some ((w2, r3\<lparr>volume := v, info := (info r3)\<lparr>iParent := parent\<rparr>,
                       activeDiskData := take (nat index) (activeDiskData r3) @ drop (nat index + 1) (activeDiskData r3)\<rparr>), None) } } } })"

definition RemoveDiffDisk ::
  "'f file_ops \<Rightarrow> string \<Rightarrow> bool \<Rightarrow> 'f rs \<Rightarrow> ('f rs \<times> go_error option) option" where
  "RemoveDiffDisk fops name force s =
     (if name = iHead (info (snd s)) then Some (s, Some (Err ''cannot delete the active differencing disk''))
      else do { (s1, e) \<leftarrow> removeDiskNode fops name force s;
                (if e \<noteq> None then Some (s1, e) else Some (on_world (rmDisk name) s1)) })"

definition markDiskAsRemoved :: "string \<Rightarrow> 'f rs \<Rightarrow> 'f rs \<times> go_error option" where
  "markDiskAsRemoved name = (\<lambda>(w, r).
     case alookup (diskData r) name of
       None \<Rightarrow> ((w, r), Some (Err (''cannot find disk '' @ name)))
     | Some p \<Rightarrow>
         if \<not> os_exists name w then ((w, r), Some (Err (''cannot find disk file '' @ name)))
         else if \<not> os_exists (name @ ''.meta'') w
         then ((w, r), Some (Err (''cannot find disk metafile '' @ name @ ''.meta'')))
         else
           let d = (heap r ! p)\<lparr>dRemoved := True\<rparr>;
               r1 = set_disk p d r;
               (w1, _, e) = encodeToFile (DiskJson d) (name @ ''.meta'') r1 w
           in ((w1, r1), e))"

text \<open>A disk is named by its file or by the name of the snapshot.\<close>

definition resolve_disk :: "string \<Rightarrow> replica \<Rightarrow> string option" where
  "resolve_disk name r =
     (if alookup (diskData r) name \<noteq> None then Some name
      else if alookup (diskData r) (GenerateSnapshotDiskName name) \<noteq> None then Some (GenerateSnapshotDiskName name)
      else None)"

definition MarkDiskAsRemoved :: "string \<Rightarrow> 'f rs \<Rightarrow> 'f rs \<times> go_error option" where
  "MarkDiskAsRemoved name s =
     (case resolve_disk name (snd s) of
        None \<Rightarrow> (s, None)
      | Some d \<Rightarrow>
          if d = iHead (info (snd s)) then (s, Some (Err ''cannot mark the active differencing disk as removed''))
          else let (s', e) = markDiskAsRemoved d s
               in (s', map_option (Wrapped (''failed to mark disk '' @ d @ '' as removed'')) e))"

datatype PrepareRemoveAction =
    OpCoalesce string string
  | OpRemove string
  | OpReplace string string
  | OpPrune string string

definition processPrepareRemoveDisks :: "string \<Rightarrow> replica \<Rightarrow> go_error + PrepareRemoveAction list" where
  "processPrepareRemoveDisks d r =
     (if alookup (diskData r) d = None then Inl (Err (''wrong disk '' @ d @ '' doesn't exist''))
      else case alookup (diskChildrenMap r) d of
             None \<Rightarrow> Inr [OpRemove d]
           | Some [child] \<Rightarrow>
               Inr (if child \<noteq> iHead (info r) then [OpCoalesce d child, OpReplace d child] else [OpPrune d child])
           | Some _ \<Rightarrow> Inr [])"

definition PrepareRemoveDisk :: "string \<Rightarrow> replica \<Rightarrow> go_error + PrepareRemoveAction list" where
  "PrepareRemoveDisk name r =
     (case resolve_disk name r of
        None \<Rightarrow> Inr []
      | Some d \<Rightarrow>
          if d = iHead (info r) then Inl (Err ''cannot delete the active differencing disk'')
          else if \<not> (case disk_at r d of None \<Rightarrow> False | Some x \<Rightarrow> dRemoved x)
          then Inl (Err (''disk '' @ d @ '' hasn't been marked as removed''))
          else processPrepareRemoveDisks d r)"

definition hardlinkDisk :: "string \<Rightarrow> string \<Rightarrow> 'f world \<Rightarrow> 'f world \<times> go_error option" where
  "hardlinkDisk target source w =
     (if \<not> os_exists source w then (w, Some (Err (''cannot find source of replacing: '' @ source)))
      else
        let (w1, e1) = (if os_exists target w then os_Remove target w else (w, None))
        in if e1 \<noteq> None then (w1, map_option (Wrapped (''failed to remove '' @ target)) e1)
           else let (w2, e2) = os_Link source target w1
                in (w2, if e2 \<noteq> None then Some (Err (''failed to hard link '' @ source @ '' to '' @ target)) else None))"

definition ReplaceDisk ::
  "'f image_ops \<Rightarrow> 'f file_ops \<Rightarrow> string \<Rightarrow> string \<Rightarrow> 'f rs \<Rightarrow> ('f rs \<times> go_error option) option" where
  "ReplaceDisk im fops target source s =
     (if target = iHead (info (snd s)) then Some (s, Some (Err ''cannot replace the active differencing disk''))
      else
        let (s1, e1) = on_world (hardlinkDisk target source) s
        in if e1 \<noteq> None then Some (s1, e1)
           else do {
             (s2, e2) \<leftarrow> removeDiskNode fops source False s1;
             if e2 \<noteq> None then Some (s2, e2)
             else
               let ((w3, r3), e3) = on_world (rmDisk source) s2
               in if e3 \<noteq> None then Some ((w3, r3), e3)
                  else do {
                    index \<leftarrow> findDisk target r3;
                    if index \<le> 0 then Some ((w3, r3), None)
                    else do {
                      h \<leftarrow> file_at (volume r3) index;
                      if snd (f_Close (handle_ops fops w3) h) \<noteq> None then Some ((w3, r3), snd (f_Close (handle_ops fops w3) h))
                      else do {
                        ptr \<leftarrow> go_nth (activeDiskData r3) index;
                        p \<leftarrow> ptr;
                        (case im_open im (dName (heap r3 ! p)) False w3 of
                           (w4, Inl e) \<Rightarrow> Some ((w4, r3), Some e)
                         | (w4, Inr h') \<Rightarrow>
                             Some ((w4, r3\<lparr>volume := (volume r3)\<lparr>files := (files (volume r3))[nat index := Some h']\<rparr>\<rparr>), None)) } } } })"

section \<open>The revision counter\<close>

definition revisionBlockSize :: nat where
  "revisionBlockSize = 4096"

definition trim_zeros :: "byte list \<Rightarrow> byte list" where
  "trim_zeros bs = rev (dropWhile (\<lambda>b. b = 0) (rev (dropWhile (\<lambda>b. b = 0) bs)))"

definition string_of_bytes :: "byte list \<Rightarrow> string" where
  "string_of_bytes bs = map (\<lambda>b. char_of (unat b)) bs"

definition bytes_of_string :: "string \<Rightarrow> byte list" where
  "bytes_of_string s = map (\<lambda>c. of_nat (of_char c)) s"

definition readRevisionCounter :: "'f file_ops \<Rightarrow> 'f rs \<Rightarrow> go_error + int" where
  "readRevisionCounter fops = (\<lambda>(w, r).
     case revisionFile r of
       None \<Rightarrow> Inl (Err ''BUG: revision file wasn't initialized'')
     | Some h \<Rightarrow>
         let (buf, _, err) = f_ReadAt fops (store w ! h) (replicate revisionBlockSize 0) 0
         in case err of
              Some e \<Rightarrow> if e \<noteq> EOF then Inl (Wrapped ''failed to read from revision counter file'' e)
                        else (case ParseInt (string_of_bytes (trim_zeros buf)) of
                                None \<Rightarrow> Inl (Wrapped ''failed to parse revision counter file'' (Err ''invalid syntax''))
                              | Some n \<Rightarrow> Inr n)
            | None \<Rightarrow> (case ParseInt (string_of_bytes (trim_zeros buf)) of
                         None \<Rightarrow> Inl (Wrapped ''failed to parse revision counter file'' (Err ''invalid syntax''))
                       | Some n \<Rightarrow> Inr n))"

text \<open>
  The buffer is shared by all calls: the digits are copied to its front,
  and only the first 20 bytes are cleared behind them.
\<close>

definition counter_buf :: "byte list \<Rightarrow> int \<Rightarrow> byte list" where
  "counter_buf buf counter =
     (let bs = bytes_of_string (show_int counter)
      in copy_at (copy_at buf 0 bs) (length bs) (replicate (20 - length bs) 0))"

definition writeRevisionCounter :: "'f file_ops \<Rightarrow> int \<Rightarrow> 'f rs \<Rightarrow> 'f rs \<times> go_error option" where
  "writeRevisionCounter fops counter = (\<lambda>(w, r).
     case revisionFile r of
       None \<Rightarrow> ((w, r), Some (Err ''BUG: revision file wasn't initialized''))
     | Some h \<Rightarrow>
         let buf = counter_buf (revisionCounterBuf w) counter;
             (f', _, err) = f_WriteAt fops (store w ! h) buf 0
         in ((w\<lparr>store := (store w)[h := f'], revisionCounterBuf := buf\<rparr>, r),
             map_option (Wrapped ''failed to write to revision counter file'') err))"

definition SetRevisionCounter :: "'f file_ops \<Rightarrow> int \<Rightarrow> 'f rs \<Rightarrow> 'f rs \<times> go_error option" where
  "SetRevisionCounter fops counter s =
     (let ((w, r), err) = writeRevisionCounter fops counter s
      in if err \<noteq> None then ((w, r), err) else ((w, r\<lparr>revisionCache := counter\<rparr>), None))"

definition revisionCounterFile :: string where
  "revisionCounterFile = ''revision.counter''"

definition initRevisionCounter ::
  "'f image_ops \<Rightarrow> 'f file_ops \<Rightarrow> 'f rs \<Rightarrow> 'f rs \<times> go_error option" where
  "initRevisionCounter im fops = (\<lambda>(w, r).
     if readOnly r then ((w, r), None)
     else
       let isNew = \<not> os_exists revisionCounterFile w
       in case im_open im revisionCounterFile False w of
            (w1, Inl e) \<Rightarrow> ((w1, r), Some e)
          | (w1, Inr h) \<Rightarrow>
              let (s2, e2) = (if isNew then writeRevisionCounter fops 0 (w1, r\<lparr>revisionFile := Some h\<rparr>)
                              else ((w1, r\<lparr>revisionFile := Some h\<rparr>), None))
              in if e2 \<noteq> None then (s2, e2)
                 else case readRevisionCounter fops s2 of
                        Inl e \<Rightarrow> (s2, Some e)
                      | Inr n \<Rightarrow> ((fst s2, (snd s2)\<lparr>revisionCache := n\<rparr>), None))"

section \<open>Opening a replica\<close>

definition readDiskData :: "string \<Rightarrow> 'f world \<Rightarrow> replica \<Rightarrow> replica \<times> go_error option" where
  "readDiskData file w r =
     (case alookup (entries w) file of
        None \<Rightarrow> (r, Some ErrNotExist)
      | Some c \<Rightarrow>
          (case decode_disk c zero_disk of
             (d, Some e) \<Rightarrow> (r, Some e)
           | (d, None) \<Rightarrow>
               let name = take (length file - 5) file;
                   r1 = r\<lparr>heap := heap r @ [d\<lparr>dName := name\<rparr>], diskData := aupdate (diskData r) name (length (heap r))\<rparr>
               in (if dParent d \<noteq> [] then addChildDisk (dParent d) name r1 else r1, None)))"

fun readMetadata_loop :: "string list \<Rightarrow> 'f world \<Rightarrow> replica \<Rightarrow> replica \<times> go_error option" where
  "readMetadata_loop [] w r = (r, None)"
| "readMetadata_loop (file # fs) w r =
     (if file = volumeMetaData then
        (case alookup (entries w) file of
           None \<Rightarrow> (r, Some ErrNotExist)
         | Some c \<Rightarrow>
             (case decode_info c (info r) of
                (i, Some e) \<Rightarrow> (r\<lparr>info := i\<rparr>, Some e)
              | (i, None) \<Rightarrow>
                  readMetadata_loop fs w (r\<lparr>info := i, volume := (volume r)\<lparr>sectorSize := 4096, dsize := iSize i\<rparr>\<rparr>)))
      else if HasSuffix file ''.meta'' then
        (case readDiskData file w r of
           (r1, Some e) \<Rightarrow> (r1, Some e)
         | (r1, None) \<Rightarrow> readMetadata_loop fs w r1)
      else readMetadata_loop fs w r)"

definition readMetadata :: "'f world \<Rightarrow> replica \<Rightarrow> replica \<times> bool \<times> go_error option" where
  "readMetadata w r =
     (let (r1, e) = readMetadata_loop (os_ReadDir w) w (r\<lparr>diskData := []\<rparr>)
      in if e \<noteq> None then (r1, False, e) else (r1, diskData r1 \<noteq> [], None))"

definition checkValidVolumeMetaData :: "'f world \<Rightarrow> replica \<Rightarrow> replica \<times> bool \<times> go_error option" where
  "checkValidVolumeMetaData w r =
     (case alookup (entries w) volumeMetaData of
        None \<Rightarrow> (r, False, None)
      | Some c \<Rightarrow>
          (case decode_info c (info r) of
             (i, None) \<Rightarrow> (r\<lparr>info := i\<rparr>, True, None)
           | (i, Some e) \<Rightarrow> (r\<lparr>info := i\<rparr>, False, if e = EOF then None else Some e)))"

definition tryRecoverVolumeMetaFile :: "string \<Rightarrow> 'f rs \<Rightarrow> 'f rs \<times> go_error option" where
  "tryRecoverVolumeMetaFile head = (\<lambda>(w, r).
     let (r1, valid, e) = checkValidVolumeMetaData w r
     in if e \<noteq> None then ((w, r1), e)
        else if valid then ((w, r1), None)
        else
          let r2 = (if head \<noteq> [] then r1\<lparr>info := (info r1)\<lparr>iHead := head\<rparr>\<rparr> else r1);
              r3 = (if iHead (info r2) = []
                    then (case filter (\<lambda>n. Contains n ''volume-head'') (os_ReadDir w) of
                            [] \<Rightarrow> r2
                          | n # ns \<Rightarrow> r2\<lparr>info := (info r2)\<lparr>iHead := n\<rparr>\<rparr>)
                    else r2);
              (w1, e1) = writeVolumeMetaData True (iRebuilding (info r3)) r3 w
          in ((w1, r3), e1))"

fun open_files :: "'f image_ops \<Rightarrow> string list \<Rightarrow> 'f rs \<Rightarrow> ('f rs \<times> go_error option) option" where
  "open_files im [] s = Some (s, None)"
| "open_files im (name # names) (w, r) =
     (case im_open im name False w of
        (w1, Inl e) \<Rightarrow> Some ((w1, r), Some e)
      | (w1, Inr h) \<Rightarrow>
          do { p \<leftarrow> alookup (diskData r) name;
               open_files im names
                 (w1, r\<lparr>volume := (volume r)\<lparr>files := files (volume r) @ [Some h]\<rparr>,
                        activeDiskData := activeDiskData r @ [Some p]\<rparr>) })"

definition openLiveChain :: "'f image_ops \<Rightarrow> 'f rs \<Rightarrow> ('f rs \<times> go_error option) option" where
  "openLiveChain im s =
     do { c \<leftarrow> Chain (snd s);
          (case c of
             Inl e \<Rightarrow> Some (s, Some e)
           | Inr chain \<Rightarrow>
               if MaximumTotalSnapshotCount < int (length chain)
               then Some (s, Some (Err (''live chain is too long: '' @ show_nat (length chain))))
               else open_files im (rev chain) s) }"

definition insertBackingFile :: "replica \<Rightarrow> replica" where
  "insertBackingFile r =
     (case iBackingFile (info r) of
        None \<Rightarrow> r
      | Some b \<Rightarrow>
          let d = zero_disk\<lparr>dName := bfPath b\<rparr>; p = length (heap r)
          in r\<lparr>heap := heap r @ [zero_disk, d],
               activeDiskData := Some p # Some (p + 1) # tl (activeDiskData r),
               volume := (volume r)\<lparr>files := None # Some (bfDisk b) # tl (files (volume r))\<rparr>,
               diskData := aupdate (diskData r) (bfPath b) (p + 1)\<rparr>)"

definition isExpandingEncryptedDevRequired :: "ReplicaState \<Rightarrow> bool \<Rightarrow> int \<Rightarrow> int \<Rightarrow> bool \<Rightarrow> int \<Rightarrow> bool \<times> int" where
  "isExpandingEncryptedDevRequired replicaState encrypted existing expected isUpgrade headerSize =
     (if replicaState \<noteq> ReplicaStateClosed then (False, 0)
      else if \<not> encrypted then (False, 0)
      else if isUpgrade then (False, 0)
      else if expected \<le> 0 \<or> existing \<le> 0 then (False, 0)
      else (expected = existing + headerSize, expected))"

definition isExtentSupported :: "'f image_ops \<Rightarrow> 'f rs \<Rightarrow> go_error option" where
  "isExtentSupported im = (\<lambda>(w, r).
     case alookup (entries w) (iHead (info r) @ ''.meta'') of
       None \<Rightarrow> Some ErrNotExist
     | Some c \<Rightarrow> im_fiemap im c)"

text \<open>The arguments of \<^verbatim>\<open>construct\<close>; \<open>luksHeader\<close> is \<^verbatim>\<open>Luks2EncryptionHeaderSize\<close> of the common library.\<close>

record open_args =
  oa_size :: int
  oa_sectorSize :: int
  oa_head :: string
  oa_backing :: "BackingFile option"
  oa_disableRevCounter :: bool
  oa_unmapMark :: bool
  oa_maxCount :: int
  oa_maxSize :: int
  oa_encrypted :: bool
  oa_isUpgrade :: bool
  oa_state :: ReplicaState
  oa_expected :: int
  oa_now :: string
  oa_luksHeader :: int

definition new_replica :: "bool \<Rightarrow> open_args \<Rightarrow> replica" where
  "new_replica ro a =
     \<lparr> volume = \<lparr> location = [], files = [], sectorSize = 4096, dsize = 0 \<rparr>,
       info = zero_info\<lparr>iSize := oa_size a, iSectorSize := oa_sectorSize a, iEncrypted := oa_encrypted a\<rparr>,
       heap = [], diskData = [], diskChildrenMap = [], activeDiskData = [None], readOnly = ro,
       revisionCache = 0, revisionFile = None, revisionCounterDisabled = oa_disableRevCounter a,
       unmapMarkDiskChainRemoved = oa_unmapMark a, snapshotMaxCount = oa_maxCount a, snapshotMaxSize = oa_maxSize a \<rparr>"

definition set_backing :: "BackingFile option \<Rightarrow> replica \<Rightarrow> replica" where
  "set_backing b r =
     r\<lparr>info := (info r)\<lparr>iBackingFile := b, iBackingFilePath := (case b of None \<Rightarrow> iBackingFilePath (info r) | Some x \<Rightarrow> bfPath x)\<rparr>\<rparr>"

text \<open>The location table has an entry per sector; the length of a slice must not be negative.\<close>

definition init_volume :: "int \<Rightarrow> replica \<Rightarrow> replica option" where
  "init_volume sz r =
     (let q = iSize (info r) sdiv sectorSize (volume r);
          locationSize = (if sz smod 4096 \<noteq> 0 then q + 1 else q)
      in if locationSize < 0 then None
         else Some (r\<lparr>volume := \<lparr> location = replicate (nat locationSize) 0, files = [None],
                        sectorSize = sectorSize (volume r), dsize = iSize (info r) \<rparr>\<rparr>))"

definition finish_open :: "'f image_ops \<Rightarrow> 'f rs \<Rightarrow> ('f world \<times> (go_error + replica)) option" where
  "finish_open im = (\<lambda>(w, r).
     case isExtentSupported im (w, r) of
       Some e \<Rightarrow> Some (w, Inl (Wrapped ''file extent is unsupported'' e))
     | None \<Rightarrow>
         do { d \<leftarrow> disk_at r (iHead (info r));
              let r1 = insertBackingFile (r\<lparr>info := (info r)\<lparr>iParent := dParent d\<rparr>\<rparr>);
                  (w1, e) = writeVolumeMetaData True (iRebuilding (info r1)) r1 w
              in Some (w1, case e of Some x \<Rightarrow> Inl x | None \<Rightarrow> Inr r1) })"

definition open_disks :: "'f image_ops \<Rightarrow> open_args \<Rightarrow> bool \<Rightarrow> 'f rs \<Rightarrow> ('f rs \<times> go_error option) option" where
  "open_disks im a exists s =
     (if exists then
        do { (s1, e) \<leftarrow> openLiveChain im s;
             if e \<noteq> None then Some (s1, e)
             else
               let (needExpand, expected) = isExpandingEncryptedDevRequired (oa_state a) (oa_encrypted a) (oa_size a)
                      (oa_expected a) (oa_isUpgrade a) (oa_luksHeader a)
               in if needExpand then Expand im (oa_now a) expected s1 else Some (s1, None) }
      else if oa_size a \<le> 0 then Some (s, Some ErrNotExist)
      else createDisk im ''000'' False (oa_now a) None (oa_size a) s)"

definition construct ::
  "'f image_ops \<Rightarrow> 'f file_ops \<Rightarrow> bool \<Rightarrow> open_args \<Rightarrow> 'f world \<Rightarrow> ('f world \<times> (go_error + replica)) option" where
  "construct im fops ro a w =
     (if oa_sectorSize a = 0 then None
      else if oa_size a smod oa_sectorSize a \<noteq> 0
      then Some (w, Inl (Err (''size '' @ show_int (oa_size a) @ '' not a multiple of sector size '' @ show_int (oa_sectorSize a))))
      else
        let ((w1, r1), e1) = tryRecoverVolumeMetaFile (oa_head a) (w, new_replica ro a)
        in if e1 \<noteq> None then Some (w1, Inl (the e1))
           else
             let (r2, exists, e2) = readMetadata w1 r1
             in if e2 \<noteq> None then Some (w1, Inl (the e2))
                else
                  let r3 = set_backing (oa_backing a) r2;
                      ((w4, r4), e4) = (if \<not> revisionCounterDisabled r3 then initRevisionCounter im fops (w1, r3)
                                        else ((w1, r3), None))
                  in if e4 \<noteq> None then Some (w4, Inl (the e4))
                     else do {
                       r5 \<leftarrow> init_volume (oa_size a) r4;
                       if readOnly r5 \<and> \<not> exists then Some (w4, Inl ErrNotExist)
                       else
                         let r6 = (if oa_head a \<noteq> [] then r5\<lparr>info := (info r5)\<lparr>iHead := oa_head a\<rparr>\<rparr> else r5)
                         in do { (s7, e7) \<leftarrow> open_disks im a exists (w4, r6);
                                 (if e7 \<noteq> None then Some (fst s7, Inl (the e7)) else finish_open im s7) } })"

section \<open>Reloading, reverting, closing\<close>

definition reload_args :: "string \<Rightarrow> int \<Rightarrow> replica \<Rightarrow> open_args" where
  "reload_args now lh r =
     \<lparr> oa_size = iSize (info r), oa_sectorSize = iSectorSize (info r), oa_head = [], oa_backing = iBackingFile (info r),
       oa_disableRevCounter = revisionCounterDisabled r, oa_unmapMark = unmapMarkDiskChainRemoved r,
       oa_maxCount = snapshotMaxCount r, oa_maxSize = snapshotMaxSize r, oa_encrypted = iEncrypted (info r),
       oa_isUpgrade = False, oa_state = ReplicaStateDirty, oa_expected = iSize (info r), oa_now = now, oa_luksHeader = lh \<rparr>"

definition Reload ::
  "'f image_ops \<Rightarrow> 'f file_ops \<Rightarrow> string \<Rightarrow> int \<Rightarrow> 'f rs \<Rightarrow> ('f world \<times> (go_error + replica)) option" where
  "Reload im fops now lh = (\<lambda>(w, r).
     do { (w1, res) \<leftarrow> construct im fops False (reload_args now lh r) w;
          Some (w1, case res of Inl e \<Rightarrow> Inl e | Inr n \<Rightarrow> Inr (n\<lparr>info := (info n)\<lparr>iDirty := iDirty (info r)\<rparr>\<rparr>)) })"

text \<open>The result of a revert: an error, or the new replica, which may be nil.\<close>

definition revertDisk ::
  "'f image_ops \<Rightarrow> 'f file_ops \<Rightarrow> string \<Rightarrow> int \<Rightarrow> string \<Rightarrow> string \<Rightarrow> 'f rs \<Rightarrow> ('f world \<times> (go_error + replica option)) option" where
  "revertDisk im fops now lh parentDiskFileName created = (\<lambda>(w, r).
     if \<not> os_exists parentDiskFileName w then Some (w, Inl ErrNotExist)
     else case disk_at r parentDiskFileName of
            None \<Rightarrow> Some (w, Inl (Err (''cannot revert to disk file '' @ parentDiskFileName @ '' since it's not in the disk chain'')))
          | Some d \<Rightarrow>
              if dRemoved d
              then Some (w, Inl (Err (''cannot revert to disk file '' @ parentDiskFileName @ '' since it's already marked as removed'')))
              else
                let oldHead = iHead (info r)
                in case createNewHead im oldHead parentDiskFileName created (iSize (info r)) r w of
                     (w1, _, Some e) \<Rightarrow> Some (w1, Inl e)
                   | (w1, None, None) \<Rightarrow> None
                   | (w1, Some (f, newHeadDisk, rb), None) \<Rightarrow>
                       let info' = (info r)\<lparr>iHead := dName newHeadDisk, iDirty := True, iParent := dParent newHeadDisk\<rparr>
                       in case encodeToFile (json_info info') volumeMetaData r w1 of
                            (w2, _, Some e) \<Rightarrow>
                              (case encodeToFile (json_info (info r)) volumeMetaData r w2 of
                                 (w3, _, Some e') \<Rightarrow> Some (w3, Inl e')
                               | (w3, _, None) \<Rightarrow> Some (w3, Inr None))
                          | (w2, _, None) \<Rightarrow>
                              (case rmDisk oldHead w2 of
                                 (w3, Some e) \<Rightarrow> Some (w3, Inl e)
                               | (w3, None) \<Rightarrow>
                                   do { (w4, res) \<leftarrow> Reload im fops now lh (w3, r);
                                        Some (w4, case res of Inl e \<Rightarrow> Inl e | Inr n \<Rightarrow> Inr (Some n)) }))"

definition close_replica :: "'f rs \<Rightarrow> 'f rs \<times> go_error option" where
  "close_replica = (\<lambda>(w, r). let (w', e) = writeVolumeMetaData False (iRebuilding (info r)) r w in ((w', r), e))"

definition SetRebuilding :: "bool \<Rightarrow> 'f rs \<Rightarrow> 'f rs \<times> go_error option" where
  "SetRebuilding rebuilding = (\<lambda>(w, r).
     let (w', e) = writeVolumeMetaData True rebuilding r w
     in if e \<noteq> None then ((w', r), e) else ((w', r\<lparr>info := (info r)\<lparr>iRebuilding := rebuilding\<rparr>\<rparr>), None))"

fun rm_all :: "string list \<Rightarrow> 'f world \<Rightarrow> 'f world" where
  "rm_all [] w = w"
| "rm_all (n # ns) w = rm_all ns (fst (rmDisk n w))"

definition Delete :: "'f rs \<Rightarrow> 'f rs \<times> go_error option" where
  "Delete = (\<lambda>(w, r).
     let w1 = rm_all (filter (\<lambda>n. n \<noteq> iBackingFilePath (info r)) (map fst (diskData r))) w;
         w2 = fst (os_Remove volumeMetaData w1);
         w3 = fst (os_Remove revisionCounterFile w2)
     in ((w3, r), None))"

end
