(* ===== verification/ReplicaIO.thy ===== *)
theory ReplicaIO
  imports ReplicaOps
begin

text \<open>
  The data path of a replica (\<^verbatim>\<open>pkg/replica/replica.go\<close>): reads, writes and unmaps of the volume, the
  goroutine of the revision counter, and the queries that walk the disks and the location table.

  A write runs on the contents of the open files, and what it changed is put back into the store.
  The value a write receives from the counter's channel is an argument \<open>ack\<close>: it is the answer of a
  step of the goroutine.
\<close>

section \<open>Reads and writes\<close>

definition opened :: "'f world \<Rightarrow> nat diffDisk \<Rightarrow> 'f diffDisk" where
  "opened w d =
     \<lparr> location = location d, files = map (map_option (\<lambda>h. store w ! h)) (files d),
       sectorSize = sectorSize d, dsize = dsize d \<rparr>"

fun put_back :: "nat option list \<Rightarrow> 'f option list \<Rightarrow> 'f list \<Rightarrow> 'f list" where
  "put_back (Some h # hs) (Some f # fs) st = put_back hs fs (st[h := f])"
| "put_back (_ # hs) (_ # fs) st = put_back hs fs st"
| "put_back _ _ st = st"

definition stored_back :: "'f diffDisk \<Rightarrow> 'f rs \<Rightarrow> 'f rs" where
  "stored_back d = (\<lambda>(w, r).
     (w\<lparr>store := put_back (files (volume r)) (files d) (store w)\<rparr>,
      r\<lparr>volume := (volume r)\<lparr>location := location d, dsize := dsize d\<rparr>\<rparr>))"

definition mark_dirty :: "'f rs \<Rightarrow> 'f rs" where
  "mark_dirty = (\<lambda>(w, r). (w, r\<lparr>info := (info r)\<lparr>iDirty := True\<rparr>\<rparr>))"

definition WriteAt ::
  "'f file_ops \<Rightarrow> go_error option \<Rightarrow> byte list \<Rightarrow> int \<Rightarrow> 'f rs \<Rightarrow> ('f rs \<times> int \<times> go_error option) option" where
  "WriteAt fops ack buf off s =
     (if readOnly (snd s) then Some (s, 0, Some (Err ''cannot write on read-only replica''))
      else
        let s1 = mark_dirty s
        in do { (d, c, err) \<leftarrow> DiffDisk.WriteAt fops (opened (fst s1) (volume (snd s1))) buf off;
                let s2 = stored_back d s1
                in if err \<noteq> None then Some (s2, c, err)
                   else Some (s2, c, if revisionCounterDisabled (snd s2) then None else ack) })"

definition ReadAt ::
  "'f file_ops \<Rightarrow> byte list \<Rightarrow> int \<Rightarrow> 'f rs \<Rightarrow> ('f rs \<times> byte list \<times> int \<times> go_error option) option" where
  "ReadAt fops buf off s =
     do { (d, buf', c, err) \<leftarrow> DiffDisk.ReadAt fops (opened (fst s) (volume (snd s))) buf off;
          Some (stored_back d s, buf', c, err) }"

text \<open>
  The disks an unmap may touch: the head, then the disks below it from index \<open>idx\<close> down that are
  marked as removed, until one with several children.
\<close>

fun unmappable_loop ::
  "nat list \<Rightarrow> 'f rs \<Rightarrow> string list \<Rightarrow> ('f rs \<times> string list \<times> go_error option) option" where
  "unmappable_loop [] s acc = Some (s, acc, None)"
| "unmappable_loop (idx # is) (w, r) acc =
     do { ptr \<leftarrow> go_nth (activeDiskData r) (int idx);
          p \<leftarrow> ptr;
          let name = dName (heap r ! p)
          in if (case alookup (diskChildrenMap r) name of None \<Rightarrow> 0 | Some cs \<Rightarrow> length cs) > 1 then Some ((w, r), acc, None)
             else
               let ((w1, r1), e) = (if unmapMarkDiskChainRemoved r then markDiskAsRemoved name (w, r) else ((w, r), None))
               in if e \<noteq> None
                  then Some ((w1, r1), acc, map_option (Wrapped (''failed to mark snapshot disk '' @ name @ '' as removed before unmap'')) e)
                  else unmappable_loop is (w1, r1) (if dRemoved (heap r1 ! p) then acc @ [name] else acc) }"

text \<open>The allocated size of the file with a name, as the volume's unmap reads it.\<close>

definition actual_size :: "'f image_ops \<Rightarrow> 'f rs \<Rightarrow> 'f diffDisk \<Rightarrow> string \<Rightarrow> int" where
  "actual_size im s d name =
     (case alookup (entries (fst s)) name of
        Some (Image k) \<Rightarrow> im_blocks im (put_back (files (volume (snd s))) (files d) (store (fst s)) ! k)
      | _ \<Rightarrow> -1)"

definition UnmapAt ::
  "'f image_ops \<Rightarrow> 'f file_ops \<Rightarrow> go_error option \<Rightarrow> u32 \<Rightarrow> int \<Rightarrow> 'f rs \<Rightarrow> ('f rs \<times> int \<times> go_error option) option" where
  "UnmapAt im fops ack len off s =
     (if readOnly (snd s) then Some (s, 0, Some (Err ''can not unmap on read-only replica''))
      else
        let r = snd s;
            n = length (activeDiskData r);
            lowest = (if iBackingFile (info r) \<noteq> None then 2 else 1)
        in do { ptr \<leftarrow> go_nth (activeDiskData r) (int n - 1);
                p \<leftarrow> ptr;
                (s1, disks, e) \<leftarrow> unmappable_loop (rev [lowest ..< n - 1]) s [dName (heap r ! p)];
                (if e \<noteq> None then Some (s1, 0, e)
                 else
                   let s2 = mark_dirty s1
                   in do { (d, c, err) \<leftarrow> DiffDisk.UnmapAt fops (actual_size im s2) (opened (fst s2) (volume (snd s2))) disks len off;
                           let s3 = stored_back d s2
                           in if err \<noteq> None then Some (s3, 0, err)
                              else Some (s3, c, if revisionCounterDisabled (snd s3) then None else ack) }) })"

text \<open>One request to the goroutine of the revision counter; an error ends the goroutine.\<close>

definition revision_step :: "'f file_ops \<Rightarrow> 'f rs \<Rightarrow> 'f rs \<times> go_error option" where
  "revision_step fops s =
     (let ((w, r), err) = writeRevisionCounter fops (revisionCache (snd s) + 1) s
      in ((w, if err = None then r\<lparr>revisionCache := revisionCache r + 1\<rparr> else r), err))"

section \<open>Queries\<close>

text \<open>\<open>Preload\<close> fills the location table.\<close>

definition Preload :: "'f file_ops \<Rightarrow> bool \<Rightarrow> 'f rs \<Rightarrow> ('f rs \<times> go_error option) option" where
  "Preload fops includeBackingFileLayer s =
     (let b = iBackingFile (info (snd s)) \<noteq> None;
          d = initializeSectorLocation (volume (snd s)) (if includeBackingFileLayer \<and> b then backingFileIndex else 0)
      in do { (d', e) \<leftarrow> preload (handle_ops fops (fst s)) b d; Some ((fst s, (snd s)\<lparr>volume := d'\<rparr>), e) })"

record SnapshotRange =
  Offset :: int
  Size :: int

text \<open>
  The walk over the location table from sector \<open>i\<close> on: a block is reported when one of its sectors
  lies in a file above \<open>to\<close> and not above \<open>from\<close>, and it is not the block reported last.
\<close>

fun compare_loop :: "int \<Rightarrow> int \<Rightarrow> byte \<Rightarrow> byte \<Rightarrow> int \<Rightarrow> byte list \<Rightarrow> int \<Rightarrow> SnapshotRange list" where
  "compare_loop ss blockSize from to i [] lastOffset = []"
| "compare_loop ss blockSize from to i (v # vs) lastOffset =
     (if v \<le> from \<and> to < v then
        let offset = i * ss - (i * ss) smod blockSize
        in if offset \<noteq> lastOffset
           then \<lparr> Offset = offset, Size = blockSize \<rparr> # compare_loop ss blockSize from to (i + 1) vs offset
           else compare_loop ss blockSize from to (i + 1) vs lastOffset
      else compare_loop ss blockSize from to (i + 1) vs lastOffset)"

definition CompareSnapshot ::
  "'f file_ops \<Rightarrow> string \<Rightarrow> string \<Rightarrow> int \<Rightarrow> 'f rs \<Rightarrow> ('f rs \<times> (go_error + SnapshotRange list)) option" where
  "CompareSnapshot fops snapshotName parentSnapshotName blockSize s =
     (if snapshotName = [] then Some (s, Inl (Err ''snapshot name is required''))
      else if blockSize \<le> 0 then Some (s, Inl (Err (''block size must be > 0, got '' @ show_int blockSize)))
      else do {
        from \<leftarrow> findDisk snapshotName (snd s);
        if from \<le> 0 then Some (s, Inl (Err (''snapshot '' @ snapshotName @ '' not found in chain'')))
        else do {
          to \<leftarrow> (if parentSnapshotName \<noteq> [] then findDisk parentSnapshotName (snd s) else Some 0);
          if parentSnapshotName \<noteq> [] \<and> to \<le> 0
          then Some (s, Inl (Err (''parent snapshot '' @ parentSnapshotName @ '' not found in chain'')))
          else if parentSnapshotName \<noteq> [] \<and> from < to
          then Some (s, Inl (Err (''parent snapshot '' @ parentSnapshotName @ '' sits above '' @ snapshotName @ '' in chain'')))
          else do {
            (s1, e) \<leftarrow> Preload fops False s;
            (if e \<noteq> None then Some (s1, Inl (Wrapped ''preload location table'' (the e)))
             else if sectorSize (volume (snd s1)) \<le> 0
             then Some (s1, Inl (Err ''replica has zero sector size - likely uninitialized''))
             else Some (s1, Inr (compare_loop (sectorSize (volume (snd s1))) blockSize (of_int from) (of_int to) 0
                                   (location (volume (snd s1))) (- 1)))) } } })"

datatype FileIntervalKind = SparseHole | SparseData

text \<open>The intervals of data and holes, as \<open>GetDataLayout\<close> sends them.\<close>

fun layout_loop :: "int \<Rightarrow> int \<Rightarrow> int \<Rightarrow> byte list \<Rightarrow> bool \<Rightarrow> int \<Rightarrow> (FileIntervalKind \<times> int \<times> int) list" where
  "layout_loop ss vsize i [] isData lastOffset =
     (if lastOffset < vsize then [(if isData then SparseData else SparseHole, lastOffset, vsize)] else [])"
| "layout_loop ss vsize i (v # vs) isData lastOffset =
     (let offset = i * ss; cur = (1 \<le> v)
      in if cur \<noteq> isData
         then (if lastOffset < offset then [(if isData then SparseData else SparseHole, lastOffset, offset)] else []) @
              layout_loop ss vsize (i + 1) vs cur offset
         else layout_loop ss vsize (i + 1) vs isData lastOffset)"

definition GetDataLayout :: "replica \<Rightarrow> (FileIntervalKind \<times> int \<times> int) list" where
  "GetDataLayout r = layout_loop (sectorSize (volume r)) (dsize (volume r)) 0 (location (volume r)) False 0"

record DiskInfo =
  diName :: string
  diParent :: string
  diChildren :: "string list"
  diRemoved :: bool
  diUserCreated :: bool
  diCreated :: string
  diSize :: string
  diLabels :: "(string \<times> string) list"

definition disk_info :: "disk \<Rightarrow> int \<Rightarrow> replica \<Rightarrow> DiskInfo" where
  "disk_info d sz r =
     \<lparr> diName = dName d, diParent = dParent d,
       diChildren = (case alookup (diskChildrenMap r) (dName d) of None \<Rightarrow> [] | Some cs \<Rightarrow> cs),
       diRemoved = dRemoved d, diUserCreated = dUserCreated d, diCreated = dCreated d, diSize = show_int sz,
       diLabels = (case dLabels d of None \<Rightarrow> [] | Some l \<Rightarrow> l) \<rparr>"

fun list_disks_loop :: "'f image_ops \<Rightarrow> nat list \<Rightarrow> 'f rs \<Rightarrow> (string \<times> DiskInfo) list \<Rightarrow> 'f rs \<times> (string \<times> DiskInfo) list" where
  "list_disks_loop im [] s acc = (s, acc)"
| "list_disks_loop im (p # ps) s acc =
     (let d = heap (snd s) ! p;
          (s', sz) = getDiskSize im (dName d) s
      in list_disks_loop im ps s' (aupdate acc (dName d) (disk_info d sz (snd s'))))"

definition ListDisks :: "'f image_ops \<Rightarrow> 'f rs \<Rightarrow> 'f rs \<times> (string \<times> DiskInfo) list" where
  "ListDisks im s = list_disks_loop im (map snd (diskData (snd s))) s []"

end
