(* ===== verification/ReplicaServer.thy ===== *)
theory ReplicaServer
  imports ReplicaIO
begin

text \<open>
  The replica server (\<^verbatim>\<open>pkg/replica/server.go\<close>): a replica that is closed or open, and the operations
  a client may call on it in each state.  Every method takes the server's lock, so a definition is
  one step.
\<close>

record server =
  s_r :: "replica option"
  s_sectorSize :: int
  s_backing :: "BackingFile option"
  s_revisionCounterDisabled :: bool
  s_unmapMark :: bool
  s_snapshotMaxCount :: int
  s_snapshotMaxSize :: int
  s_encrypted :: bool

type_synonym 'f srv = "'f world \<times> server"

definition NewServer :: "BackingFile option \<Rightarrow> int \<Rightarrow> bool \<Rightarrow> bool \<Rightarrow> int \<Rightarrow> int \<Rightarrow> bool \<Rightarrow> server" where
  "NewServer backing ss disableRevCounter unmapMark maxCount maxSize encrypted =
     \<lparr> s_r = None, s_sectorSize = ss, s_backing = backing, s_revisionCounterDisabled = disableRevCounter,
       s_unmapMark = unmapMark, s_snapshotMaxCount = maxCount, s_snapshotMaxSize = maxSize, s_encrypted = encrypted \<rparr>"

definition getSectorSize :: "server \<Rightarrow> int" where
  "getSectorSize s =
     (case s_backing s of
        Some b \<Rightarrow> if 0 < bfSectorSize b then bfSectorSize b else s_sectorSize s
      | None \<Rightarrow> s_sectorSize s)"

text \<open>\<^verbatim>\<open>ReadInfo\<close>: the metadata of the volume as it is in the directory.\<close>

definition ReadInfo :: "'f world \<Rightarrow> Info \<times> go_error option" where
  "ReadInfo w = (case alookup (entries w) volumeMetaData of None \<Rightarrow> (zero_info, Some ErrNotExist) | Some c \<Rightarrow> decode_info c zero_info)"

definition Status :: "'f srv \<Rightarrow> ReplicaState \<times> Info" where
  "Status = (\<lambda>(w, s).
     case s_r s of
       None \<Rightarrow>
         (let (i, err) = ReadInfo w
          in if err = Some ErrNotExist then (ReplicaStateInitial, zero_info)
             else if err = Some EOF then (ReplicaStateInitial, zero_info)
             else if err \<noteq> None then (ReplicaStateError, zero_info)
             else (ReplicaStateClosed, i))
     | Some r \<Rightarrow>
         if iError (info r) \<noteq> [] then (ReplicaStateError, info r)
         else if iRebuilding (info r) then (ReplicaStateRebuilding, info r)
         else if iDirty (info r) then (ReplicaStateDirty, info r)
         else (ReplicaStateOpen, info r))"

definition server_args :: "server \<Rightarrow> int \<Rightarrow> bool \<Rightarrow> ReplicaState \<Rightarrow> int \<Rightarrow> string \<Rightarrow> int \<Rightarrow> open_args" where
  "server_args s sz isUpgrade st expected now lh =
     \<lparr> oa_size = sz, oa_sectorSize = getSectorSize s, oa_head = [], oa_backing = s_backing s,
       oa_disableRevCounter = s_revisionCounterDisabled s, oa_unmapMark = s_unmapMark s,
       oa_maxCount = s_snapshotMaxCount s, oa_maxSize = s_snapshotMaxSize s, oa_encrypted = s_encrypted s,
       oa_isUpgrade = isUpgrade, oa_state = st, oa_expected = expected, oa_now = now, oa_luksHeader = lh \<rparr>"

definition Create ::
  "'f image_ops \<Rightarrow> 'f file_ops \<Rightarrow> string \<Rightarrow> int \<Rightarrow> int \<Rightarrow> 'f srv \<Rightarrow> ('f srv \<times> go_error option) option" where
  "Create im fops now lh sz = (\<lambda>(w, s).
     if fst (Status (w, s)) \<noteq> ReplicaStateInitial then Some ((w, s), None)
     else do { (w1, res) \<leftarrow> construct im fops False (server_args s sz False (fst (Status (w, s))) sz now lh) w;
               (case res of
                  Inl e \<Rightarrow> Some ((w1, s), Some e)
                | Inr r \<Rightarrow> let ((w2, _), e) = close_replica (w1, r) in Some ((w2, s), e)) })"

definition Open ::
  "'f image_ops \<Rightarrow> 'f file_ops \<Rightarrow> string \<Rightarrow> int \<Rightarrow> bool \<Rightarrow> int \<Rightarrow> 'f srv \<Rightarrow> ('f srv \<times> go_error option) option" where
  "Open im fops now lh isUpgrade expected = (\<lambda>(w, s).
     if s_r s \<noteq> None then Some ((w, s), Some (Err ''replica is already open''))
     else
       let (st, i) = Status (w, s)
       in do { (w1, res) \<leftarrow> construct im fops False (server_args s (iSize i) isUpgrade st expected now lh) w;
               (case res of
                  Inl e \<Rightarrow> Some ((w1, s), Some e)
                | Inr r \<Rightarrow> Some ((w1, s\<lparr>s_r := Some r\<rparr>), None)) })"

definition ServerReload ::
  "'f image_ops \<Rightarrow> 'f file_ops \<Rightarrow> string \<Rightarrow> int \<Rightarrow> 'f srv \<Rightarrow> ('f srv \<times> go_error option) option" where
  "ServerReload im fops now lh = (\<lambda>(w, s).
     case s_r s of
       None \<Rightarrow> Some ((w, s), None)
     | Some r \<Rightarrow>
         do { (w1, res) \<leftarrow> Reload im fops now lh (w, r);
              (case res of
                 Inl e \<Rightarrow> Some ((w1, s), Some e)
               | Inr n \<Rightarrow> let ((w2, _), e) = close_replica (w1, r) in Some ((w2, s\<lparr>s_r := Some n\<rparr>), None)) })"

definition ServerSetRebuilding :: "bool \<Rightarrow> 'f srv \<Rightarrow> ('f srv \<times> go_error option) option" where
  "ServerSetRebuilding rebuilding = (\<lambda>(w, s).
     let st = fst (Status (w, s))
     in if rebuilding \<and> st \<noteq> ReplicaStateOpen \<and> st \<noteq> ReplicaStateDirty \<or> \<not> rebuilding \<and> st \<noteq> ReplicaStateRebuilding
        then Some ((w, s), Some (Err (''cannot set rebuilding='' @ (if rebuilding then ''true'' else ''false'') @
               '' from state '' @ state_string st)))
        else do { r \<leftarrow> s_r s;
                  let ((w1, r1), e) = SetRebuilding rebuilding (w, r) in Some ((w1, s\<lparr>s_r := Some r1\<rparr>), e) })"

text \<open>An operation on an open replica; on a closed one it does nothing.\<close>

definition when_open ::
  "('f rs \<Rightarrow> ('f rs \<times> go_error option) option) \<Rightarrow> 'f srv \<Rightarrow> ('f srv \<times> go_error option) option" where
  "when_open f = (\<lambda>(w, s).
     case s_r s of
       None \<Rightarrow> Some ((w, s), None)
     | Some r \<Rightarrow> do { ((w1, r1), e) \<leftarrow> f (w, r); Some ((w1, s\<lparr>s_r := Some r1\<rparr>), e) })"

definition ServerRevert ::
  "'f image_ops \<Rightarrow> 'f file_ops \<Rightarrow> string \<Rightarrow> int \<Rightarrow> string \<Rightarrow> string \<Rightarrow> 'f srv \<Rightarrow> ('f srv \<times> go_error option) option" where
  "ServerRevert im fops now lh name created = (\<lambda>(w, s).
     case s_r s of
       None \<Rightarrow> Some ((w, s), None)
     | Some r \<Rightarrow>
         do { (w1, res) \<leftarrow> revertDisk im fops now lh name created (w, r);
              (case res of
                 Inl e \<Rightarrow> Some ((w1, s), Some e)
               | Inr r' \<Rightarrow> Some ((w1, s\<lparr>s_r := r'\<rparr>), None)) })"

definition ServerSnapshot ::
  "'f image_ops \<Rightarrow> string \<Rightarrow> bool \<Rightarrow> string \<Rightarrow> (string \<times> string) list option \<Rightarrow> 'f srv \<Rightarrow> ('f srv \<times> go_error option) option" where
  "ServerSnapshot im name userCreated createdTime lbls = when_open (ReplicaMeta.Snapshot im name userCreated createdTime lbls)"

definition ServerExpand :: "'f image_ops \<Rightarrow> string \<Rightarrow> int \<Rightarrow> 'f srv \<Rightarrow> ('f srv \<times> go_error option) option" where
  "ServerExpand im now sz = when_open (ReplicaMeta.Expand im now sz)"

definition ServerRemoveDiffDisk :: "'f file_ops \<Rightarrow> string \<Rightarrow> bool \<Rightarrow> 'f srv \<Rightarrow> ('f srv \<times> go_error option) option" where
  "ServerRemoveDiffDisk fops name force = when_open (RemoveDiffDisk fops name force)"

definition ServerReplaceDisk ::
  "'f image_ops \<Rightarrow> 'f file_ops \<Rightarrow> string \<Rightarrow> string \<Rightarrow> 'f srv \<Rightarrow> ('f srv \<times> go_error option) option" where
  "ServerReplaceDisk im fops target source = when_open (ReplaceDisk im fops target source)"

definition ServerMarkDiskAsRemoved :: "string \<Rightarrow> 'f srv \<Rightarrow> ('f srv \<times> go_error option) option" where
  "ServerMarkDiskAsRemoved name = when_open (\<lambda>s. Some (MarkDiskAsRemoved name s))"

definition ServerPrepareRemoveDisk :: "string \<Rightarrow> server \<Rightarrow> go_error + PrepareRemoveAction list" where
  "ServerPrepareRemoveDisk name s = (case s_r s of None \<Rightarrow> Inr [] | Some r \<Rightarrow> PrepareRemoveDisk name r)"

definition ServerSetRevisionCounter :: "'f file_ops \<Rightarrow> int \<Rightarrow> 'f srv \<Rightarrow> ('f srv \<times> go_error option) option" where
  "ServerSetRevisionCounter fops counter = when_open (\<lambda>s. Some (SetRevisionCounter fops counter s))"

definition ServerSetUnmapMark :: "bool \<Rightarrow> server \<Rightarrow> server" where
  "ServerSetUnmapMark enabled s =
     s\<lparr>s_unmapMark := enabled, s_r := map_option (\<lambda>r. r\<lparr>unmapMarkDiskChainRemoved := enabled\<rparr>) (s_r s)\<rparr>"

definition ServerSetSnapshotMaxCount :: "int \<Rightarrow> server \<Rightarrow> server" where
  "ServerSetSnapshotMaxCount count s =
     s\<lparr>s_snapshotMaxCount := count, s_r := map_option (\<lambda>r. r\<lparr>snapshotMaxCount := count\<rparr>) (s_r s)\<rparr>"

definition ServerSetSnapshotMaxSize :: "int \<Rightarrow> server \<Rightarrow> server" where
  "ServerSetSnapshotMaxSize sz s =
     s\<lparr>s_snapshotMaxSize := sz, s_r := map_option (\<lambda>r. r\<lparr>snapshotMaxSize := sz\<rparr>) (s_r s)\<rparr>"

definition ServerDelete :: "'f srv \<Rightarrow> 'f srv \<times> go_error option" where
  "ServerDelete = (\<lambda>(w, s).
     case s_r s of
       None \<Rightarrow> ((w, s), None)
     | Some r \<Rightarrow>
         let ((w1, r1), e) = close_replica (w, r)
         in if e \<noteq> None then ((w1, s), e)
            else let ((w2, r2), e2) = Delete (w1, r1) in ((w2, s\<lparr>s_r := None\<rparr>), e2))"

definition ServerClose :: "'f srv \<Rightarrow> 'f srv \<times> go_error option" where
  "ServerClose = (\<lambda>(w, s).
     case s_r s of
       None \<Rightarrow> ((w, s), None)
     | Some r \<Rightarrow>
         let ((w1, r1), e) = close_replica (w, r)
         in if e \<noteq> None then ((w1, s), e) else ((w1, s\<lparr>s_r := None\<rparr>), None))"

text \<open>I/O on a closed replica is an error.\<close>

definition server_io ::
  "('f rs \<Rightarrow> ('f rs \<times> int \<times> go_error option) option) \<Rightarrow> 'f srv \<Rightarrow> ('f srv \<times> int \<times> go_error option) option" where
  "server_io f = (\<lambda>(w, s).
     case s_r s of
       None \<Rightarrow> Some ((w, s), 0, Some (Err ''replica no longer exist''))
     | Some r \<Rightarrow> do { ((w1, r1), n, e) \<leftarrow> f (w, r); Some ((w1, s\<lparr>s_r := Some r1\<rparr>), n, e) })"

definition ServerWriteAt ::
  "'f file_ops \<Rightarrow> go_error option \<Rightarrow> byte list \<Rightarrow> int \<Rightarrow> 'f srv \<Rightarrow> ('f srv \<times> int \<times> go_error option) option" where
  "ServerWriteAt fops ack buf off = server_io (ReplicaIO.WriteAt fops ack buf off)"

definition ServerUnmapAt ::
  "'f image_ops \<Rightarrow> 'f file_ops \<Rightarrow> go_error option \<Rightarrow> u32 \<Rightarrow> int \<Rightarrow> 'f srv \<Rightarrow> ('f srv \<times> int \<times> go_error option) option" where
  "ServerUnmapAt im fops ack len off = server_io (ReplicaIO.UnmapAt im fops ack len off)"

definition ServerReadAt ::
  "'f file_ops \<Rightarrow> byte list \<Rightarrow> int \<Rightarrow> 'f srv \<Rightarrow> ('f srv \<times> byte list \<times> int \<times> go_error option) option" where
  "ServerReadAt fops buf off = (\<lambda>(w, s).
     case s_r s of
       None \<Rightarrow> Some ((w, s), buf, 0, Some (Err ''replica no longer exist''))
     | Some r \<Rightarrow> do { ((w1, r1), buf', n, e) \<leftarrow> ReplicaIO.ReadAt fops buf off (w, r); Some ((w1, s\<lparr>s_r := Some r1\<rparr>), buf', n, e) })"

definition PingResponse :: "'f srv \<Rightarrow> go_error option" where
  "PingResponse s =
     (let (st, i) = Status s
      in if st = ReplicaStateError then Some (Err (''ping failure due to '' @ iError i))
         else if st \<noteq> ReplicaStateOpen \<and> st \<noteq> ReplicaStateDirty \<and> st \<noteq> ReplicaStateRebuilding
         then Some (Err (''ping failure: replica state '' @ state_string st))
         else None)"

end
