(* ===== verification/ReplicaFrame.thy ===== *)
theory ReplicaFrame
  imports ReplicaServer
begin

text \<open>
  What the metadata operations do to the directory under every schedule of failing calls: the names
  they may touch (\<open>frame\<close>), what holds after success, and that a crash leaves the directory as it is.
\<close>

named_theorems frame_intro "the names an operation on the directory may change"

section \<open>Frames\<close>

definition frame :: "string set \<Rightarrow> 'f world \<Rightarrow> 'f world \<Rightarrow> bool" where
  "frame X w w' \<longleftrightarrow>
     (\<forall>n. n \<notin> X \<longrightarrow> alookup (entries w') n = alookup (entries w) n) \<and>
     length (store w) \<le> length (store w') \<and> (\<forall>k < length (store w). store w' ! k = store w ! k)"

lemma frame_refl [simp]: "frame X w w"
  by (simp add: frame_def)

lemma frame_trans: "frame X w w1 \<Longrightarrow> frame X w1 w2 \<Longrightarrow> frame X w w2"
  by (simp add: frame_def)

lemma frame_mono: "frame X w w' \<Longrightarrow> X \<subseteq> Y \<Longrightarrow> frame Y w w'"
  unfolding frame_def by blast

lemma frame_lookup: "frame X w w' \<Longrightarrow> n \<notin> X \<Longrightarrow> alookup (entries w') n = alookup (entries w) n"
  by (simp add: frame_def)

lemma frame_store: "frame X w w' \<Longrightarrow> k < length (store w) \<Longrightarrow> k < length (store w') \<and> store w' ! k = store w ! k"
  by (simp add: frame_def)

text \<open>Two names outside each other's frames.\<close>

lemma frame_both: "frame X w w1 \<Longrightarrow> frame Y w1 w2 \<Longrightarrow> X \<subseteq> Z \<Longrightarrow> Y \<subseteq> Z \<Longrightarrow> frame Z w w2"
  by (meson frame_mono frame_trans)

definition tick :: "'f world \<Rightarrow> 'f world" where
  "tick w = w\<lparr>faults := \<lambda>i. faults w (Suc i)\<rparr>"

lemma tick_sel [simp]:
  "entries (tick w) = entries w" "store (tick w) = store w" "revisionCounterBuf (tick w) = revisionCounterBuf w"
  by (simp_all add: tick_def)

lemma frame_tick [simp]: "frame X w (tick w)" "frame X (tick w) w' \<longleftrightarrow> frame X w w'"
  by (simp_all add: frame_def)

lemma os_call_eq: "os_call f w = (if faults w 0 then (tick w, Some io_error) else f (tick w))"
  by (simp add: os_call_def next_call_def tick_def)

text \<open>Schedules: no call fails, all calls fail, all calls fail from some point on, one call fails.\<close>

definition quiet_os :: "'f world \<Rightarrow> bool" where
  "quiet_os w \<longleftrightarrow> faults w = (\<lambda>i. False)"

definition dead :: "'f world \<Rightarrow> bool" where
  "dead w \<longleftrightarrow> faults w = (\<lambda>i. True)"

definition crashing :: "'f world \<Rightarrow> bool" where
  "crashing w \<longleftrightarrow> (\<exists>k. faults w = (\<lambda>i. k \<le> i))"

definition one_fault :: "'f world \<Rightarrow> bool" where
  "one_fault w \<longleftrightarrow> quiet_os w \<or> (\<exists>k. faults w = (\<lambda>i. i = k))"

lemma quiet_tick [simp]: "quiet_os w \<Longrightarrow> tick w = w"
  by (simp add: quiet_os_def tick_def)

lemma dead_tick [simp]: "dead w \<Longrightarrow> tick w = w"
  by (simp add: dead_def tick_def)

lemma schedule_fault:
  "quiet_os w \<Longrightarrow> \<not> faults w 0" "dead w \<Longrightarrow> faults w 0"
  "crashing w \<Longrightarrow> faults w 0 \<Longrightarrow> dead w" "crashing w \<Longrightarrow> crashing (tick w)"
  "one_fault w \<Longrightarrow> faults w 0 \<Longrightarrow> quiet_os (tick w)" "one_fault w \<Longrightarrow> \<not> faults w 0 \<Longrightarrow> one_fault (tick w)"
proof -
  show "crashing (tick w)" if "crashing w"
  proof -
    from that obtain k where k: "faults w = (\<lambda>i. k \<le> i)" by (auto simp: crashing_def)
    have "faults (tick w) = (\<lambda>i. k - 1 \<le> i)" by (auto simp: tick_def k)
    then show ?thesis by (auto simp: crashing_def)
  qed
  show "one_fault (tick w)" if o: "one_fault w" and n: "\<not> faults w 0"
  proof (cases "quiet_os w")
    case True
    then show ?thesis using o by simp
  next
    case False
    then obtain k where k: "faults w = (\<lambda>i. i = k)" using o by (auto simp: one_fault_def)
    then have "faults (tick w) = (\<lambda>i. i = k - 1)" using n by (cases k) (auto simp: tick_def)
    then show ?thesis by (auto simp: one_fault_def)
  qed
qed (auto simp: quiet_os_def dead_def crashing_def one_fault_def tick_def)

lemma faults_update [simp]:
  "quiet_os (w\<lparr>entries := es\<rparr>) = quiet_os w" "quiet_os (w\<lparr>store := st\<rparr>) = quiet_os w"
  "dead (w\<lparr>entries := es\<rparr>) = dead w" "dead (w\<lparr>store := st\<rparr>) = dead w"
  "crashing (w\<lparr>entries := es\<rparr>) = crashing w" "crashing (w\<lparr>store := st\<rparr>) = crashing w"
  "one_fault (w\<lparr>entries := es\<rparr>) = one_fault w" "one_fault (w\<lparr>store := st\<rparr>) = one_fault w"
  by (simp_all add: quiet_os_def dead_def crashing_def one_fault_def)

section \<open>Single calls\<close>

lemma os_RemoveAll_frame:
  assumes "os_RemoveAll n w = (w', e)"
  shows "frame {n} w w'" "e \<noteq> None \<Longrightarrow> frame {} w w'" "e = None \<Longrightarrow> alookup (entries w') n = None"
  using assms by (auto simp: os_RemoveAll_def os_call_eq frame_def split: if_splits)

lemma os_Link_frame:
  assumes "os_Link old new w = (w', e)"
  shows "frame {new} w w'" "e \<noteq> None \<Longrightarrow> frame {} w w'"
    "e = None \<Longrightarrow> alookup (entries w') new = alookup (entries w) old \<and> alookup (entries w) old \<noteq> None"
  using assms by (auto simp: os_Link_def os_call_eq frame_def split: if_splits option.splits)

lemmas os_write_defs = os_Create_def os_Encode_def os_CloseFile_def os_Rename_def os_RemoveAll_def os_call_eq

section \<open>Writing metadata\<close>

lemma faults_tick [simp]: "faults (tick w) i = faults w (Suc i)"
  by (simp add: tick_def)

lemma tick_update [simp]:
  "tick (w\<lparr>entries := es\<rparr>) = (tick w)\<lparr>entries := es\<rparr>" "tick (w\<lparr>store := st\<rparr>) = (tick w)\<lparr>store := st\<rparr>"
  by (simp_all add: tick_def)

definition later :: "nat \<Rightarrow> 'f world \<Rightarrow> nat \<Rightarrow> bool" where
  "later n w = (\<lambda>i. faults w (n + i))"

text \<open>
  A write of metadata makes four calls and replaces the file at once, or one of the four fails:
  then the file is as it was, and the temporary file is left behind only if its removal fails too.
\<close>

lemma encodeToFile_cases:
  assumes enc: "encodeToFile obj file r w = (w', rb, e)" and ro: "\<not> readOnly r"
  obtains (ok) "e = None" "rb = Some (on_world (os_RemoveAll (file @ ''.tmp'')))" "store w' = store w"
      "frame {file, file @ ''.tmp''} w w'" "alookup (entries w') file = Some obj" "alookup (entries w') (file @ ''.tmp'') = None"
      "faults w' = later 4 w" "\<forall>k < 4. \<not> faults w k"
    | (fail) k where "e \<noteq> None" "rb = None" "store w' = store w" "frame {file @ ''.tmp''} w w'" "faults w k"
      "faults w' = later (k + 2) w" "\<not> faults w (k + 1) \<longrightarrow> alookup (entries w') (file @ ''.tmp'') = None"
proof -
  let ?t = "file @ ''.tmp''"
  have four: "(\<forall>k < 4. P k) \<longleftrightarrow> P 0 \<and> P 1 \<and> P 2 \<and> P 3" for P :: "nat \<Rightarrow> bool"
    by (simp add: All_less_Suc eval_nat_numeral) blast
  note d = encodeToFile_def os_write_defs later_def frame_def Let_def fun_eq_iff tick_def
  consider "faults w 0" | "\<not> faults w 0" "faults w 1" | "\<not> faults w 0" "\<not> faults w 1" "faults w 2"
    | "\<not> faults w 0" "\<not> faults w 1" "\<not> faults w 2" "faults w 3"
    | "\<not> faults w 0" "\<not> faults w 1" "\<not> faults w 2" "\<not> faults w 3" by blast
  then show ?thesis
  proof cases
    case 1
    show ?thesis using enc ro 1 by (intro fail [of 0]) (auto simp: d split: if_splits)
  next
    case 2
    show ?thesis using enc ro 2 by (intro fail [of 1]) (auto simp: d numeral_2_eq_2 split: if_splits)
  next
    case 3
    show ?thesis using enc ro 3 by (intro fail [of 2]) (auto simp: d numeral_2_eq_2 numeral_3_eq_3 split: if_splits)
  next
    case 4
    show ?thesis using enc ro 4 by (intro fail [of 3]) (auto simp: d numeral_2_eq_2 numeral_3_eq_3 split: if_splits)
  next
    case 5
    show ?thesis
    proof (rule ok)
      show "\<forall>k < 4. \<not> faults w k" using 5 by (simp add: four)
    qed (use enc ro 5 in \<open>auto simp: d numeral_2_eq_2 numeral_3_eq_3 eval_nat_numeral\<close>)
  qed
qed

lemma encodeToFile_readOnly: "readOnly r \<Longrightarrow> encodeToFile obj file r w = (w, None, None)"
  by (simp add: encodeToFile_def)

lemma encodeToFile_frame:
  assumes "encodeToFile obj file r w = (w', rb, e)"
  shows "e \<noteq> None \<Longrightarrow> frame {file @ ''.tmp''} w w'" "frame {file, file @ ''.tmp''} w w'"
proof -
  have "(e \<noteq> None \<longrightarrow> frame {file @ ''.tmp''} w w') \<and> frame {file, file @ ''.tmp''} w w'"
  proof (cases "readOnly r")
    case True
    then show ?thesis using assms by (simp add: encodeToFile_readOnly)
  next
    case False
    show ?thesis
      by (rule encodeToFile_cases [OF assms False]) (auto simp: frame_def)
  qed
  then show "e \<noteq> None \<Longrightarrow> frame {file @ ''.tmp''} w w'" "frame {file, file @ ''.tmp''} w w'" by auto
qed

lemma encodeToFile_rollback:
  assumes "encodeToFile obj file r w = (w', Some rb, e)"
  shows "rb = on_world (os_RemoveAll (file @ ''.tmp''))"
proof (cases "readOnly r")
  case True
  then show ?thesis using assms by (simp add: encodeToFile_readOnly)
next
  case False
  show ?thesis using encodeToFile_cases [OF assms False] by auto
qed

lemma later_later: "faults w' = later n w \<Longrightarrow> later m w' = later (n + m) w"
  by (simp add: later_def fun_eq_iff add.assoc)

text \<open>Under a crash a failure means that nothing happens any more; after the only fault all calls succeed.\<close>

lemma later_crash: "crashing w \<Longrightarrow> faults w' = later n w \<Longrightarrow> crashing w'"
proof -
  assume "crashing w" and w': "faults w' = later n w"
  then obtain k where "faults w = (\<lambda>i. k \<le> i)" by (auto simp: crashing_def)
  then have "faults w' = (\<lambda>i. k - n \<le> i)" by (auto simp: w' later_def)
  then show ?thesis by (auto simp: crashing_def)
qed

lemma later_dead: "crashing w \<Longrightarrow> faults w k \<Longrightarrow> k < n \<Longrightarrow> faults w' = later n w \<Longrightarrow> dead w'"
  by (auto simp: crashing_def dead_def later_def)

lemma later_one: "one_fault w \<Longrightarrow> faults w' = later n w \<Longrightarrow> \<forall>k < n. \<not> faults w k \<Longrightarrow> one_fault w'"
proof -
  assume o: "one_fault w" and w': "faults w' = later n w" and n: "\<forall>k < n. \<not> faults w k"
  show ?thesis
  proof (cases "quiet_os w")
    case True
    then show ?thesis by (simp add: one_fault_def quiet_os_def w' later_def)
  next
    case False
    then obtain k where k: "faults w = (\<lambda>i. i = k)" using o by (auto simp: one_fault_def)
    then have "n \<le> k" using n by (metis not_less)
    then have "faults w' = (\<lambda>i. i = k - n)" by (auto simp: w' later_def k)
    then show ?thesis by (auto simp: one_fault_def)
  qed
qed

lemma later_quiet: "one_fault w \<Longrightarrow> faults w k \<Longrightarrow> k < n \<Longrightarrow> faults w' = later n w \<Longrightarrow> quiet_os w'"
  by (auto simp: one_fault_def quiet_os_def later_def)

lemma encodeToFile_crash:
  assumes "encodeToFile obj file r w = (w', rb, e)" "crashing w" "\<not> readOnly r"
  shows "(e \<noteq> None \<longrightarrow> dead w') \<and> (e = None \<longrightarrow> crashing w')"
proof (rule encodeToFile_cases [OF assms(1,3)])
  fix k
  assume "e \<noteq> None" "faults w k" "faults w' = later (k + 2) w"
  then show ?thesis using later_dead [OF assms(2), of k "k + 2" w'] by auto
qed (use assms(2) in \<open>auto intro: later_crash\<close>)

lemma encodeToFile_one:
  assumes "encodeToFile obj file r w = (w', rb, e)" "one_fault w" "\<not> readOnly r"
  shows "(e \<noteq> None \<longrightarrow> quiet_os w' \<and> alookup (entries w') (file @ ''.tmp'') = None) \<and> (e = None \<longrightarrow> one_fault w')"
proof (rule encodeToFile_cases [OF assms(1,3)])
  fix k
  assume k: "e \<noteq> None" "faults w k" "faults w' = later (k + 2) w" "\<not> faults w (k + 1) \<longrightarrow> alookup (entries w') (file @ ''.tmp'') = None"
  have "\<not> faults w (k + 1)" using assms(2) k(2) by (auto simp: one_fault_def quiet_os_def)
  then show ?thesis using k later_quiet [OF assms(2) k(2) _ k(3)] by auto
qed (use assms(2) in \<open>auto intro: later_one\<close>)

lemma encodeToFile_quiet:
  assumes "quiet_os w" "\<not> readOnly r"
  obtains w' rb where "encodeToFile obj file r w = (w', Some rb, None)" "quiet_os w'" "store w' = store w"
    "frame {file, file @ ''.tmp''} w w'" "alookup (entries w') file = Some obj" "alookup (entries w') (file @ ''.tmp'') = None"
proof -
  obtain w' rb e where enc: "encodeToFile obj file r w = (w', rb, e)" by (metis prod_cases3)
  have f: "\<not> faults w k" for k using assms(1) by (simp add: quiet_os_def)
  show ?thesis
    by (rule encodeToFile_cases [OF enc assms(2)])
      (use f enc assms(1) in \<open>auto intro!: that [of w'] simp: quiet_os_def later_def\<close>)
qed

section \<open>Removing the files of a disk\<close>

abbreviation disk_files :: "string \<Rightarrow> string set" where
  "disk_files n \<equiv> {n, n @ ''.meta'', n @ ''.checksum''}"

lemma rmDisk_frame:
  assumes "rmDisk n w = (w', e)"
  shows "frame (disk_files n) w w'" "store w' = store w" "dead w \<Longrightarrow> w' = w"
    "quiet_os w \<Longrightarrow> e = None \<and> quiet_os w'"
    "quiet_os w \<Longrightarrow> n \<noteq> [] \<Longrightarrow> m \<in> disk_files n \<Longrightarrow> alookup (entries w') m = None"
proof -
  have st: "store w1 = store w" if "os_RemoveAll m w = (w1, e1)" for m w1 e1 and w :: "'a world"
    using that by (auto simp: os_RemoveAll_def os_call_eq split: if_splits)
  have q: "e1 = None \<and> quiet_os w1" if "os_RemoveAll m w = (w1, e1)" "quiet_os w" for m w1 e1 and w :: "'a world"
    using that by (auto simp: os_RemoveAll_def os_call_eq schedule_fault(1) split: if_splits)
  have dd: "w1 = w" if "os_RemoveAll m w = (w1, e1)" "dead w" for m w1 e1 and w :: "'a world"
    using that by (auto simp: os_RemoveAll_def os_call_eq schedule_fault(2) split: if_splits)
  obtain w1 e1 w2 e2 w3 e3 where c: "os_RemoveAll n w = (w1, e1)" "os_RemoveAll (n @ ''.meta'') w1 = (w2, e2)"
    "os_RemoveAll (n @ ''.checksum'') w2 = (w3, e3)" by (metis surj_pair)
  consider "n = []" "w' = w" "e = None"
    | "n \<noteq> []" "os_RemoveAll n w = (w1, e1)" "os_RemoveAll (n @ ''.meta'') w1 = (w2, e2)"
      "os_RemoveAll (n @ ''.checksum'') w2 = (w', e3)" "e = (if e3 \<noteq> None then e3 else if e2 \<noteq> None then e2 else e1)"
    using assms c by (cases "n = []") (simp_all add: rmDisk_def)
  then have "frame (disk_files n) w w' \<and> store w' = store w \<and> (dead w \<longrightarrow> w' = w) \<and>
    (quiet_os w \<longrightarrow> e = None \<and> quiet_os w') \<and>
    (quiet_os w \<and> n \<noteq> [] \<and> m \<in> disk_files n \<longrightarrow> alookup (entries w') m = None)"
  proof cases
    case 2
    note fr = os_RemoveAll_frame [OF 2(2)] os_RemoveAll_frame [OF 2(3)] os_RemoveAll_frame [OF 2(4)]
    have "frame (disk_files n) w w'" 
      by (rule frame_trans [OF frame_mono [OF fr(1)] frame_trans [OF frame_mono [OF fr(4)] frame_mono [OF fr(7)]]]) auto
    moreover have "store w' = store w" using st [OF 2(2)] st [OF 2(3)] st [OF 2(4)] by simp
    moreover have "dead w \<longrightarrow> w' = w" using dd [OF 2(2)] dd [OF 2(3)] dd [OF 2(4)] by auto
    moreover have "quiet_os w \<longrightarrow> e = None \<and> quiet_os w' \<and> e1 = None \<and> e2 = None \<and> e3 = None"
      using q [OF 2(2)] q [OF 2(3)] q [OF 2(4)] 2(5) by auto
    moreover have "alookup (entries w') m = None" if "e1 = None" "e2 = None" "e3 = None" "m \<in> disk_files n"
      using that fr(3,6,9) frame_lookup [OF fr(4), of m] frame_lookup [OF fr(7), of m] by auto
    ultimately show ?thesis by (simp del: insert_iff)
  qed simp
  then show "frame (disk_files n) w w'" "store w' = store w" "dead w \<Longrightarrow> w' = w" "quiet_os w \<Longrightarrow> e = None \<and> quiet_os w'"
    "quiet_os w \<Longrightarrow> n \<noteq> [] \<Longrightarrow> m \<in> disk_files n \<Longrightarrow> alookup (entries w') m = None" by auto
qed

end
