(* ===== verification/ReplicaCreate.thy ===== *)
theory ReplicaCreate
  imports ReplicaFrame
begin

text \<open>
  The steps of \<open>createDisk\<close> under every schedule of failing calls: making a new head, linking the old
  head to its snapshot name, and the rollback functions the two return.
\<close>

section \<open>Rollback functions\<close>

text \<open>Entries may only have disappeared.\<close>

definition deletes :: "'f world \<Rightarrow> 'f world \<Rightarrow> bool" where
  "deletes w w' \<longleftrightarrow> (\<forall>n. alookup (entries w') n = None \<or> alookup (entries w') n = alookup (entries w) n)"

lemma deletes_refl [simp]: "deletes w w"
  by (simp add: deletes_def)

lemma deletes_trans: "deletes w w1 \<Longrightarrow> deletes w1 w2 \<Longrightarrow> deletes w w2"
  unfolding deletes_def by metis

lemma os_RemoveAll_deletes: "os_RemoveAll n w = (w', e) \<Longrightarrow> deletes w w'"
  by (auto simp: os_RemoveAll_def os_call_eq deletes_def split: if_splits)

lemma rmDisk_deletes: "rmDisk n w = (w', e) \<Longrightarrow> deletes w w'"
  by (auto simp: rmDisk_def Let_def split: if_splits prod.splits dest!: os_RemoveAll_deletes intro: deletes_trans)

text \<open>A rollback that removes the names \<open>X\<close> and touches nothing else.\<close>

definition cleans :: "string set \<Rightarrow> 'f rollback \<Rightarrow> bool" where
  "cleans X g \<longleftrightarrow>
     (\<forall>w r w' r' e. g (w, r) = ((w', r'), e) \<longrightarrow>
        r' = r \<and> store w' = store w \<and> frame X w w' \<and> deletes w w' \<and> (dead w \<longrightarrow> w' = w) \<and>
        (quiet_os w \<longrightarrow> quiet_os w' \<and> e = None \<and> (\<forall>n \<in> X. alookup (entries w') n = None)))"

lemma cleansD:
  assumes "cleans X g" "g (w, r) = ((w', r'), e)"
  shows "r' = r" "store w' = store w" "frame X w w'" "dead w \<Longrightarrow> w' = w"
    "quiet_os w \<Longrightarrow> quiet_os w' \<and> e = None \<and> (\<forall>n \<in> X. alookup (entries w') n = None)" "deletes w w'"
  using assms unfolding cleans_def by blast+

lemma cleans_rmDisk:
  assumes n: "n \<noteq> []"
  shows "cleans (disk_files n) (on_world (rmDisk n) :: 'f rollback)"
  unfolding cleans_def on_world_def
proof (intro allI impI)
  fix w w' :: "'f world" and r r' :: replica and e
  assume "(case (w, r) of (w, r) \<Rightarrow> let (w', e) = rmDisk n w in ((w', r), e)) = ((w', r'), e)"
  then have rm: "rmDisk n w = (w', e)" and "r' = r" by (auto split: prod.splits)
  note f = rmDisk_frame [OF rm]
  show "r' = r \<and> store w' = store w \<and> frame (disk_files n) w w' \<and> deletes w w' \<and> (dead w \<longrightarrow> w' = w) \<and>
     (quiet_os w \<longrightarrow> quiet_os w' \<and> e = None \<and> (\<forall>n \<in> disk_files n. alookup (entries w') n = None))"
    using f(1-4) f(5) [OF _ n] \<open>r' = r\<close> rmDisk_deletes [OF rm] by (metis (no_types, lifting))
qed

lemma cleans_RemoveAll: "cleans {n} (on_world (os_RemoveAll n))"
  by (auto simp: cleans_def on_world_def os_RemoveAll_def os_call_eq frame_def deletes_def schedule_fault split: if_splits)

lemma cleans_seq:
  fixes f g :: "'f rollback"
  assumes "cleans X f" "cleans Y g"
  shows "cleans (X \<union> Y) (\<lambda>s. let (s1, e1) = f s; (s2, e2) = g s1 in (s2, CombineErrors [e1, e2]))"
  unfolding cleans_def
proof (intro allI impI)
  fix w w' :: "'f world" and r r' :: replica and e
  assume eq: "(let (s1, e1) = f (w, r); (s2, e2) = g s1 in (s2, CombineErrors [e1, e2])) = ((w', r'), e)"
  obtain w1 r1 e1 where 1: "f (w, r) = ((w1, r1), e1)" by (metis prod.exhaust)
  obtain w2 r2 e2 where 2: "g (w1, r1) = ((w2, r2), e2)" by (metis prod.exhaust)
  have r: "w' = w2" "r' = r2" "e = CombineErrors [e1, e2]" using eq by (simp_all add: 1 2)
  note a = cleansD [OF assms(1) 1] and b = cleansD [OF assms(2) 2]
  have "frame (X \<union> Y) w w'" using a(3) b(3) r(1) by (auto simp: frame_def)
  moreover have "quiet_os w \<longrightarrow> quiet_os w' \<and> e = None \<and> (\<forall>n \<in> X \<union> Y. alookup (entries w') n = None)"
    using a(5) b(5) frame_lookup [OF b(3)] r by (auto simp: CombineErrors_def) metis
  ultimately show "r' = r \<and> store w' = store w \<and> frame (X \<union> Y) w w' \<and> deletes w w' \<and> (dead w \<longrightarrow> w' = w) \<and>
     (quiet_os w \<longrightarrow> quiet_os w' \<and> e = None \<and> (\<forall>n \<in> X \<union> Y. alookup (entries w') n = None))"
    using a(1,2,4) b(1,2,4) deletes_trans [OF a(6) b(6)] r by auto
qed

section \<open>A new head\<close>

text \<open>Nothing new is left behind: names of \<open>X\<close> may only have disappeared.\<close>

definition shrunk :: "string set \<Rightarrow> 'f world \<Rightarrow> 'f world \<Rightarrow> bool" where
  "shrunk X w w' \<longleftrightarrow> frame X w w' \<and> (\<forall>n. alookup (entries w) n = None \<longrightarrow> alookup (entries w') n = None)"

lemma shrunk_refl [simp]: "shrunk X w w"
  by (simp add: shrunk_def)

lemma shrunk_trans: "shrunk X w w1 \<Longrightarrow> shrunk X w1 w2 \<Longrightarrow> shrunk X w w2"
  by (auto simp: shrunk_def intro: frame_trans)

lemma shrunk_mono: "shrunk X w w' \<Longrightarrow> X \<subseteq> Y \<Longrightarrow> shrunk Y w w'"
  by (auto simp: shrunk_def elim: frame_mono)

lemma shrunk_clean:
  "frame X w w1 \<Longrightarrow> frame X w1 w2 \<Longrightarrow> \<forall>n \<in> X. alookup (entries w2) n = None \<Longrightarrow> shrunk X w w2"
  unfolding shrunk_def using frame_trans [of X w w1 w2] by (metis frame_lookup)

abbreviation head_files :: "string \<Rightarrow> string set" where
  "head_files h \<equiv> {h @ ''.meta.tmp''} \<union> disk_files h"

definition new_disk :: "string \<Rightarrow> string \<Rightarrow> string \<Rightarrow> disk" where
  "new_disk h parent created =
     \<lparr> dName = h, dParent = parent, dRemoved = False, dUserCreated = False, dCreated = created, dLabels = None \<rparr>"

lemma nextFile_nonempty: "nextFile old = Inr h \<Longrightarrow> h \<noteq> []"
  by (auto simp: nextFile_def VolumeHeadDiskName_def split: if_splits option.splits)

lemma open_new:
  assumes "opens_images im" "\<not> os_exists h w" "im_open im h True w = (w1, res)"
  shows "(faults w 0 \<and> w1 = tick w \<and> res = Inl io_error) \<or>
    (\<not> faults w 0 \<and> res = Inr (length (store w)) \<and>
     w1 = (tick w)\<lparr>entries := aupdate (entries w) h (Image (length (store w))), store := store w @ [im_new im]\<rparr>)"
  using assms by (auto simp: opens_images_def os_exists_def os_open_def next_call_def tick_def Let_def split: if_splits)


lemma meta_tmp: "(h @ ''.meta'') @ ''.tmp'' = h @ ''.meta.tmp''"
  by simp

lemma head_failed:
  assumes "rmDisk h w1 = (w2, y)" "h \<noteq> []" "frame (head_files h) w w1"
  shows "frame (head_files h) w w2"
    "quiet_os w1 \<Longrightarrow> alookup (entries w1) (h @ ''.meta.tmp'') \<in> {None, alookup (entries w) (h @ ''.meta.tmp'')} \<Longrightarrow>
       shrunk (head_files h) w w2 \<and> one_fault w2"
proof -
  note f = rmDisk_frame [OF assms(1)]
  show fr: "frame (head_files h) w w2" using assms(3) frame_mono [OF f(1), of "head_files h"] by (auto intro: frame_trans)
  assume q: "quiet_os w1" and t: "alookup (entries w1) (h @ ''.meta.tmp'') \<in> {None, alookup (entries w) (h @ ''.meta.tmp'')}"
  have "alookup (entries w2) n = None" if "alookup (entries w) n = None" for n
    using that t f(5) [OF q assms(2), of n] frame_lookup [OF f(1), of n] frame_lookup [OF fr, of n] by (cases "n = h @ ''.meta.tmp''") auto
  then show "shrunk (head_files h) w w2 \<and> one_fault w2" using fr f(4) [OF q] by (auto simp: shrunk_def one_fault_def)
qed

text \<open>
  Making a head either succeeds with an image of its own, its metadata and a rollback that removes
  both, or fails and leaves nothing new.
\<close>

lemma createNewHead_cases:
  fixes w :: "'f world"
  assumes im: "opens_images im" and ro: "\<not> readOnly r"
    and eq: "createNewHead im old parent created sz r w = (w', res, e)"
  obtains (ok) h rb where "e = None" "res = Some (length (store w), new_disk h parent created, rb)"
      "nextFile old = Inr h" "\<not> os_exists h w" "frame (head_files h) w w'"
      "alookup (entries w') h = Some (Image (length (store w)))"
      "alookup (entries w') (h @ ''.meta'') = Some (DiskJson (new_disk h parent created))"
      "store w' = store w @ [im_truncate im (im_new im) sz]" "cleans (head_files h) rb"
      "faults w' = later 6 w" "\<forall>k < 6. \<not> faults w k"
    | (fail) X where "e \<noteq> None" "res = None" "\<forall>h. nextFile old = Inr h \<longrightarrow> X = head_files h" "frame X w w'"
      "one_fault w \<longrightarrow> shrunk X w w' \<and> one_fault w'" "(\<exists>k. faults w k) \<or> (\<forall>h. nextFile old = Inr h \<longrightarrow> os_exists h w)"
      "\<forall>h. nextFile old = Inr h \<longrightarrow> os_exists h w \<longrightarrow> w' = w"
proof (cases "nextFile old")
  case (Inl x)
  then show ?thesis using eq by (intro fail [of "{}"]) (auto simp: createNewHead_def)
next
  case (Inr h)
  have h: "h \<noteq> []" by (rule nextFile_nonempty [OF Inr])
  have X: "\<forall>h'. nextFile old = Inr h' \<longrightarrow> head_files h = head_files h'" using Inr by auto
  obtain w1 o1 where op: "im_open im h True w = (w1, o1)" by (metis surj_pair)
  consider (ex) "os_exists h w" | (nop) "\<not> os_exists h w" "faults w 0" "w1 = tick w" "o1 = Inl io_error"
    | (opd) "\<not> os_exists h w" "\<not> faults w 0" "o1 = Inr (length (store w))"
     "w1 = (tick w)\<lparr>entries := aupdate (entries w) h (Image (length (store w))), store := store w @ [im_new im]\<rparr>"
    using open_new [OF im _ op] by blast
  then show ?thesis
  proof cases
    case ex
    then show ?thesis using eq Inr X by (intro fail [of "head_files h"]) (auto simp: createNewHead_def)
  next
    case nop
    then show ?thesis using eq Inr X op
      by (intro fail [of "head_files h"]) (auto simp: createNewHead_def shrunk_def quiet_os_def one_fault_def fun_eq_iff)
  next
    case op': opd
    have f1: "frame (head_files h) w w1" by (auto simp: op'(4) frame_def nth_append)
    let ?d = "new_disk h parent created"
    let ?w2 = "(tick w1)\<lparr>store := store w @ [im_truncate im (im_new im) sz]\<rparr>"
    have tr: "os_TruncateFile im h sz w1 = (if faults w1 0 then (tick w1, Some io_error) else (?w2, None))"
      by (simp add: os_TruncateFile_def os_call_eq op'(4) list_update_append)
    have f2: "frame (head_files h) w ?w2" by (auto simp: op'(4) frame_def nth_append)
    obtain w3 sub e3 where enc: "encodeToFile (DiskJson ?d) (h @ ''.meta'') r ?w2 = (w3, sub, e3)" by (metis prod_cases3)
    have f3: "frame (head_files h) w w3"
      using f2 frame_mono [OF encodeToFile_frame(2) [OF enc], of "head_files h"] by (auto intro: frame_trans)
    obtain w4 y4 where rm4: "rmDisk h (tick w1) = (w4, y4)" by (metis surj_pair)
    obtain w5 y5 where rm5: "rmDisk h w3 = (w5, y5)" by (metis surj_pair)
    have l1: "faults (tick w1) = later 2 w" "faults ?w2 = later 2 w"
      by (auto simp: op'(4) later_def fun_eq_iff tick_def)
    have sch: "faults w1 0 = faults w 1" by (simp add: op'(4) tick_def)
    have one: "one_fault ?w2" if "one_fault w" "\<not> faults w 1"
      using that op'(2) by (intro later_one [OF _ l1(2)]) (auto simp: less_2_cases_iff)
    show ?thesis
    proof (cases "faults w 1")
      case True
      have "createNewHead im old parent created sz r w = (w4, None, GenerateFunctionErrorWithRollback (Some io_error) y4)"
        using True by (simp add: createNewHead_def Inr op'(1,3) op tr sch rm4)
      then have r: "w' = w4" "res = None" "e \<noteq> None" using eq by (auto simp: GenerateFunctionErrorWithRollback_None_iff)
      have "frame (head_files h) w (tick w1)" using f1 by (auto simp: frame_def)
      note hf = head_failed [OF rm4 h this]
      have "quiet_os (tick w1)" if "one_fault w" using later_quiet [OF that True _ l1(1)] by simp
      moreover have "alookup (entries (tick w1)) (h @ ''.meta.tmp'') = alookup (entries w) (h @ ''.meta.tmp'')" by (simp add: op'(4))
      ultimately show ?thesis using r hf X True Inr op'(1) by (intro fail [of "head_files h"]) auto
    next
      case False
      have cn: "createNewHead im old parent created sz r w =
          (if e3 \<noteq> None then (w5, None, GenerateFunctionErrorWithRollback e3 y5)
           else (w3, Some (length (store w), ?d, \<lambda>s. case sub of None \<Rightarrow> on_world (rmDisk h) s
             | Some g \<Rightarrow> let (s1, e1) = g s; (s2, e2) = on_world (rmDisk h) s1 in (s2, CombineErrors [e1, e2])), None))"
        using False enc
        by (cases e3) (simp_all add: createNewHead_def Inr op'(1,3) op tr sch rm5 new_disk_def Let_def cong: if_cong)
      show ?thesis
      proof (rule encodeToFile_cases [OF enc ro])
        fix k
        assume "e3 \<noteq> None" "faults ?w2 k"
        then have r: "w' = w5" "res = None" "e \<noteq> None" using eq cn by (cases y5; auto)+
        note hf = head_failed [OF rm5 h f3]
        have "quiet_os w3 \<and> alookup (entries w3) (h @ ''.meta.tmp'') = None" if "one_fault w"
          using encodeToFile_one [OF enc one [OF that False] ro] \<open>e3 \<noteq> None\<close> by simp
        moreover have "faults w (2 + k)" using \<open>faults ?w2 k\<close> unfolding l1(2) later_def .
        ultimately show ?thesis using r hf X f3 Inr op'(1) by (intro fail [of "head_files h"]) auto
      next
        assume a: "e3 = None" "sub = Some (on_world (os_RemoveAll ((h @ ''.meta'') @ ''.tmp'')))" "store w3 = store ?w2"
          "frame {h @ ''.meta'', (h @ ''.meta'') @ ''.tmp''} ?w2 w3" "alookup (entries w3) (h @ ''.meta'') = Some (DiskJson ?d)"
          "faults w3 = later 4 ?w2" "\<forall>k < 4. \<not> faults ?w2 k"
        let ?rb = "\<lambda>s. let (s1, e1) = on_world (os_RemoveAll (h @ ''.meta.tmp'')) s; (s2, e2) = on_world (rmDisk h) s1 in (s2, CombineErrors [e1, e2])"
        have "w' = w3" "res = Some (length (store w), ?d, ?rb)" "e = None" using eq cn a(1,2) by simp_all
        moreover have "cleans (head_files h) ?rb" by (rule cleans_seq [OF cleans_RemoveAll cleans_rmDisk [OF h]])
        moreover have "alookup (entries w3) h = Some (Image (length (store w)))"
          using frame_lookup [OF a(4), of h] by (simp add: op'(4))
        moreover have "faults w3 = later 6 w" using later_later [OF l1(2), of 4] a(6) by simp
        moreover have "\<not> faults w k" if "k < 6" for k
        proof (cases "k < 2")
          case True
          then show ?thesis using op'(2) False by (auto simp: less_2_cases_iff)
        next
          case n: False
          then have "\<not> faults ?w2 (k - 2)" using a(7) that by simp
          then show ?thesis using n unfolding l1(2) later_def by (metis le_add_diff_inverse not_less)
        qed
        ultimately show ?thesis using a f3 Inr op'(1) by (intro ok [of h ?rb]) auto
      qed
    qed
  qed
qed

section \<open>Linking the old head\<close>

lemma os_RemoveAll_cases:
  assumes "os_RemoveAll n w = (w', e)"
  obtains (ok) "e = None" "\<not> faults w 0" "w' = (tick w)\<lparr>entries := adelete (entries w) n\<rparr>"
    | (fail) "e \<noteq> None" "faults w 0" "w' = tick w"
  using assms by (auto simp: os_RemoveAll_def os_call_eq split: if_splits)

lemma os_Link_cases:
  assumes "os_Link old new w = (w', e)" "alookup (entries w) old = Some c" "alookup (entries w) new = None"
  obtains (ok) "e = None" "\<not> faults w 0" "w' = (tick w)\<lparr>entries := aupdate (entries w) new c\<rparr>"
    | (fail) "e \<noteq> None" "faults w 0" "w' = tick w"
  using assms by (auto simp: os_Link_def os_call_eq os_exists_def split: if_splits)

lemma tick_one:
  assumes "one_fault w"
  shows "faults w 0 \<Longrightarrow> quiet_os (tick w)" "\<not> faults w 0 \<Longrightarrow> one_fault (tick w)"
  using schedule_fault(5,6) assms by blast+

lemma quiet_one [simp]: "quiet_os w \<Longrightarrow> one_fault w"
  by (simp add: one_fault_def)

text \<open>A failure while linking: what was linked so far is removed again.\<close>

lemma link_failed:
  assumes "rmDisk new w1 = (w2, y)" "new \<noteq> []" "frame (disk_files new) w w1"
  shows "frame (disk_files new) w w2" "quiet_os w1 \<Longrightarrow> shrunk (disk_files new) w w2 \<and> quiet_os w2"
proof -
  note f = rmDisk_frame [OF assms(1)]
  show "frame (disk_files new) w w2" using assms(3) f(1) by (rule frame_trans)
  assume q: "quiet_os w1"
  have "\<forall>n \<in> disk_files new. alookup (entries w2) n = None" by (intro ballI) (rule f(5) [OF q assms(2)])
  from shrunk_clean [OF assms(3) f(1) this] f(4) [OF q]
  show "shrunk (disk_files new) w w2 \<and> quiet_os w2" by simp
qed

lemma linkDisk_cases:
  fixes w :: "'f world"
  assumes eq: "linkDisk old new w = (w', rb, e)" and ne: "old \<noteq> []" "new \<noteq> []"
    and old: "alookup (entries w) old = Some c" "alookup (entries w) (old @ ''.meta'') = Some m"
    and out: "old \<notin> disk_files new" "old @ ''.meta'' \<notin> disk_files new"
  obtains (ok) g where "e = None" "rb = Some g" "cleans (disk_files new) g" "frame (disk_files new) w w'" "store w' = store w"
      "alookup (entries w') new = Some c" "alookup (entries w') (new @ ''.meta'') = Some m"
      "faults w' = later 5 w" "\<forall>k < 5. \<not> faults w k"
    | (fail) "e \<noteq> None" "rb = None" "frame (disk_files new) w w'" "store w' = store w"
       "one_fault w \<longrightarrow> shrunk (disk_files new) w w' \<and> quiet_os w'" "\<exists>k. faults w k"
proof -
  obtain w1 e1 where r1: "os_RemoveAll (new @ ''.meta'') w = (w1, e1)" by (metis surj_pair)
  obtain w2 e2 where r2: "os_RemoveAll (new @ ''.checksum'') w1 = (w2, e2)" by (metis surj_pair)
  obtain w3 e3 where r3: "os_RemoveAll new w2 = (w3, e3)" by (metis surj_pair)
  obtain w4 e4 where r4: "os_Link old new w3 = (w4, e4)" by (metis surj_pair)
  obtain w5 e5 where r5: "os_Link (old @ ''.meta'') (new @ ''.meta'') w4 = (w5, e5)" by (metis surj_pair)
  obtain w6 y6 where r6: "rmDisk new w4 = (w6, y6)" by (metis surj_pair)
  obtain w7 y7 where r7: "rmDisk new w5 = (w7, y7)" by (metis surj_pair)
  note l = linkDisk_def ne r1 r2 r3 r4 r5 r6 r7 Let_def
  note sh = shrunk_def frame_def tick_one
  show ?thesis
  proof (rule os_RemoveAll_cases [OF r1])
    assume 1: "e1 \<noteq> None" "faults w 0" "w1 = tick w"
    then show ?thesis using eq by (intro fail) (auto simp: l sh)
  next
    assume 1: "e1 = None" "\<not> faults w 0" "w1 = (tick w)\<lparr>entries := adelete (entries w) (new @ ''.meta'')\<rparr>"
    show ?thesis
    proof (rule os_RemoveAll_cases [OF r2])
      assume 2: "e2 \<noteq> None" "faults w1 0" "w2 = tick w1"
      have "w' = w2" "rb = None" "e \<noteq> None" using eq 1(1) 2(1) by (auto simp: l)
      then show ?thesis using 1 2 tick_one(1) [of "tick w"] by (intro fail) (auto simp: sh)
    next
      assume 2: "e2 = None" "\<not> faults w1 0" "w2 = (tick w1)\<lparr>entries := adelete (entries w1) (new @ ''.checksum'')\<rparr>"
      show ?thesis
      proof (rule os_RemoveAll_cases [OF r3])
        assume 3: "e3 \<noteq> None" "faults w2 0" "w3 = tick w2"
        have "w' = w3" "rb = None" "e \<noteq> None" using eq 1(1) 2(1) 3(1) by (auto simp: l)
        then show ?thesis using 1 2 3 tick_one(1) [of "tick (tick w)"] by (intro fail) (auto simp: sh)
      next
        assume 3: "e3 = None" "\<not> faults w2 0" "w3 = (tick w2)\<lparr>entries := adelete (entries w2) new\<rparr>"
        have f3: "frame (disk_files new) w w3" "store w3 = store w" by (auto simp: 1 2 3 frame_def)
        have o3: "one_fault w \<Longrightarrow> one_fault w3" using 1 2 3 by (simp add: tick_one)
        have lo: "alookup (entries w3) old = Some c" "alookup (entries w3) (old @ ''.meta'') = Some m"
          "alookup (entries w3) new = None" "alookup (entries w3) (new @ ''.meta'') = None"
          using old out frame_lookup [OF f3(1)] by (auto simp: 1 2 3)
        show ?thesis
        proof (rule os_Link_cases [OF r4 lo(1,3)])
          assume 4: "e4 \<noteq> None" "faults w3 0" "w4 = tick w3"
          note lf = link_failed [OF r6 ne(2), of w]
          have "w' = w6" "rb = None" "e \<noteq> None" using eq 1(1) 2(1) 3(1) 4(1) by (cases y6; auto simp: l)+
          moreover have "\<exists>k. faults w k" using 4(2) by (simp add: 1 2 3) blast
          ultimately show ?thesis using lf f3 4 o3 tick_one(1) [of w3] rmDisk_frame(2) [OF r6]
            by (intro fail; (assumption | auto simp: frame_def))
        next
          assume 4: "e4 = None" "\<not> faults w3 0" "w4 = (tick w3)\<lparr>entries := aupdate (entries w3) new c\<rparr>"
          have f4: "frame (disk_files new) w w4" "store w4 = store w" using f3 by (auto simp: 4 frame_def)
          have lo4: "alookup (entries w4) (old @ ''.meta'') = Some m" "alookup (entries w4) (new @ ''.meta'') = None"
            using lo out by (auto simp: 4)
          show ?thesis
          proof (rule os_Link_cases [OF r5 lo4])
            assume 5: "e5 \<noteq> None" "faults w4 0" "w5 = tick w4"
            note lf = link_failed [OF r7 ne(2), of w]
            have "w' = w7" "rb = None" "e \<noteq> None" using eq 1(1) 2(1) 3(1) 4(1) 5(1) by (cases y7; auto simp: l)+
            moreover have "\<exists>k. faults w k" using 5(2) by (simp add: 1 2 3 4) blast
            ultimately show ?thesis using lf f4 4 5 o3 tick_one [of w3] tick_one(1) [of w4] rmDisk_frame(2) [OF r7]
              by (intro fail; (assumption | auto simp: frame_def))
          next
            assume 5: "e5 = None" "\<not> faults w4 0" "w5 = (tick w4)\<lparr>entries := aupdate (entries w4) (new @ ''.meta'') m\<rparr>"
            have "w' = w5" "rb = Some (on_world (rmDisk new))" "e = None" using eq 1(1) 2(1) 3(1) 4(1) 5(1) by (auto simp: l)
            moreover have "faults w5 = later 5 w" by (simp add: 1 2 3 4 5 later_def fun_eq_iff tick_def eval_nat_numeral)
            moreover have "\<forall>k < 5. \<not> faults w k"
              using 1 2 3 4 5 by (auto simp: tick_def numeral_eq_Suc less_Suc_eq)
            ultimately show ?thesis using f4 cleans_rmDisk [OF ne(2)]
              by (intro ok [of "on_world (rmDisk new)"]) (auto simp: 4 5 frame_def)
          qed
        qed
      qed
    qed
  qed
qed

end
