(* ===== verification/ReplicaWf.thy ===== *)
theory ReplicaWf
  imports ReplicaCreate
begin

text \<open>
  Well-formed replicas.  The chain of a directory is the list of disks from the head down along the
  parents in the metadata files; a replica is well formed if its memory describes that chain: the
  disks, the slice of active disks and the open files agree with the directory.
\<close>

section \<open>Names\<close>

definition good_name :: "string \<Rightarrow> bool" where
  "good_name n \<longleftrightarrow> HasSuffix n ''.img''"

lemma good_name_alt: "good_name n \<longleftrightarrow> (\<exists>t. n = t @ ''.img'')"
  by (auto simp: good_name_def dest: HasSuffix_obtain)

lemma good_last: "good_name n \<Longrightarrow> n \<noteq> [] \<and> last n = CHR ''g''"
  by (auto simp: good_name_alt)

lemma good_snapshot [simp]: "good_name (GenerateSnapshotDiskName name)"
  unfolding good_name_alt GenerateSnapshotDiskName_def by (intro exI [of _ "''volume-snap-'' @ name"]) simp

lemma good_nextFile: "nextFile old = Inr h \<Longrightarrow> good_name h"
  unfolding good_name_alt nextFile_def VolumeHeadDiskName_def
  by (auto split: if_splits option.splits)

text \<open>The names a disk uses differ from those of other disks and from the volume's metadata.\<close>

lemma good_disjoint:
  assumes "good_name n"
  shows "n \<noteq> m @ ''.meta''" "n \<noteq> m @ ''.checksum''" "n \<noteq> m @ ''.meta.tmp''" "n \<noteq> volumeMetaData" "n \<noteq> volumeMetaData @ ''.tmp''"
    "n @ ''.meta'' \<noteq> volumeMetaData" "n @ ''.meta'' \<noteq> volumeMetaData @ ''.tmp''"
proof -
  have l: "last n = CHR ''g''" "n \<noteq> []" using good_last [OF assms] by auto
  show "n \<noteq> m @ ''.meta''" "n \<noteq> m @ ''.checksum''" "n \<noteq> m @ ''.meta.tmp''" "n \<noteq> volumeMetaData" "n \<noteq> volumeMetaData @ ''.tmp''"
    using l by (auto simp: volumeMetaData_def)
  show "n @ ''.meta'' \<noteq> volumeMetaData"
  proof
    assume "n @ ''.meta'' = volumeMetaData"
    then have "n @ ''.meta'' = ''volume'' @ ''.meta''" by (simp add: volumeMetaData_def)
    then have "n = ''volume''" by (simp only: append_same_eq)
    then show False using l by simp
  qed
  show "n @ ''.meta'' \<noteq> volumeMetaData @ ''.tmp''"
  proof
    assume "n @ ''.meta'' = volumeMetaData @ ''.tmp''"
    from arg_cong [OF this, of last] show False by (simp add: volumeMetaData_def)
  qed
qed

lemma meta_disjoint:
  "n @ ''.meta'' \<noteq> m @ ''.checksum''" "n @ ''.meta'' \<noteq> m @ ''.meta.tmp''"
  using arg_cong [of "n @ ''.meta''" "m @ ''.checksum''" last] arg_cong [of "n @ ''.meta''" "m @ ''.meta.tmp''" last] by auto

lemma volume_disjoint:
  "volumeMetaData \<noteq> m @ ''.checksum''" "volumeMetaData \<noteq> m @ ''.meta.tmp''" "volumeMetaData \<noteq> volumeMetaData @ ''.tmp''"
  using arg_cong [of volumeMetaData "m @ ''.checksum''" last] arg_cong [of volumeMetaData "m @ ''.meta.tmp''" last]
  by (auto simp: volumeMetaData_def)

lemma head_files_disjoint:
  assumes "good_name n" "good_name h" "n \<noteq> h"
  shows "n \<notin> head_files h" "n @ ''.meta'' \<notin> head_files h" "volumeMetaData \<notin> head_files h"
proof -
  show "n \<notin> head_files h" using good_disjoint(1-3) [OF assms(1), of h] assms(3) by simp
  show "n @ ''.meta'' \<notin> head_files h"
    using good_disjoint(1) [OF assms(2), of n, symmetric] meta_disjoint [of n h] assms(3) by simp
  show "volumeMetaData \<notin> head_files h"
    using good_disjoint(4,6) [OF assms(2), symmetric] volume_disjoint(1,2) [of h] by simp
qed

section \<open>The chain of a directory\<close>

primrec dir_chain :: "(string \<times> content) list \<Rightarrow> string \<Rightarrow> string list \<Rightarrow> bool" where
  "dir_chain es n [] \<longleftrightarrow> n = []"
| "dir_chain es n (m # ns) \<longleftrightarrow> n = m \<and> n \<noteq> [] \<and>
     (\<exists>d k. alookup es (n @ ''.meta'') = Some (DiskJson d) \<and> alookup es n = Some (Image k) \<and> dir_chain es (dParent d) ns)"

definition image_of :: "(string \<times> content) list \<Rightarrow> string \<Rightarrow> nat option" where
  "image_of es n = (case alookup es n of Some (Image k) \<Rightarrow> Some k | _ \<Rightarrow> None)"

text \<open>The chain a replica finds when it opens the directory, with the images of its disks.\<close>

definition dir_volume :: "(string \<times> content) list \<Rightarrow> string list \<Rightarrow> nat list \<Rightarrow> bool" where
  "dir_volume es ns ks \<longleftrightarrow>
     (\<exists>i. alookup es volumeMetaData = Some (InfoJson i) \<and> dir_chain es (iHead i) ns) \<and> map (image_of es) ns = map Some ks"

lemma dir_chain_cong:
  assumes "dir_chain es n ns"
    "\<And>m. m \<in> set ns \<Longrightarrow> alookup es' m = alookup es m \<and> alookup es' (m @ ''.meta'') = alookup es (m @ ''.meta'')"
  shows "dir_chain es' n ns"
  using assms by (induction ns arbitrary: n) auto

lemma dir_chain_unique: "dir_chain es n ns \<Longrightarrow> dir_chain es n ms \<Longrightarrow> ns = ms"
proof (induction ns arbitrary: n ms)
  case Nil
  then show ?case by (cases ms) auto
next
  case (Cons m ns)
  then show ?case by (cases ms) auto
qed

lemma dir_chain_split: "dir_chain es n (ns @ m # ms) \<Longrightarrow> dir_chain es m (m # ms)"
  by (induction ns arbitrary: n) auto

lemma dir_chain_distinct: "dir_chain es n ns \<Longrightarrow> distinct ns"
proof (induction ns arbitrary: n)
  case (Cons m ns)
  then obtain d where d: "alookup es (m @ ''.meta'') = Some (DiskJson d)" "dir_chain es (dParent d) ns" "dir_chain es m (m # ns)" by auto
  have "m \<notin> set ns"
  proof
    assume "m \<in> set ns"
    then obtain xs ys where s: "ns = xs @ m # ys" by (metis split_list)
    then have "dir_chain es m (m # ys)" using dir_chain_split d(2) by blast
    then have "m # ns = m # ys" by (rule dir_chain_unique [OF d(3)])
    then show False using s by simp
  qed
  then show ?case using Cons d(2) by auto
qed simp

lemma dir_chain_exists: "dir_chain es n ns \<Longrightarrow> m \<in> set ns \<Longrightarrow> m \<noteq> [] \<and> (\<exists>k. alookup es m = Some (Image k)) \<and> (\<exists>d. alookup es (m @ ''.meta'') = Some (DiskJson d))"
  by (induction ns arbitrary: n) auto

text \<open>Operations outside the files of the chain and the volume's metadata keep the volume.\<close>

lemma dir_volume_frame:
  assumes "dir_volume (entries w) ns ks" "frame X w w'" "volumeMetaData \<notin> X"
    "\<And>m. m \<in> set ns \<Longrightarrow> m \<notin> X \<and> m @ ''.meta'' \<notin> X"
  shows "dir_volume (entries w') ns ks"
proof -
  obtain i where i: "alookup (entries w) volumeMetaData = Some (InfoJson i)" "dir_chain (entries w) (iHead i) ns"
    "map (image_of (entries w)) ns = map Some ks"
    using assms(1) by (auto simp: dir_volume_def)
  have eq: "alookup (entries w') m = alookup (entries w) m \<and> alookup (entries w') (m @ ''.meta'') = alookup (entries w) (m @ ''.meta'')"
    if "m \<in> set ns" for m using frame_lookup [OF assms(2)] assms(4) that by auto
  have "map (image_of (entries w')) ns = map Some ks" using i(3) eq by (auto simp: image_of_def cong: map_cong)
  moreover have "dir_chain (entries w') (iHead i) ns" by (rule dir_chain_cong [OF i(2)]) (rule eq)
  ultimately show ?thesis using i(1) frame_lookup [OF assms(2,3)] by (auto simp: dir_volume_def)
qed

section \<open>Replicas\<close>

definition base :: "replica \<Rightarrow> nat" where
  "base r = (if iBackingFile (info r) = None then 1 else 2)"

text \<open>A disk in memory is the one in the directory, up to the name in the metadata file.\<close>

definition disk_stored :: "'f world \<Rightarrow> replica \<Rightarrow> string \<Rightarrow> bool" where
  "disk_stored w r n \<longleftrightarrow>
     good_name n \<and>
     (\<exists>p d k. alookup (diskData r) n = Some p \<and> p < length (heap r) \<and>
        alookup (entries w) (n @ ''.meta'') = Some (DiskJson d) \<and> heap r ! p = d\<lparr>dName := n\<rparr> \<and>
        alookup (entries w) n = Some (Image k) \<and> k < length (store w))"

definition ptrs_ok :: "replica \<Rightarrow> bool" where
  "ptrs_ok r \<longleftrightarrow> adistinct (diskData r) \<and> distinct (map snd (diskData r)) \<and> (\<forall>(n, p) \<in> set (diskData r). p < length (heap r))"

definition rwf :: "'f rs \<Rightarrow> string list \<Rightarrow> bool" where
  "rwf = (\<lambda>(w, r) ns.
     ns \<noteq> [] \<and> (\<forall>n \<in> set ns. disk_stored w r n) \<and> dir_chain (entries w) (iHead (info r)) ns \<and>
     (\<exists>i. alookup (entries w) volumeMetaData = Some (InfoJson i) \<and> iHead i = iHead (info r) \<and> iSize i = iSize (info r)) \<and>
     length (activeDiskData r) = base r + length ns \<and>
     drop (base r) (activeDiskData r) = map (alookup (diskData r)) (rev ns) \<and>
     length (files (volume r)) = base r + length ns \<and>
     drop (base r) (files (volume r)) = map (image_of (entries w)) (rev ns) \<and>
     ptrs_ok r)"

lemma rwfD:
  assumes "rwf (w, r) ns"
  shows "ns \<noteq> []" "n \<in> set ns \<Longrightarrow> disk_stored w r n" "dir_chain (entries w) (iHead (info r)) ns"
    "\<exists>i. alookup (entries w) volumeMetaData = Some (InfoJson i) \<and> iHead i = iHead (info r) \<and> iSize i = iSize (info r)"
    "length (activeDiskData r) = base r + length ns" "drop (base r) (activeDiskData r) = map (alookup (diskData r)) (rev ns)"
    "length (files (volume r)) = base r + length ns" "drop (base r) (files (volume r)) = map (image_of (entries w)) (rev ns)"
    "ptrs_ok r" "hd ns = iHead (info r)"
proof -
  show "hd ns = iHead (info r)" using assms by (cases ns) (auto simp: rwf_def)
qed (use assms in \<open>auto simp: rwf_def\<close>)

lemma rwf_volume: "rwf (w, r) ns \<Longrightarrow> \<exists>ks. dir_volume (entries w) ns ks"
proof -
  assume r: "rwf (w, r) ns"
  have "\<forall>n \<in> set ns. \<exists>k. image_of (entries w) n = Some k"
    using rwfD(2) [OF r] by (fastforce simp: disk_stored_def image_of_def)
  then have "map (image_of (entries w)) ns = map Some (map (\<lambda>n. the (image_of (entries w) n)) ns)" by auto
  moreover have "\<exists>i. alookup (entries w) volumeMetaData = Some (InfoJson i) \<and> dir_chain (entries w) (iHead i) ns"
    using rwfD(3,4) [OF r] by auto
  ultimately show ?thesis unfolding dir_volume_def by blast
qed

text \<open>Following the parents in memory gives the chain of the directory.\<close>

lemma chain_loop_eq:
  assumes "\<forall>n \<in> set ns. disk_stored w r n" "dir_chain (entries w) n ns"
  shows "chain_loop r n acc = Some (Inr (acc @ ns))"
  using assms
proof (induction ns arbitrary: n acc)
  case Nil
  then show ?case by (subst chain_loop.simps) simp
next
  case (Cons m ns)
  then obtain d where d: "n = m" "n \<noteq> []" "alookup (entries w) (n @ ''.meta'') = Some (DiskJson d)" "dir_chain (entries w) (dParent d) ns" by auto
  then have "disk_at r n = Some (d\<lparr>dName := n\<rparr>)" using Cons.prems(1) by (auto simp: disk_stored_def disk_at_def)
  then show ?case using Cons.IH [of "dParent d" "acc @ [m]"] Cons.prems(1) d by (subst chain_loop.simps) simp
qed

lemma Chain_rwf: "rwf (w, r) ns \<Longrightarrow> Chain r = Some (Inr ns)"
  using chain_loop_eq [of ns w r "iHead (info r)" "[]"] rwfD(2,3) [of w r ns] by (simp add: Chain_def)

end
