(* ===== verification/ReplicaSnapshot.thy ===== *)
theory ReplicaSnapshot
  imports ReplicaWf
begin

text \<open>
  Taking a snapshot (\<open>createDisk\<close> on an open replica) under every schedule of failing calls.
\<close>

lemma head_not_snap:
  assumes "nextFile old = Inr h"
  shows "h \<noteq> GenerateSnapshotDiskName name"
proof -
  obtain n where "h = VolumeHeadDiskName n" using assms by (auto simp: nextFile_def split: if_splits option.splits)
  then show ?thesis by (auto simp: VolumeHeadDiskName_def GenerateSnapshotDiskName_def)
qed

text \<open>The state in which a snapshot is taken, with the pointer of the old head.\<close>

definition snap_pre :: "'f image_ops \<Rightarrow> 'f rs \<Rightarrow> string list \<Rightarrow> string \<Rightarrow> string \<Rightarrow> nat \<Rightarrow> bool" where
  "snap_pre im s ns h snap p \<longleftrightarrow>
     opens_images im \<and> rwf s ns \<and> \<not> readOnly (snd s) \<and> nextFile (iHead (info (snd s))) = Inr h \<and>
     good_name snap \<and> h \<noteq> snap \<and> alookup (diskData (snd s)) snap = None \<and>
     alookup (diskData (snd s)) (iHead (info (snd s))) = Some p"

abbreviation old_head :: "replica \<Rightarrow> string" where
  "old_head r \<equiv> iHead (info r)"

lemma snap_preD:
  assumes "snap_pre im (w, r) ns h snap p"
  shows "opens_images im" "rwf (w, r) ns" "\<not> readOnly r" "nextFile (old_head r) = Inr h" "good_name snap" "good_name h"
    "h \<noteq> snap" "h \<noteq> []" "snap \<noteq> []" "old_head r \<noteq> []" "alookup (diskData r) snap = None" "alookup (diskData r) (old_head r) = Some p"
    "p < length (heap r)" "last (activeDiskData r) = Some p" "activeDiskData r \<noteq> []"
    "\<And>n. n \<in> set ns \<Longrightarrow> n \<noteq> snap \<and> good_name n" "old_head r \<in> set ns"
proof -
  note a = assms [unfolded snap_pre_def, simplified]
  have rw: "rwf (w, r) ns" using a by simp
  show "opens_images im" "rwf (w, r) ns" "\<not> readOnly r" "nextFile (old_head r) = Inr h" "good_name snap" "h \<noteq> snap"
    "alookup (diskData r) snap = None" "alookup (diskData r) (old_head r) = Some p" using a by auto
  show gh: "good_name h" using a good_nextFile by blast
  show "h \<noteq> []" "snap \<noteq> []" using good_last gh a by auto
  obtain n ns' where ns: "ns = n # ns'" using rwfD(1) [OF rw] by (cases ns) auto
  then show hd: "old_head r \<in> set ns" using rwfD(10) [OF rw] by simp
  then show "old_head r \<noteq> []" using rwfD(2) [OF rw hd] good_last by (auto simp: disk_stored_def)
  show "p < length (heap r)" using rwfD(2) [OF rw hd] a by (auto simp: disk_stored_def)
  have ne: "drop (base r) (activeDiskData r) \<noteq> []" using rwfD(6) [OF rw] ns by simp
  then show "activeDiskData r \<noteq> []" by auto
  have "last (activeDiskData r) = last (drop (base r) (activeDiskData r))" using ne by (simp add: last_drop)
  also have "\<dots> = alookup (diskData r) (hd ns)" using rwfD(6) [OF rw] ns by simp
  finally show "last (activeDiskData r) = Some p" using rwfD(10) [OF rw] a by simp
  show "n \<noteq> snap \<and> good_name n" if "n \<in> set ns" for n
    using rwfD(2) [OF rw that] a by (auto simp: disk_stored_def)
qed

abbreviation snap_files :: "string \<Rightarrow> string \<Rightarrow> string set" where
  "snap_files h snap \<equiv> head_files h \<union> disk_files snap \<union> {volumeMetaData @ ''.tmp'', snap @ ''.meta.tmp''}"

lemma chain_outside:
  assumes "snap_pre im (w, r) ns h snap p" "\<not> os_exists h w" "m \<in> set ns"
  shows "m \<noteq> h" "m \<notin> snap_files h snap \<union> {volumeMetaData}" "m @ ''.meta'' \<notin> snap_files h snap \<union> {volumeMetaData}"
proof -
  note P = snap_preD [OF assms(1)]
  show nh: "m \<noteq> h" using dir_chain_exists [OF rwfD(3) [OF P(2)] assms(3)] assms(2) by (auto simp: os_exists_def)
  show "m \<notin> snap_files h snap \<union> {volumeMetaData}" "m @ ''.meta'' \<notin> snap_files h snap \<union> {volumeMetaData}"
    using head_files_disjoint(1,2) [of m h] head_files_disjoint(1,2) [of m snap] P(5,6) P(16) [OF assms(3)] nh
      good_disjoint(3-7) [of m] meta_disjoint(2) [of m snap] by auto
qed

text \<open>The directory at the moment the new head has become the head of the volume.\<close>

definition committed ::
  "'f image_ops \<Rightarrow> string \<Rightarrow> string \<Rightarrow> string \<Rightarrow> int \<Rightarrow> 'f rs \<Rightarrow> 'f world \<Rightarrow> bool" where
  "committed im h snap created sz = (\<lambda>(w, r) w'.
     frame (snap_files h snap \<union> {volumeMetaData}) w w' \<and>
     alookup (entries w') h = Some (Image (length (store w))) \<and>
     alookup (entries w') (h @ ''.meta'') = Some (DiskJson (new_disk h snap created)) \<and>
     alookup (entries w') snap = alookup (entries w) (old_head r) \<and>
     (\<exists>d. alookup (entries w') (snap @ ''.meta'') = Some (DiskJson d) \<and>
        (\<exists>d0. alookup (entries w) (old_head r @ ''.meta'') = Some (DiskJson d0) \<and> dParent d = dParent d0)) \<and>
     alookup (entries w') volumeMetaData =
       Some (json_info ((info r)\<lparr>iHead := h, iDirty := True, iParent := snap, iSize := sz\<rparr>)) \<and>
     store w' = store w @ [im_truncate im (im_new im) sz])"

lemma committed_volume:
  assumes c: "committed im h snap created sz (w, r) w'" and pre: "snap_pre im (w, r) ns h snap p"
    and v: "dir_volume (entries w) ns ks" and h: "\<not> os_exists h w"
  shows "dir_volume (entries w') (h # snap # tl ns) (length (store w) # ks)"
proof -
  note P = snap_preD [OF pre] and c' = c [unfolded committed_def, simplified]
  have fr: "frame (snap_files h snap \<union> {volumeMetaData}) w w'" using c' by simp
  obtain n ns' where ns: "ns = n # ns'" using rwfD(1) [OF P(2)] by (cases ns) auto
  have n: "n = old_head r" using rwfD(10) [OF P(2)] ns by simp
  obtain i :: Info where i: "dir_chain (entries w) (iHead i) ns" "map (image_of (entries w)) ns = map Some ks"
    using v by (auto simp: dir_volume_def)
  obtain d0 where d0: "alookup (entries w) (n @ ''.meta'') = Some (DiskJson d0)" "dir_chain (entries w) (dParent d0) ns'"
    using i(1) by (auto simp: ns)
  note out = chain_outside(2,3) [OF pre h]
  have eq: "alookup (entries w') m = alookup (entries w) m \<and> alookup (entries w') (m @ ''.meta'') = alookup (entries w) (m @ ''.meta'')"
    if "m \<in> set ns" for m using frame_lookup [OF fr out(1) [OF that]] frame_lookup [OF fr out(2) [OF that]] by blast
  have ch: "dir_chain (entries w') (dParent d0) ns'"
    by (rule dir_chain_cong [OF d0(2)]) (use eq ns in auto)
  have im: "map (image_of (entries w')) ns' = map Some (tl ks)"
    using i(2) eq ns by (cases ks) (auto simp: image_of_def cong: map_cong)
  have k: "ks \<noteq> []" "alookup (entries w) n = Some (Image (hd ks))"
    using i(2) ns by (cases ks; auto simp: image_of_def split: option.splits content.splits)+
  have "image_of (entries w') snap = Some (hd ks)" using c' k(2) n by (simp add: image_of_def)
  moreover have "image_of (entries w') h = Some (length (store w))" using c' by (simp add: image_of_def)
  ultimately have m: "map (image_of (entries w')) (h # snap # tl ns) = map Some (length (store w) # ks)"
    using im k ns by (cases ks) simp_all
  have "dir_chain (entries w') snap (snap # ns')"
    using c' d0(1) ch k(2) n P(9) by auto
  then have "dir_chain (entries w') h (h # snap # ns')" using c' P(8) by (auto simp: new_disk_def)
  then show ?thesis using m c' ns by (auto simp: dir_volume_def json_info_def)
qed

section \<open>The steps of taking a snapshot\<close>

text \<open>What the memory looks like after the snapshot took over the disk of the old head.\<close>

definition taken_disk :: "bool \<Rightarrow> string \<Rightarrow> (string \<times> string) list option \<Rightarrow> disk \<Rightarrow> disk" where
  "taken_disk userCreated created lbls d = d\<lparr>dUserCreated := userCreated, dCreated := created, dLabels := lbls\<rparr>"

definition taken :: "string \<Rightarrow> string \<Rightarrow> nat \<Rightarrow> disk \<Rightarrow> replica \<Rightarrow> replica" where
  "taken h snap p d r =
     (let r1 = r\<lparr>heap := heap r @ [new_disk h snap (dCreated d)], diskData := aupdate (diskData r) h (length (heap r))\<rparr>
      in set_disk p d ((addChildDisk snap h r1)\<lparr>diskData := aupdate (diskData r1) snap p\<rparr>))"

definition renamed :: "string \<Rightarrow> nat \<Rightarrow> disk \<Rightarrow> replica \<Rightarrow> replica" where
  "renamed snap p d r =
     set_disk p (d\<lparr>dName := snap\<rparr>) (addChildDisk (dParent d) snap (rmChildDisk (dParent d) (old_head r) r))"

lemma addChildDisk_sel [simp]:
  "volume (addChildDisk a b r) = volume r" "info (addChildDisk a b r) = info r" "heap (addChildDisk a b r) = heap r"
  "diskData (addChildDisk a b r) = diskData r" "activeDiskData (addChildDisk a b r) = activeDiskData r"
  "readOnly (addChildDisk a b r) = readOnly r"
  by (simp_all add: addChildDisk_def Let_def)

lemma rmChildDisk_sel [simp]:
  "volume (rmChildDisk a b r) = volume r" "info (rmChildDisk a b r) = info r" "heap (rmChildDisk a b r) = heap r"
  "diskData (rmChildDisk a b r) = diskData r" "activeDiskData (rmChildDisk a b r) = activeDiskData r"
  "readOnly (rmChildDisk a b r) = readOnly r"
  by (simp_all add: rmChildDisk_def Let_def split: option.splits)

lemma set_disk_sel [simp]:
  "volume (set_disk p d r) = volume r" "info (set_disk p d r) = info r" "heap (set_disk p d r) = (heap r)[p := d]"
  "diskData (set_disk p d r) = diskData r" "activeDiskData (set_disk p d r) = activeDiskData r"
  "readOnly (set_disk p d r) = readOnly r" "diskChildrenMap (set_disk p d r) = diskChildrenMap r"
  by (simp_all add: set_disk_def)

lemma snapshot_disk_eq:
  assumes pre: "snap_pre im (w, r) ns h snap p" and h: "\<not> os_exists h w"
    and d: "d = taken_disk userCreated created lbls (heap r ! p)"
    and enc: "encodeToFile (DiskJson d) (snap @ ''.meta'') (taken h snap p d r) w3 = (w4, rb, e)"
  shows "snapshot_disk (old_head r) snap h userCreated created lbls
      (w3, r\<lparr>heap := heap r @ [new_disk h snap created], diskData := aupdate (diskData r) h (length (heap r))\<rparr>) =
    Some (if e \<noteq> None then ((w4, taken h snap p d r), e) else ((w4, renamed snap p d (taken h snap p d r)), None))"
proof -
  note P = snap_preD [OF pre]
  let ?r1 = "r\<lparr>heap := heap r @ [new_disk h snap created], diskData := aupdate (diskData r) h (length (heap r))\<rparr>"
  have hd: "old_head r \<noteq> h" "old_head r \<noteq> snap" using chain_outside(1) [OF pre h P(17)] P(16) [OF P(17)] by auto
  define A where "A = addChildDisk snap h ?r1"
  have c: "dCreated d = created" by (simp add: d taken_disk_def)
  have A: "alookup (diskData A) (old_head r) = Some p" "heap A ! p = heap r ! p"
    using P(12,13) hd by (simp_all add: A_def nth_append)
  have ds: "(heap r ! p)\<lparr>dUserCreated := userCreated, dCreated := created, dLabels := lbls\<rparr> = d"
    by (simp add: d taken_disk_def)
  have t: "set_disk p d (A\<lparr>diskData := aupdate (diskData A) snap p\<rparr>) = taken h snap p d r"
    by (simp add: A_def taken_def c Let_def)
  have dt: "disk_at (taken h snap p d r) (old_head r) = Some d"
    using P(12,13) hd by (simp add: disk_at_def taken_def Let_def)
  have lt: "activeDiskData (taken h snap p d r) = activeDiskData r" "heap (taken h snap p d r) ! p = d"
     "info (taken h snap p d r) = info r"
    using P(13) by (simp_all add: taken_def Let_def)
  show ?thesis
    unfolding snapshot_disk_def prod.case A_def [symmetric] Let_def A ds t enc bind.bind_lunit updateChildDisk_def dt
    using P(9,14,15) by (simp add: lt renamed_def)
qed

text \<open>The replica after a snapshot.\<close>

definition new_info :: "string \<Rightarrow> string \<Rightarrow> int \<Rightarrow> replica \<Rightarrow> Info" where
  "new_info h snap sz r = (info r)\<lparr>iHead := h, iDirty := True, iParent := snap, iSize := sz\<rparr>"

definition after_snapshot :: "string \<Rightarrow> string \<Rightarrow> nat \<Rightarrow> disk \<Rightarrow> int \<Rightarrow> nat \<Rightarrow> replica \<Rightarrow> replica" where
  "after_snapshot h snap p d sz k r =
     (let r' = renamed snap p d (taken h snap p d r)
      in r'\<lparr>diskData := adelete (diskData r') (old_head r), info := new_info h snap sz r,
           volume := (volume r')\<lparr>files := files (volume r') @ [Some k]\<rparr>,
           activeDiskData := activeDiskData r' @ [Some (length (heap r))]\<rparr>)"

text \<open>The committed state survives what happens to the metadata of the snapshot.\<close>

lemma committed_frame:
  assumes c: "committed im h snap created sz (w, r) w3" and f: "frame {snap @ ''.meta.tmp''} w3 w4" and st: "store w4 = store w3"
    and g: "good_name h" "good_name snap"
  shows "committed im h snap created sz (w, r) w4"
proof -
  have ne: "h \<notin> {snap @ ''.meta.tmp''}" "h @ ''.meta'' \<notin> {snap @ ''.meta.tmp''}" "snap \<notin> {snap @ ''.meta.tmp''}"
    "snap @ ''.meta'' \<notin> {snap @ ''.meta.tmp''}" "volumeMetaData \<notin> {snap @ ''.meta.tmp''}"
    using good_disjoint(3) [OF g(1), of snap] meta_disjoint(2) volume_disjoint(2) by auto
  note l = frame_lookup [OF f ne(1)] frame_lookup [OF f ne(2)] frame_lookup [OF f ne(3)] frame_lookup [OF f ne(4)] frame_lookup [OF f ne(5)]
  have "frame (snap_files h snap \<union> {volumeMetaData}) w w4"
    by (rule frame_trans [of _ w w3]) (use c f in \<open>auto simp: committed_def elim: frame_mono\<close>)
  then show ?thesis using c unfolding committed_def split_beta fst_conv snd_conv l st by blast
qed

lemma committed_meta:
  assumes c: "committed im h snap created sz (w, r) w3" and f: "frame {snap @ ''.meta'', snap @ ''.meta.tmp''} w3 w4" and st: "store w4 = store w3"
    and g: "good_name h" "good_name snap" "h \<noteq> snap" and d: "alookup (entries w4) (snap @ ''.meta'') = Some (DiskJson d)"
    "alookup (entries w) (old_head r @ ''.meta'') = Some (DiskJson d0)" "dParent d = dParent d0"
  shows "committed im h snap created sz (w, r) w4"
proof -
  let ?X = "{snap @ ''.meta'', snap @ ''.meta.tmp''}"
  have ne: "h \<notin> ?X" "h @ ''.meta'' \<notin> ?X" "snap \<notin> ?X" "volumeMetaData \<notin> ?X"
    using good_disjoint(1,3) [OF g(1), of snap] meta_disjoint(2) volume_disjoint(2) good_disjoint(6) [OF g(2), symmetric] g(3) by auto
  note l = frame_lookup [OF f ne(1)] frame_lookup [OF f ne(2)] frame_lookup [OF f ne(3)] frame_lookup [OF f ne(4)]
  have "frame (snap_files h snap \<union> {volumeMetaData}) w w4"
    by (rule frame_trans [of _ w w3]) (use c f in \<open>auto simp: committed_def elim: frame_mono\<close>)
  then show ?thesis using c d unfolding committed_def split_beta fst_conv snd_conv l st by auto
qed

text \<open>The commit: after the head, the links and the volume's metadata.\<close>

lemma commit_point:
  assumes pre: "snap_pre im (w, r) ns h snap p" and nh: "\<not> os_exists h w"
    and head: "frame (head_files h) w w1" "alookup (entries w1) h = Some (Image (length (store w)))"
      "alookup (entries w1) (h @ ''.meta'') = Some (DiskJson (new_disk h snap created))"
      "store w1 = store w @ [im_truncate im (im_new im) sz]"
    and link: "frame (disk_files snap) w1 w2" "store w2 = store w1" "alookup (entries w2) snap = alookup (entries w1) (old_head r)"
      "alookup (entries w2) (snap @ ''.meta'') = alookup (entries w1) (old_head r @ ''.meta'')"
    and vol: "frame {volumeMetaData, volumeMetaData @ ''.tmp''} w2 w3" "store w3 = store w2"
      "alookup (entries w3) volumeMetaData = Some (json_info (new_info h snap sz r))"
  shows "committed im h snap created sz (w, r) w3"
proof -
  note P = snap_preD [OF pre]
  let ?V = "{volumeMetaData, volumeMetaData @ ''.tmp''}"
  have V: "n \<notin> ?V \<and> n @ ''.meta'' \<notin> ?V" if "good_name n" for n
    using good_disjoint(4-7) [OF that] by auto
  have o1: "alookup (entries w1) (old_head r) = alookup (entries w) (old_head r)"
    "alookup (entries w1) (old_head r @ ''.meta'') = alookup (entries w) (old_head r @ ''.meta'')"
    using frame_lookup [OF head(1), of "old_head r"] frame_lookup [OF head(1), of "old_head r @ ''.meta''"]
      chain_outside(2,3) [OF pre nh P(17)] by auto
  have hS: "h \<notin> disk_files snap" "h @ ''.meta'' \<notin> disk_files snap"
    using head_files_disjoint(1,2) [OF P(6,5,7)] by auto
  have lh: "alookup (entries w3) h = alookup (entries w1) h" "alookup (entries w3) (h @ ''.meta'') = alookup (entries w1) (h @ ''.meta'')"
    using frame_lookup [OF link(1)] frame_lookup [OF vol(1)] V [OF P(6)] hS by simp_all
  have ls: "alookup (entries w3) snap = alookup (entries w2) snap" "alookup (entries w3) (snap @ ''.meta'') = alookup (entries w2) (snap @ ''.meta'')"
    using frame_lookup [OF vol(1)] V [OF P(5)] by simp_all
  obtain d0 where d0: "alookup (entries w) (old_head r @ ''.meta'') = Some (DiskJson d0)"
    using dir_chain_exists [OF rwfD(3) [OF P(2)] P(17)] by auto
  let ?F = "snap_files h snap \<union> {volumeMetaData}"
  have "frame ?F w w1" "frame ?F w1 w2" "frame ?F w2 w3"
    using head(1) link(1) vol(1) by (auto elim!: frame_mono)
  then have "frame ?F w w3" by (blast intro: frame_trans)
  then show ?thesis using head link vol d0 o1 lh ls by (auto simp: committed_def new_info_def)
qed

lemma shift_none:
  assumes "faults w1 = later n w" "\<forall>k < n. \<not> faults w k" "\<forall>k < m. \<not> faults w1 k"
  shows "\<forall>k < n + m. \<not> faults w k"
proof (intro allI impI)
  fix k assume k: "k < n + m"
  show "\<not> faults w k"
  proof (cases "k < n")
    case False
    then have "\<not> faults w1 (k - n)" using assms(3) k by auto
    then show ?thesis using False unfolding assms(1) later_def by (metis le_add_diff_inverse not_less)
  qed (use assms(2) in blast)
qed

lemma tmp_untouched:
  assumes "good_name snap" "good_name h" "h \<noteq> snap" "frame (head_files h) w w1" "frame (disk_files snap) w1 w2"
    "frame {volumeMetaData @ ''.tmp''} w2 w3"
  shows "alookup (entries w3) (snap @ ''.meta.tmp'') = alookup (entries w) (snap @ ''.meta.tmp'')"
proof -
  let ?t = "snap @ ''.meta.tmp''"
  have l: "last ?t = CHR ''p''" by simp
  have "?t \<noteq> h" "?t \<noteq> h @ ''.meta''" "?t \<noteq> h @ ''.checksum''" "?t \<noteq> snap" "?t \<noteq> snap @ ''.meta''" "?t \<noteq> snap @ ''.checksum''"
    using l good_last [OF assms(2)] by (auto simp del: append_assoc dest!: arg_cong [where f = last])
  moreover have "?t \<noteq> volumeMetaData @ ''.tmp''"
  proof
    assume "?t = volumeMetaData @ ''.tmp''"
    then have "(snap @ ''.meta'') @ ''.tmp'' = volumeMetaData @ ''.tmp''" by (simp only: meta_tmp)
    then have "snap @ ''.meta'' = volumeMetaData" by (simp only: append_same_eq)
    then show False using good_disjoint(6) [OF assms(1)] by blast
  qed
  ultimately show ?thesis
    using frame_lookup [OF assms(4), of ?t] frame_lookup [OF assms(5), of ?t] frame_lookup [OF assms(6), of ?t] assms(3) by simp
qed

lemma body_cases:
  fixes w :: "'f world"
  assumes pre: "snap_pre im (w, r) ns h snap p" and d: "d = taken_disk userCreated created lbls (heap r ! p)"
  obtains
      (head) w1 x where "createDisk_body im snap userCreated created lbls sz (w, r) = Some ((w1, r), [], Some x)"
        "frame (head_files h) w w1" "one_fault w \<longrightarrow> shrunk (head_files h) w w1 \<and> one_fault w1" "(\<exists>k. faults w k) \<or> os_exists h w"
        "os_exists h w \<longrightarrow> w1 = w"
    | (link) w1 w2 rb1 x where "createDisk_body im snap userCreated created lbls sz (w, r) = Some ((w2, r), [rb1], Some x)"
        "\<not> os_exists h w" "frame (head_files h) w w1" "frame (disk_files snap) w1 w2" "cleans (head_files h) rb1"
        "one_fault w \<longrightarrow> shrunk (disk_files snap) w1 w2 \<and> quiet_os w2" "\<exists>k. faults w k"
    | (vol) w1 rb1 rb2 x where "createDisk_body im snap userCreated created lbls sz (w, r) = Some ((w1, r), [rb1, rb2], Some x)"
        "\<not> os_exists h w" "frame (snap_files h snap) w w1" "cleans (head_files h) rb1" "cleans (disk_files snap) rb2"
        "one_fault w \<longrightarrow> quiet_os w1 \<and> alookup (entries w1) (volumeMetaData @ ''.tmp'') = None"
        "alookup (entries w1) (snap @ ''.meta.tmp'') = alookup (entries w) (snap @ ''.meta.tmp'')" "\<exists>k. faults w k"
    | (meta) w1 rb1 rb2 x where "createDisk_body im snap userCreated created lbls sz (w, r) =
          Some ((w1, taken h snap p d r), [rb1, rb2, restore_volume_meta (Some (on_world (os_RemoveAll (volumeMetaData @ ''.tmp'')))),
             forget_disks h snap], Some x)"
        "\<not> os_exists h w" "committed im h snap created sz (w, r) w1" "cleans (head_files h) rb1" "cleans (disk_files snap) rb2"
        "crashing w \<longrightarrow> dead w1" "one_fault w \<longrightarrow> quiet_os w1 \<and> alookup (entries w1) (snap @ ''.meta.tmp'') = None" "\<exists>k. faults w k"
    | (ok) w1 rbs where "createDisk_body im snap userCreated created lbls sz (w, r) =
          Some ((w1, after_snapshot h snap p d sz (length (store w)) r), rbs, None)"
        "\<not> os_exists h w" "committed im h snap created sz (w, r) w1" "alookup (entries w1) (snap @ ''.meta'') = Some (DiskJson d)"
        "quiet_os w \<longrightarrow> quiet_os w1"
proof -
  note P = snap_preD [OF pre]
  have ex: "\<exists>c. alookup (entries w) (old_head r) = Some c" "\<exists>m. alookup (entries w) (old_head r @ ''.meta'') = Some m"
    using dir_chain_exists [OF rwfD(3) [OF P(2)] P(17)] by auto
  obtain w1 res e1 where cn: "createNewHead im (old_head r) snap created sz r w = (w1, res, e1)" by (metis prod_cases3)
  show ?thesis
  proof (rule createNewHead_cases [OF P(1,3) cn])
    fix X assume a: "e1 \<noteq> None" "res = None" "\<forall>h. nextFile (old_head r) = Inr h \<longrightarrow> X = head_files h" "frame X w w1"
      "one_fault w \<longrightarrow> shrunk X w w1 \<and> one_fault w1" "(\<exists>k. faults w k) \<or> (\<forall>h. nextFile (old_head r) = Inr h \<longrightarrow> os_exists h w)"
      "\<forall>h. nextFile (old_head r) = Inr h \<longrightarrow> os_exists h w \<longrightarrow> w1 = w"
    then have X: "X = head_files h" using P(4) by blast
    from a(1) obtain x where "e1 = Some x" by blast
    then show ?thesis using cn a X P(4) by (intro head [of w1 x]) (auto simp: createDisk_body_def Let_def)
  next
    fix h' rb1
    assume "e1 = None" "res = Some (length (store w), new_disk h' snap created, rb1)" "nextFile (old_head r) = Inr h'"
      "\<not> os_exists h' w" "frame (head_files h') w w1" "alookup (entries w1) h' = Some (Image (length (store w)))"
      "alookup (entries w1) (h' @ ''.meta'') = Some (DiskJson (new_disk h' snap created))"
      "store w1 = store w @ [im_truncate im (im_new im) sz]" "cleans (head_files h') rb1" "faults w1 = later 6 w" "\<forall>k < 6. \<not> faults w k"
    moreover have "h' = h" using P(4) \<open>nextFile (old_head r) = Inr h'\<close> by simp
    ultimately have a: "e1 = None" "res = Some (length (store w), new_disk h snap created, rb1)"
      "\<not> os_exists h w" "frame (head_files h) w w1" "alookup (entries w1) h = Some (Image (length (store w)))"
      "alookup (entries w1) (h @ ''.meta'') = Some (DiskJson (new_disk h snap created))"
      "store w1 = store w @ [im_truncate im (im_new im) sz]" "cleans (head_files h) rb1" "faults w1 = later 6 w" "\<forall>k < 6. \<not> faults w k" by auto
    let ?o = "old_head r"
    have same: "alookup (entries w1) ?o = alookup (entries w) ?o" "alookup (entries w1) (?o @ ''.meta'') = alookup (entries w) (?o @ ''.meta'')"
      using frame_lookup [OF a(4), of ?o] frame_lookup [OF a(4), of "?o @ ''.meta''"] chain_outside(2,3) [OF pre a(3) P(17)] by auto
    obtain c m where cm: "alookup (entries w1) ?o = Some c" "alookup (entries w1) (?o @ ''.meta'') = Some m" using ex same by auto
    have out: "?o \<notin> disk_files snap" "?o @ ''.meta'' \<notin> disk_files snap" using chain_outside(2,3) [OF pre a(3) P(17)] by auto
    obtain w2 rb2 e2 where ld: "linkDisk ?o snap w1 = (w2, rb2, e2)" by (metis prod_cases3)
    note bd = createDisk_body_def cn a(1,2) ld Let_def new_disk_def
    show ?thesis
    proof (rule linkDisk_cases [OF ld P(10,9) cm out])
      assume b: "e2 \<noteq> None" "frame (disk_files snap) w1 w2" "one_fault w1 \<longrightarrow> shrunk (disk_files snap) w1 w2 \<and> quiet_os w2" "\<exists>k. faults w1 k"
      obtain x where "e2 = Some x" using b(1) by blast
      then have "createDisk_body im snap userCreated created lbls sz (w, r) = Some ((w2, r), [rb1], Some x)" by (simp add: bd)
      moreover have "\<exists>k. faults w k" using b(4) a(9) by (auto simp: later_def)
      moreover have "one_fault w \<longrightarrow> one_fault w1" using later_one [OF _ a(9,10)] by blast
      ultimately show ?thesis using a b by (intro link [of w2 rb1 x w1]) auto
    next
      fix g
      assume b: "e2 = None" "rb2 = Some g" "cleans (disk_files snap) g" "frame (disk_files snap) w1 w2" "store w2 = store w1"
        "alookup (entries w2) snap = Some c" "alookup (entries w2) (snap @ ''.meta'') = Some m" "faults w2 = later 5 w1" "\<forall>k < 5. \<not> faults w1 k"
      obtain w3 rb3 e3 where ev: "encodeToFile (json_info (new_info h snap sz r)) volumeMetaData r w2 = (w3, rb3, e3)" by (metis prod_cases3)
      have l2: "faults w2 = later 11 w" using later_later [OF a(9), of 5] b(8) by simp
      have n2: "\<forall>k < 11. \<not> faults w k" using shift_none [OF a(9,10) b(9)] by simp
      have o2: "one_fault w \<Longrightarrow> one_fault w2" using later_one [OF _ l2 n2] by blast
      show ?thesis
      proof (rule encodeToFile_cases [OF ev P(3)])
        fix k assume v: "e3 \<noteq> None" "rb3 = None" "store w3 = store w2" "frame {volumeMetaData @ ''.tmp''} w2 w3" "faults w2 k"
        obtain x where "e3 = Some x" using v(1) by blast
        then have "createDisk_body im snap userCreated created lbls sz (w, r) = Some ((w3, r), [rb1, g], Some x)"
          using ev b(1,2) by (simp add: bd new_info_def)
        moreover have "frame (snap_files h snap) w w3"
          by (rule frame_trans [OF frame_mono [OF a(4)] frame_trans [OF frame_mono [OF b(4)] frame_mono [OF v(4)]]]) auto
        moreover have "\<exists>k. faults w k" using v(5) l2 by (auto simp: later_def)
        moreover have "alookup (entries w3) (snap @ ''.meta.tmp'') = alookup (entries w) (snap @ ''.meta.tmp'')"
          using tmp_untouched [OF P(5,6,7) a(4) b(4) v(4)] .
        ultimately show ?thesis using a(3,8) b(3) encodeToFile_one [OF ev o2 P(3)] v(1) by (intro vol [of w3 rb1 g x]) auto
      next
        assume v: "e3 = None" "rb3 = Some (on_world (os_RemoveAll (volumeMetaData @ ''.tmp'')))" "store w3 = store w2"
          "frame {volumeMetaData, volumeMetaData @ ''.tmp''} w2 w3" "alookup (entries w3) volumeMetaData = Some (json_info (new_info h snap sz r))"
          "faults w3 = later 4 w2" "\<forall>k < 4. \<not> faults w2 k"
        have com: "committed im h snap created sz (w, r) w3"
          using commit_point [OF pre a(3-7) b(4,5) _ _ v(4,3,5)] b(6,7) cm by simp
        obtain w4 rb4 e4 where em: "encodeToFile (DiskJson d) (snap @ ''.meta'') (taken h snap p d r) w3 = (w4, rb4, e4)" by (metis prod_cases3)
        note sd = snapshot_disk_eq [OF pre a(3) d em]
        have ro: "\<not> readOnly (taken h snap p d r)" using P(3) by (simp add: taken_def Let_def)
        have l3: "faults w3 = later 15 w" using later_later [OF l2, of 4] v(6) by simp
        have n3: "\<forall>k < 15. \<not> faults w k" using shift_none [OF l2 n2 v(7)] by simp
        have body: "createDisk_body im snap userCreated created lbls sz (w, r) =
            Some (if e4 \<noteq> None then ((w4, taken h snap p d r), [rb1, g, restore_volume_meta (Some (on_world (os_RemoveAll (volumeMetaData @ ''.tmp'')))),
               forget_disks h snap], e4)
             else ((w4, after_snapshot h snap p d sz (length (store w)) r), [rb1, g, restore_volume_meta (Some (on_world (os_RemoveAll (volumeMetaData @ ''.tmp''))))], None))"
          using ev b(1,2) v(1,2) sd P(9) by (simp add: bd new_info_def after_snapshot_def)
        show ?thesis
        proof (rule encodeToFile_cases [OF em ro])
          fix k assume t: "e4 \<noteq> None" "store w4 = store w3" "frame {(snap @ ''.meta'') @ ''.tmp''} w3 w4" "faults w3 k"
          obtain x where x: "e4 = Some x" using t(1) by blast
          have cr: "crashing w \<longrightarrow> dead w4" using encodeToFile_crash [OF em later_crash [OF _ l3] ro] t(1) by blast
          have on: "one_fault w \<longrightarrow> quiet_os w4 \<and> alookup (entries w4) (snap @ ''.meta.tmp'') = None"
            using encodeToFile_one [OF em later_one [OF _ l3 n3] ro] t(1) by simp
          have "\<exists>k. faults w k" using t(4) l3 by (auto simp: later_def)
          then show ?thesis using body x a(3,8) b(3) cr on committed_frame [OF com _ t(2) P(6,5)] t(3)
            by (intro meta [of w4 rb1 g x]) auto
        next
          assume t: "e4 = None" "store w4 = store w3" "frame {snap @ ''.meta'', (snap @ ''.meta'') @ ''.tmp''} w3 w4"
            "alookup (entries w4) (snap @ ''.meta'') = Some (DiskJson d)" "faults w4 = later 4 w3"
          obtain d0 where d0: "alookup (entries w) (?o @ ''.meta'') = Some (DiskJson d0)" "heap r ! p = d0\<lparr>dName := ?o\<rparr>"
            using rwfD(2) [OF P(2) P(17)] P(12) by (auto simp: disk_stored_def)
          have par: "dParent d = dParent d0" by (simp add: d taken_disk_def d0(2))
          have "committed im h snap created sz (w, r) w4"
            using committed_meta [OF com _ t(2) P(6,5,7) t(4) d0(1) par] t(3) by simp
          moreover have "quiet_os w \<longrightarrow> quiet_os w4" using l3 t(5) by (auto simp: quiet_os_def later_def)
          ultimately show ?thesis using body a(3) t(1,4) by (intro ok [of w4]) auto
        qed
      qed
    qed
  qed
qed

end
