(* ===== verification/ReplicaCrash.thy ===== *)
theory ReplicaCrash
  imports ReplicaSnapshot
begin

text \<open>
  What is left of a snapshot that fails: after a crash at any point, and after one failing call with
  the rollback that follows it.
\<close>

section \<open>Rolling back\<close>

lemma createDisk_eq:
  assumes "snap_pre im (w, r) ns h snap p" "getRemainSnapshotCounts r = Some k" "0 < k" "snap = GenerateSnapshotDiskName name"
    "createDisk_body im snap userCreated created lbls sz (w, r) = Some (s, rbs, err)"
  shows "createDisk im name userCreated created lbls sz (w, r) =
    Some (case err of
       None \<Rightarrow> ((fst (rmDisk (old_head r) (fst s)), snd s), None)
     | Some e \<Rightarrow> let (s', rollbackErr) = run_rollbacks rbs s None
                 in (s', WrapError (GenerateFunctionErrorWithRollback (Some e) rollbackErr) (''failed to create new disk '' @ name)))"
  using assms snap_preD [OF assms(1)]
  by (cases err) (auto simp: createDisk_def Let_def split: prod.splits)

lemma encodeToFile_dead:
  assumes "dead w" "\<not> readOnly r"
  shows "\<exists>x. encodeToFile obj file r w = (w, None, Some x)"
  using assms by (simp add: encodeToFile_def os_write_defs schedule_fault(2) Let_def)

lemma restore_cases:
  assumes "restore_volume_meta (Some (on_world (os_RemoveAll (volumeMetaData @ ''.tmp'')))) (w, r) = ((w', r'), e)" "\<not> readOnly r"
  shows "r' = r" "store w' = store w" "frame {volumeMetaData, volumeMetaData @ ''.tmp''} w w'" "dead w \<Longrightarrow> w' = w"
    "quiet_os w \<Longrightarrow> quiet_os w' \<and> e = None \<and> alookup (entries w') (volumeMetaData @ ''.tmp'') = None \<and>
       alookup (entries w') volumeMetaData = Some (json_info (info r))"
proof -
  let ?V = "{volumeMetaData, volumeMetaData @ ''.tmp''}"
  obtain w1 rb e1 where enc: "encodeToFile (json_info (info r)) volumeMetaData r w = (w1, rb, e1)" by (metis prod_cases3)
  obtain w2 r2 e2 where rm: "on_world (os_RemoveAll (volumeMetaData @ ''.tmp'')) (w1, r) = ((w2, r2), e2)" by (metis prod.exhaust)
  have eq: "w' = w2" "r' = r2" "e = CombineErrors [e2, e1]" using assms(1) by (simp_all add: restore_volume_meta_def enc rm)
  note c = cleansD [OF cleans_RemoveAll rm]
  show "r' = r" "store w' = store w"
    using c eq encodeToFile_cases [OF enc assms(2)] by auto
  show "frame ?V w w'"
    using encodeToFile_frame(2) [OF enc] frame_mono [OF c(3), of ?V] eq by (auto intro: frame_trans)
  show "w' = w" if "dead w"
  proof -
    have "dead w1 \<and> w1 = w" using encodeToFile_dead [OF that assms(2), of "json_info (info r)" volumeMetaData] enc that by auto
    then show ?thesis using c(4) eq by auto
  qed
  show "quiet_os w' \<and> e = None \<and> alookup (entries w') (volumeMetaData @ ''.tmp'') = None \<and>
       alookup (entries w') volumeMetaData = Some (json_info (info r))" if q: "quiet_os w"
  proof -
    obtain w1' rb' where "encodeToFile (json_info (info r)) volumeMetaData r w = (w1', Some rb', None)" "quiet_os w1'"
      "alookup (entries w1') volumeMetaData = Some (json_info (info r))"
      using encodeToFile_quiet [OF q assms(2)] by metis
    then have 1: "e1 = None" "quiet_os w1" "alookup (entries w1) volumeMetaData = Some (json_info (info r))" using enc by auto
    have "alookup (entries w2) volumeMetaData = alookup (entries w1) volumeMetaData"
      using frame_lookup [OF c(3)] volume_disjoint(3) by simp
    then show ?thesis using c(5) [OF 1(2)] 1 eq by (simp add: CombineErrors_def)
  qed
qed

section \<open>Crashes\<close>

lemma cleans_run:
  assumes "cleans X g" "g (w, r) = (s', e)"
  obtains w' where "s' = (w', r)" "frame X w w'" "dead w \<Longrightarrow> w' = w" "store w' = store w" "deletes w w'"
    "quiet_os w \<Longrightarrow> quiet_os w' \<and> e = None \<and> (\<forall>n \<in> X. alookup (entries w') n = None)"
proof -
  obtain w' r' where s: "s' = (w', r')" by (cases s')
  note c = cleansD [OF assms(1) assms(2) [unfolded s]]
  show thesis by (rule that [of w']) (use c s in auto)
qed

lemma run_dead:
  assumes "dead w" "\<not> readOnly r" "cleans X rb1" "cleans Y rb2"
  shows "\<exists>r' e. run_rollbacks [rb1, rb2, restore_volume_meta (Some (on_world (os_RemoveAll (volumeMetaData @ ''.tmp'')))),
     forget_disks h snap] (w, r) e0 = ((w, r'), e)"
proof -
  obtain s1 e1 where 1: "rb1 (w, r) = (s1, e1)" by (metis surj_pair)
  obtain s2 e2 where 2: "rb2 (w, r) = (s2, e2)" by (metis surj_pair)
  have s: "s1 = (w, r)" "s2 = (w, r)" by (rule cleans_run [OF assms(3) 1]; use assms(1) in simp) (rule cleans_run [OF assms(4) 2]; use assms(1) in simp)
  obtain w3 r3 e3 where 3: "restore_volume_meta (Some (on_world (os_RemoveAll (volumeMetaData @ ''.tmp'')))) (w, r) = ((w3, r3), e3)"
    by (metis prod.exhaust)
  note c = restore_cases [OF 3 assms(2)]
  show ?thesis using c(1,4) assms(1) by (simp add: 1 2 s 3 forget_disks_def)
qed

lemma early_meta:
  assumes "snap_pre im (w, r) ns h snap p" "X \<subseteq> snap_files h snap"
  shows "volumeMetaData \<notin> X"
proof -
  note P = snap_preD [OF assms(1)]
  show ?thesis
    using assms(2) head_files_disjoint(3) [of "old_head r" h] P(5,6) volume_disjoint good_disjoint(4,6) [OF P(5), symmetric]
      good_disjoint(4,6) [OF P(6), symmetric] by auto
qed

lemma early_volume:
  assumes "snap_pre im (w, r) ns h snap p" "\<not> os_exists h w \<or> X = {}" "dir_volume (entries w) ns ks" "frame X w w'" "X \<subseteq> snap_files h snap"
  shows "dir_volume (entries w') ns ks" "alookup (entries w') volumeMetaData = alookup (entries w) volumeMetaData"
proof -
  show "dir_volume (entries w') ns ks"
  proof (rule dir_volume_frame [OF assms(3,4) early_meta [OF assms(1,5)]])
    show "m \<notin> X \<and> m @ ''.meta'' \<notin> X" if "m \<in> set ns" for m
      using assms(2,5) chain_outside(2,3) [OF assms(1) _ that] by auto
  qed
  show "alookup (entries w') volumeMetaData = alookup (entries w) volumeMetaData"
    by (rule frame_lookup [OF assms(4) early_meta [OF assms(1,5)]])
qed

text \<open>The files of the old head are not part of the new chain.\<close>

lemma new_chain_outside:
  assumes pre: "snap_pre im (w, r) ns h snap p" and nh: "\<not> os_exists h w"
  shows "volumeMetaData \<notin> disk_files (old_head r)"
    "m \<in> set (h # snap # tl ns) \<Longrightarrow> m \<notin> disk_files (old_head r) \<and> m @ ''.meta'' \<notin> disk_files (old_head r)"
proof -
  note P = snap_preD [OF pre]
  have o: "good_name (old_head r)" using P(16,17) by blast
  show "volumeMetaData \<notin> disk_files (old_head r)"
    using volume_disjoint(1) good_disjoint(4,6) [OF o, symmetric] by auto
  assume m: "m \<in> set (h # snap # tl ns)"
  have d: "distinct ns" using dir_chain_distinct [OF rwfD(3) [OF P(2)]] .
  have "good_name m \<and> m \<noteq> old_head r"
  proof (cases "m \<in> set (tl ns)")
    case True
    then have "m \<in> set ns" by (cases ns) auto
    moreover have "m \<noteq> hd ns" using True d by (cases ns) auto
    ultimately show ?thesis using P(16) rwfD(10) [OF P(2)] by auto
  next
    case False
    then show ?thesis using m P(5,6) P(16) [OF P(17)] chain_outside(1) [OF pre nh P(17)] by auto
  qed
  then show "m \<notin> disk_files (old_head r) \<and> m @ ''.meta'' \<notin> disk_files (old_head r)"
    using head_files_disjoint(1,2) [OF _ o, of m] by auto
qed

lemma removed_head_volume:
  assumes pre: "snap_pre im (w, r) ns h snap p" and nh: "\<not> os_exists h w"
    and v: "dir_volume (entries w1) (h # snap # tl ns) ks" and rm: "rmDisk (old_head r) w1 = (w2, e)"
  shows "dir_volume (entries w2) (h # snap # tl ns) ks"
  by (rule dir_volume_frame [OF v rmDisk_frame(1) [OF rm] new_chain_outside [OF pre nh]])

lemma crashed_directory:
  assumes pre: "snap_pre im (w, r) ns h snap p" and rem: "getRemainSnapshotCounts r = Some k" "0 < k"
    and snap: "snap = GenerateSnapshotDiskName name" and v: "dir_volume (entries w) ns ks" and cr: "crashing w"
  shows "\<exists>w' r' e. createDisk im name userCreated created lbls sz (w, r) = Some ((w', r'), e) \<and>
     (dir_volume (entries w') ns ks \<and> alookup (entries w') volumeMetaData = alookup (entries w) volumeMetaData \<or>
      dir_volume (entries w') (h # snap # tl ns) (length (store w) # ks) \<and> length (store w) < length (store w') \<and>
        alookup (entries w') volumeMetaData = Some (json_info (new_info h snap sz r)) \<and>
        store w' ! length (store w) = im_truncate im (im_new im) sz) \<and>
     length (store w) \<le> length (store w') \<and> (\<forall>k < length (store w). store w' ! k = store w ! k)"
proof -
  note P = snap_preD [OF pre]
  note eq = createDisk_eq [OF pre rem snap]
  define d where "d = taken_disk userCreated created lbls (heap r ! p)"
  show ?thesis
  proof (rule body_cases [OF pre d_def, where sz = sz])
    fix w1 x
    assume b: "createDisk_body im snap userCreated created lbls sz (w, r) = Some ((w1, r), [], Some x)" "frame (head_files h) w w1"
      "one_fault w \<longrightarrow> shrunk (head_files h) w w1 \<and> one_fault w1" "(\<exists>k. faults w k) \<or> os_exists h w"
      "os_exists h w \<longrightarrow> w1 = w"
    have "dir_volume (entries w1) ns ks \<and> alookup (entries w1) volumeMetaData = alookup (entries w) volumeMetaData"
      using early_volume [OF pre _ v b(2)] v b(5) by (cases "os_exists h w") auto
    then show ?thesis using eq [OF b(1)] b(2) by (auto simp: frame_def)
  next
    fix w1 w2 rb1 x
    assume b: "createDisk_body im snap userCreated created lbls sz (w, r) = Some ((w2, r), [rb1], Some x)"
        "\<not> os_exists h w" "frame (head_files h) w w1" "frame (disk_files snap) w1 w2" "cleans (head_files h) rb1"
    obtain s3 e3 where 3: "rb1 (w2, r) = (s3, e3)" by (metis surj_pair)
    show ?thesis
    proof (rule cleans_run [OF b(5) 3])
      fix w3 assume c: "s3 = (w3, r)" "frame (head_files h) w2 w3"
      have f: "frame (snap_files h snap) w w3"
        by (rule frame_trans [OF frame_mono [OF b(3)] frame_trans [OF frame_mono [OF b(4)] frame_mono [OF c(2)]]]) auto
      have "dir_volume (entries w3) ns ks \<and> alookup (entries w3) volumeMetaData = alookup (entries w) volumeMetaData"
        using early_volume [OF pre _ v f] b(2) by auto
      then show ?thesis using eq [OF b(1)] f by (auto simp: 3 c(1) frame_def)
    qed
  next
    fix w1 rb1 rb2 x
    assume b: "createDisk_body im snap userCreated created lbls sz (w, r) = Some ((w1, r), [rb1, rb2], Some x)"
        "\<not> os_exists h w" "frame (snap_files h snap) w w1" "cleans (head_files h) rb1" "cleans (disk_files snap) rb2"
    obtain s2 e2 where 2: "rb1 (w1, r) = (s2, e2)" by (metis surj_pair)
    show ?thesis
    proof (rule cleans_run [OF b(4) 2])
      fix w2 assume c: "s2 = (w2, r)" "frame (head_files h) w1 w2"
      obtain s3 e3 where 3: "rb2 (w2, r) = (s3, e3)" by (metis surj_pair)
      show ?thesis
      proof (rule cleans_run [OF b(5) 3])
        fix w3 assume e: "s3 = (w3, r)" "frame (disk_files snap) w2 w3"
        have f: "frame (snap_files h snap) w w3"
          by (rule frame_trans [OF b(3) frame_trans [OF frame_mono [OF c(2)] frame_mono [OF e(2)]]]) auto
        have "dir_volume (entries w3) ns ks \<and> alookup (entries w3) volumeMetaData = alookup (entries w) volumeMetaData"
        using early_volume [OF pre _ v f] b(2) by auto
        then show ?thesis using eq [OF b(1)] f by (auto simp: 2 3 c(1) e(1) frame_def)
      qed
    qed
  next
    fix w1 rb1 rb2 x
    assume b: "createDisk_body im snap userCreated created lbls sz (w, r) =
          Some ((w1, taken h snap p d r), [rb1, rb2, restore_volume_meta (Some (on_world (os_RemoveAll (volumeMetaData @ ''.tmp'')))),
             forget_disks h snap], Some x)"
        "\<not> os_exists h w" "committed im h snap created sz (w, r) w1" "cleans (head_files h) rb1" "cleans (disk_files snap) rb2"
        "crashing w \<longrightarrow> dead w1"
    have ro: "\<not> readOnly (taken h snap p d r)" using P(3) by (simp add: taken_def Let_def)
    obtain r' e where "run_rollbacks [rb1, rb2, restore_volume_meta (Some (on_world (os_RemoveAll (volumeMetaData @ ''.tmp'')))),
       forget_disks h snap] (w1, taken h snap p d r) None = ((w1, r'), e)"
      using run_dead [OF _ ro b(4,5)] b(6) cr by blast
    then show ?thesis using eq [OF b(1)] committed_volume [OF b(3) pre v b(2)] b(3)
      by (auto simp: committed_def nth_append new_info_def)
  next
    fix w1 rbs
    assume b: "createDisk_body im snap userCreated created lbls sz (w, r) =
          Some ((w1, after_snapshot h snap p d sz (length (store w)) r), rbs, None)"
        "\<not> os_exists h w" "committed im h snap created sz (w, r) w1"
    obtain w2 e2 where 2: "rmDisk (old_head r) w1 = (w2, e2)" by (metis surj_pair)
    have "dir_volume (entries w2) (h # snap # tl ns) (length (store w) # ks)"
      by (rule removed_head_volume [OF pre b(2) committed_volume [OF b(3) pre v b(2)] 2])
    then show ?thesis using eq [OF b(1)] b(3) rmDisk_frame(2) [OF 2]
        frame_lookup [OF rmDisk_frame(1) [OF 2] new_chain_outside(1) [OF pre b(2)]]
      by (auto simp: 2 committed_def nth_append new_info_def)
  qed
qed

end
