(* ===== verification/ReplicaRollback.thy ===== *)
theory ReplicaRollback
  imports ReplicaCrash
begin

text \<open>
  A snapshot during which one call of the operating system fails is rolled back completely, on disk and
  in memory.
\<close>

section \<open>One failing call\<close>

text \<open>Nothing new: a directory entry that was not there before is not there afterwards.\<close>

definition no_new :: "'f world \<Rightarrow> 'f world \<Rightarrow> bool" where
  "no_new w w' \<longleftrightarrow> (\<forall>n. alookup (entries w) n = None \<longrightarrow> alookup (entries w') n = None)"

lemma no_newI:
  assumes "frame X w w'" "\<And>n. n \<in> X \<Longrightarrow> alookup (entries w) n = None \<Longrightarrow> alookup (entries w') n = None"
  shows "no_new w w'"
  unfolding no_new_def
proof (intro allI impI)
  fix n assume n: "alookup (entries w) n = None"
  show "alookup (entries w') n = None"
    by (cases "n \<in> X") (use assms(2) n frame_lookup [OF assms(1)] in auto)
qed

lemma no_new_trans: "no_new w w1 \<Longrightarrow> no_new w1 w2 \<Longrightarrow> no_new w w2"
  by (simp add: no_new_def)

lemma no_new_shrunk: "shrunk X w w' \<Longrightarrow> no_new w w'"
  by (simp add: shrunk_def no_new_def)

lemma adelete_same [simp]: "adelete (aupdate m k v) k = adelete m k"
  by (induction m) (auto simp: adelete_def)

lemma adelete_other: "k \<noteq> k' \<Longrightarrow> adelete (aupdate m k v) k' = aupdate (adelete m k') k v"
  by (induction m) (auto simp: adelete_def)

lemma adelete_none: "alookup m k = None \<Longrightarrow> adelete m k = m"
  by (induction m) (auto simp: adelete_def split: if_splits)

lemma forget_taken:
  assumes "alookup (diskData r) h = None" "alookup (diskData r) snap = None" "alookup (diskChildrenMap r) snap = None" "h \<noteq> snap"
  shows "\<exists>H. forget_disks h snap (w, taken h snap p d r) = ((w, r\<lparr>heap := H\<rparr>), None)"
proof -
  have "adelete (adelete (aupdate (aupdate (diskData r) h q) snap p) h) snap = diskData r" for q
    using assms by (simp add: adelete_other adelete_none)
  moreover have "addChildDisk snap h r1 = r1\<lparr>diskChildrenMap := aupdate (diskChildrenMap r) snap [h]\<rparr>"
    if "diskChildrenMap r1 = diskChildrenMap r" for r1
    using assms(3) that by (simp add: addChildDisk_def)
  ultimately show ?thesis using assms(3)
    by (auto simp: forget_disks_def taken_def set_disk_def Let_def adelete_none)
qed

text \<open>The metadata of the volume may be written again, with the same head.\<close>

lemma restored_volume:
  assumes pre: "snap_pre im (w, r) ns h snap p" and nh: "\<not> os_exists h w" and v: "dir_volume (entries w) ns ks"
    and fr: "frame (snap_files h snap \<union> {volumeMetaData}) w w'" and m: "alookup (entries w') volumeMetaData = Some (json_info i)" "iHead i = old_head r"
  shows "dir_volume (entries w') ns ks"
proof -
  note P = snap_preD [OF pre] and out = chain_outside(2,3) [OF pre nh]
  have eq: "alookup (entries w') m = alookup (entries w) m \<and> alookup (entries w') (m @ ''.meta'') = alookup (entries w) (m @ ''.meta'')"
    if "m \<in> set ns" for m using frame_lookup [OF fr out(1) [OF that]] frame_lookup [OF fr out(2) [OF that]] by blast
  have "dir_chain (entries w') (old_head r) ns" by (rule dir_chain_cong [OF rwfD(3) [OF P(2)]]) (use eq in auto)
  moreover have "map (image_of (entries w')) ns = map Some ks"
    using v eq by (auto simp: dir_volume_def image_of_def cong: map_cong)
  ultimately show ?thesis using m by (auto simp: dir_volume_def json_info_def)
qed

lemma quiet_clean:
  assumes "cleans X g" "quiet_os w"
  obtains w' where "g (w, r) = ((w', r), None)" "frame X w w'" "quiet_os w'" "\<forall>n \<in> X. alookup (entries w') n = None" "store w' = store w"
proof -
  obtain s e where g: "g (w, r) = (s, e)" by (metis surj_pair)
  show ?thesis by (rule cleans_run [OF assms(1) g]) (use assms(2) that g in blast)
qed

lemma rolled_back_link:
  assumes "frame (head_files h) w w1" "shrunk (disk_files snap) w1 w2" "frame (head_files h) w2 w3"
    "\<forall>n \<in> head_files h. alookup (entries w3) n = None"
  shows "no_new w w3"
  unfolding no_new_def
proof (intro allI impI)
  fix n assume n: "alookup (entries w) n = None"
  show "alookup (entries w3) n = None"
  proof (cases "n \<in> head_files h")
    case False
    then have "alookup (entries w2) n = None"
      using n frame_lookup [OF assms(1) False] assms(2) by (simp add: shrunk_def)
    then show ?thesis using frame_lookup [OF assms(3) False] by simp
  next
    case True
    show ?thesis by (rule bspec [OF assms(4) True])
  qed
qed

lemma rolled_back_files:
  assumes "frame (snap_files h snap \<union> {volumeMetaData}) w w'"
    "\<forall>n \<in> head_files h. alookup (entries w') n = None" "\<forall>n \<in> disk_files snap. alookup (entries w') n = None"
    "alookup (entries w') (volumeMetaData @ ''.tmp'') = None"
    "alookup (entries w) (snap @ ''.meta.tmp'') = None \<longrightarrow> alookup (entries w') (snap @ ''.meta.tmp'') = None"
    "alookup (entries w) volumeMetaData \<noteq> None"
  shows "no_new w w'"
  by (rule no_newI [OF assms(1)]) (use assms(2-6) in auto)

lemma store_frame: "frame X w w' \<Longrightarrow> k < length (store w) \<Longrightarrow> store w' ! k = store w ! k"
  by (simp add: frame_def)

lemma still_gone:
  assumes "frame Y w w'" "\<forall>n \<in> Y. alookup (entries w') n = None" "alookup (entries w) n = None"
  shows "alookup (entries w') n = None"
proof (cases "n \<in> Y")
  case True
  show ?thesis by (rule bspec [OF assms(2) True])
next
  case False
  show ?thesis using frame_lookup [OF assms(1) False] assms(3) by simp
qed

lemma head_files_V:
  assumes "good_name n"
  shows "head_files n \<inter> {volumeMetaData, volumeMetaData @ ''.tmp''} = {}"
proof -
  have t: "n @ ''.meta.tmp'' \<noteq> volumeMetaData @ ''.tmp''"
  proof
    assume "n @ ''.meta.tmp'' = volumeMetaData @ ''.tmp''"
    then have "(n @ ''.meta'') @ ''.tmp'' = volumeMetaData @ ''.tmp''" by (simp only: meta_tmp)
    then have "n @ ''.meta'' = volumeMetaData" by (simp only: append_same_eq)
    then show False using good_disjoint(6) [OF assms] by blast
  qed
  have "n @ ''.checksum'' \<noteq> volumeMetaData @ ''.tmp''"
    using arg_cong [of "n @ ''.checksum''" "volumeMetaData @ ''.tmp''" last] by auto
  then show ?thesis
    using t good_disjoint(4-7) [OF assms] volume_disjoint(1,2) [of n, symmetric] by blast
qed

text \<open>The rollback functions of \<open>createDisk\<close>, when nothing else fails.\<close>

lemma rollback_vol:
  assumes pre: "snap_pre im (w, r) ns h snap p" and nh: "\<not> os_exists h w" and v: "dir_volume (entries w) ns ks"
    and b: "frame (snap_files h snap) w w1" "cleans (head_files h) rb1" "cleans (disk_files snap) rb2" "quiet_os w1"
      "alookup (entries w1) (volumeMetaData @ ''.tmp'') = None"
      "alookup (entries w1) (snap @ ''.meta.tmp'') = alookup (entries w) (snap @ ''.meta.tmp'')"
  obtains w' where "run_rollbacks [rb1, rb2] (w1, r) None = ((w', r), None)" "dir_volume (entries w') ns ks" "no_new w w'"
    "\<forall>k < length (store w). store w' ! k = store w ! k"
proof -
  note P = snap_preD [OF pre]
  obtain w2 where 2: "rb1 (w1, r) = ((w2, r), None)" "frame (head_files h) w1 w2" "quiet_os w2" "\<forall>n \<in> head_files h. alookup (entries w2) n = None"
    by (rule quiet_clean [OF b(2,4)])
  obtain w3 where 3: "rb2 (w2, r) = ((w3, r), None)" "frame (disk_files snap) w2 w3" "\<forall>n \<in> disk_files snap. alookup (entries w3) n = None"
    by (rule quiet_clean [OF b(3) 2(3)])
  have f: "frame (snap_files h snap) w w3"
    by (rule frame_trans [OF b(1) frame_trans [OF frame_mono [OF 2(2)] frame_mono [OF 3(2)]]]) auto
  have d: "dir_volume (entries w3) ns ks" by (rule early_volume [OF pre _ v f]) (use nh in auto)
  have f': "frame (snap_files h snap \<union> {volumeMetaData}) w w3" by (rule frame_mono [OF f]) auto
  note gone = still_gone [OF 3(2,3)]
  have "no_new w w3"
  proof (rule rolled_back_files [OF f' _ 3(3)])
    show "\<forall>n \<in> head_files h. alookup (entries w3) n = None" by (intro ballI, rule gone) (rule bspec [OF 2(4)])
    show "alookup (entries w3) (volumeMetaData @ ''.tmp'') = None"
      by (rule gone [OF still_gone [OF 2(2,4) b(5)]])
    show "alookup (entries w) (snap @ ''.meta.tmp'') = None \<longrightarrow> alookup (entries w3) (snap @ ''.meta.tmp'') = None"
      using gone [OF still_gone [OF 2(2,4), of "snap @ ''.meta.tmp''"]] unfolding b(6) by (rule impI)
    show "alookup (entries w) volumeMetaData \<noteq> None" using rwfD(4) [OF P(2)] by auto
  qed
  then show thesis using that [of w3] 2(1) 3(1) d store_frame [OF f] by (simp add: CombineErrors_def)
qed

lemma rollback_meta:
  assumes pre: "snap_pre im (w, r) ns h snap p" and nh: "\<not> os_exists h w" and v: "dir_volume (entries w) ns ks"
    and b: "committed im h snap created sz (w, r) w1" "cleans (head_files h) rb1" "cleans (disk_files snap) rb2" "quiet_os w1"
      "alookup (entries w1) (snap @ ''.meta.tmp'') = None"
    and new: "alookup (diskData r) h = None" "alookup (diskChildrenMap r) snap = None"
  obtains w' H where "run_rollbacks [rb1, rb2, restore_volume_meta (Some (on_world (os_RemoveAll (volumeMetaData @ ''.tmp'')))),
      forget_disks h snap] (w1, taken h snap p d r) None = ((w', r\<lparr>heap := H\<rparr>), None)"
    "dir_volume (entries w') ns ks" "no_new w w'" "\<forall>k < length (store w). store w' ! k = store w ! k"
proof -
  note P = snap_preD [OF pre]
  let ?t = "taken h snap p d r" and ?V = "{volumeMetaData, volumeMetaData @ ''.tmp''}"
  have c: "frame (snap_files h snap \<union> {volumeMetaData}) w w1" using b(1) by (simp add: committed_def)
  have ro: "\<not> readOnly ?t" and it: "info ?t = info r" using P(3) by (simp_all add: taken_def Let_def)
  obtain w2 where 2: "rb1 (w1, ?t) = ((w2, ?t), None)" "frame (head_files h) w1 w2" "quiet_os w2" "\<forall>n \<in> head_files h. alookup (entries w2) n = None"
    by (rule quiet_clean [OF b(2,4)])
  obtain w3 where 3: "rb2 (w2, ?t) = ((w3, ?t), None)" "frame (disk_files snap) w2 w3" "quiet_os w3" "\<forall>n \<in> disk_files snap. alookup (entries w3) n = None"
    by (rule quiet_clean [OF b(3) 2(3)])
  obtain w4 r4 e4 where 4: "restore_volume_meta (Some (on_world (os_RemoveAll (volumeMetaData @ ''.tmp'')))) (w3, ?t) = ((w4, r4), e4)"
    by (metis prod.exhaust)
  note m = restore_cases [OF 4 ro]
  have m4: "r4 = ?t" "e4 = None" "alookup (entries w4) (volumeMetaData @ ''.tmp'') = None" "alookup (entries w4) volumeMetaData = Some (json_info (info r))"
    using m(1) m(5) [OF 3(3)] it by auto
  obtain H where H: "forget_disks h snap (w4, ?t) = ((w4, r\<lparr>heap := H\<rparr>), None)"
    using forget_taken [OF new(1) P(11) new(2) P(7)] by blast
  have f: "frame (snap_files h snap \<union> {volumeMetaData}) w w4"
    by (rule frame_trans [OF c frame_trans [OF frame_mono [OF 2(2)] frame_trans [OF frame_mono [OF 3(2)] frame_mono [OF m(3)]]]]) auto
  have same: "alookup (entries w4) n = alookup (entries w3) n" if "n \<notin> ?V" for n using frame_lookup [OF m(3) that] .
  have "no_new w w4"
  proof (rule rolled_back_files [OF f _ _ m4(3)])
    show "\<forall>n \<in> head_files h. alookup (entries w4) n = None"
    proof
      fix n assume n: "n \<in> head_files h"
      have "alookup (entries w3) n = None" by (rule still_gone [OF 3(2,4) bspec [OF 2(4) n]])
      moreover have "n \<notin> ?V" using n head_files_V [OF P(6)] by blast
      ultimately show "alookup (entries w4) n = None" using same by simp
    qed
    show "\<forall>n \<in> disk_files snap. alookup (entries w4) n = None"
    proof
      fix n assume n: "n \<in> disk_files snap"
      then have "n \<notin> ?V" using head_files_V [OF P(5)] by blast
      then show "alookup (entries w4) n = None" using same bspec [OF 3(4) n] by simp
    qed
    have "snap @ ''.meta.tmp'' \<notin> ?V" using head_files_V [OF P(5)] by blast
    then show "alookup (entries w) (snap @ ''.meta.tmp'') = None \<longrightarrow> alookup (entries w4) (snap @ ''.meta.tmp'') = None"
      using same still_gone [OF 3(2,4) still_gone [OF 2(2,4) b(5)]] by simp
    show "alookup (entries w) volumeMetaData \<noteq> None" using rwfD(4) [OF P(2)] by auto
  qed
  then show thesis using that [of w4 H] 2(1) 3(1) 4 H m4(1,2) restored_volume [OF pre nh v f m4(4)] store_frame [OF f]
    by (simp add: CombineErrors_def)
qed

theorem snapshot_one_fault:
  assumes pre: "snap_pre im (w, r) ns h snap p" and rem: "getRemainSnapshotCounts r = Some k" "0 < k"
    and snap: "snap = GenerateSnapshotDiskName name" and v: "dir_volume (entries w) ns ks" and one: "one_fault w"
    and new: "alookup (diskData r) h = None" "alookup (diskChildrenMap r) snap = None"
    and err: "createDisk im name userCreated created lbls sz (w, r) = Some ((w', r'), Some e)"
  shows "r' = r\<lparr>heap := heap r'\<rparr> \<and> dir_volume (entries w') ns ks \<and> no_new w w' \<and>
     (\<forall>k < length (store w). store w' ! k = store w ! k)"
proof -
  note P = snap_preD [OF pre]
  note eq = createDisk_eq [OF pre rem snap, of userCreated created lbls sz]
  define d where "d = taken_disk userCreated created lbls (heap r ! p)"
  show ?thesis
  proof (rule body_cases [OF pre d_def, where sz = sz])
    fix w1 x
    assume b: "createDisk_body im snap userCreated created lbls sz (w, r) = Some ((w1, r), [], Some x)" "frame (head_files h) w w1"
      "one_fault w \<longrightarrow> shrunk (head_files h) w w1 \<and> one_fault w1" "os_exists h w \<longrightarrow> w1 = w"
    have "dir_volume (entries w1) ns ks"
      using early_volume [OF pre _ v b(2)] v b(4) by (cases "os_exists h w") auto
    then show ?thesis using eq [OF b(1)] err b(3) one store_frame [OF b(2)] no_new_shrunk by auto
  next
    fix w1 w2 rb1 x
    assume b: "createDisk_body im snap userCreated created lbls sz (w, r) = Some ((w2, r), [rb1], Some x)"
        "\<not> os_exists h w" "frame (head_files h) w w1" "frame (disk_files snap) w1 w2" "cleans (head_files h) rb1"
        "one_fault w \<longrightarrow> shrunk (disk_files snap) w1 w2 \<and> quiet_os w2"
    have q: "shrunk (disk_files snap) w1 w2" "quiet_os w2" using b(6) one by auto
    obtain w3 where 3: "rb1 (w2, r) = ((w3, r), None)" "frame (head_files h) w2 w3" "\<forall>n \<in> head_files h. alookup (entries w3) n = None"
      by (rule quiet_clean [OF b(5) q(2)])
    have f: "frame (snap_files h snap) w w3"
      by (rule frame_trans [OF frame_mono [OF b(3)] frame_trans [OF frame_mono [OF b(4)] frame_mono [OF 3(2)]]]) auto
    have "dir_volume (entries w3) ns ks" by (rule early_volume [OF pre _ v f]) (use b(2) in auto)
    then show ?thesis using eq [OF b(1)] err store_frame [OF f] rolled_back_link [OF b(3) q(1) 3(2,3)] 3(1) by auto
  next
    fix w1 rb1 rb2 x
    assume b: "createDisk_body im snap userCreated created lbls sz (w, r) = Some ((w1, r), [rb1, rb2], Some x)"
        "\<not> os_exists h w" "frame (snap_files h snap) w w1" "cleans (head_files h) rb1" "cleans (disk_files snap) rb2"
        "one_fault w \<longrightarrow> quiet_os w1 \<and> alookup (entries w1) (volumeMetaData @ ''.tmp'') = None"
        "alookup (entries w1) (snap @ ''.meta.tmp'') = alookup (entries w) (snap @ ''.meta.tmp'')"
    obtain w2 where "run_rollbacks [rb1, rb2] (w1, r) None = ((w2, r), None)" "dir_volume (entries w2) ns ks" "no_new w w2"
      "\<forall>k < length (store w). store w2 ! k = store w ! k"
      by (rule rollback_vol [OF pre b(2) v b(3-5) _ _ b(7)]) (use b(6) one in auto)
    then show ?thesis using eq [OF b(1)] err by auto
  next
    fix w1 rb1 rb2 x
    assume b: "createDisk_body im snap userCreated created lbls sz (w, r) =
          Some ((w1, taken h snap p d r), [rb1, rb2, restore_volume_meta (Some (on_world (os_RemoveAll (volumeMetaData @ ''.tmp'')))),
             forget_disks h snap], Some x)"
        "\<not> os_exists h w" "committed im h snap created sz (w, r) w1" "cleans (head_files h) rb1" "cleans (disk_files snap) rb2"
        "one_fault w \<longrightarrow> quiet_os w1 \<and> alookup (entries w1) (snap @ ''.meta.tmp'') = None"
    obtain w2 H where "run_rollbacks [rb1, rb2, restore_volume_meta (Some (on_world (os_RemoveAll (volumeMetaData @ ''.tmp'')))),
       forget_disks h snap] (w1, taken h snap p d r) None = ((w2, r\<lparr>heap := H\<rparr>), None)"
      "dir_volume (entries w2) ns ks" "no_new w w2" "\<forall>k < length (store w). store w2 ! k = store w ! k"
      by (rule rollback_meta [OF pre b(2) v b(3-5) _ _ new]) (use b(6) one in auto)
    then show ?thesis using eq [OF b(1)] err by auto
  next
    fix w1 rbs
    assume "createDisk_body im snap userCreated created lbls sz (w, r) =
          Some ((w1, after_snapshot h snap p d sz (length (store w)) r), rbs, None)"
    then show ?thesis using eq err by auto
  qed
qed

end
