(* ===== verification/ReplicaTaken.thy ===== *)
theory ReplicaTaken
  imports ReplicaRollback DiffDiskLayers
begin

text \<open>
  A snapshot that succeeds: the replica is well formed again, with a new head on top of the snapshot.
\<close>

lemma after_snapshot_sel:
  "info (after_snapshot h snap p d sz k r) = new_info h snap sz r"
  "activeDiskData (after_snapshot h snap p d sz k r) = activeDiskData r @ [Some (length (heap r))]"
  "files (volume (after_snapshot h snap p d sz k r)) = files (volume r) @ [Some k]"
  "base (after_snapshot h snap p d sz k r) = base r"
  "diskData (after_snapshot h snap p d sz k r) = adelete (aupdate (aupdate (diskData r) h (length (heap r))) snap p) (old_head r)"
  "p < length (heap r) \<Longrightarrow>
     heap (after_snapshot h snap p d sz k r) = (heap r @ [new_disk h snap (dCreated d)])[p := d\<lparr>dName := snap\<rparr>]"
  by (simp_all add: after_snapshot_def renamed_def taken_def Let_def base_def new_info_def)

lemma distinct_values:
  assumes "adistinct m"
  shows "distinct (map snd m) \<longleftrightarrow> (\<forall>a b v. alookup m a = Some v \<longrightarrow> alookup m b = Some v \<longrightarrow> a = b)"
proof -
  have "distinct m" using assms by (simp add: adistinct_def distinct_map)
  then have "distinct (map snd m) \<longleftrightarrow> inj_on snd (set m)" by (simp add: distinct_map)
  also have "\<dots> \<longleftrightarrow> (\<forall>a b v. (a, v) \<in> set m \<longrightarrow> (b, v) \<in> set m \<longrightarrow> a = b)" by (fastforce simp: inj_on_def)
  finally show ?thesis by (simp add: alookup_mem_iff [OF assms])
qed

lemma ptrs_ok_alt:
  "ptrs_ok r \<longleftrightarrow> adistinct (diskData r) \<and>
     (\<forall>a b q. alookup (diskData r) a = Some q \<longrightarrow> alookup (diskData r) b = Some q \<longrightarrow> a = b) \<and>
     (\<forall>a q. alookup (diskData r) a = Some q \<longrightarrow> q < length (heap r))"
proof (cases "adistinct (diskData r)")
  case True
  have "(\<forall>(a, q) \<in> set (diskData r). q < length (heap r)) \<longleftrightarrow> (\<forall>a q. alookup (diskData r) a = Some q \<longrightarrow> q < length (heap r))"
    by (auto simp: alookup_mem_iff [OF True, symmetric])
  then show ?thesis unfolding ptrs_ok_def distinct_values [OF True] by simp
qed (simp add: ptrs_ok_def)

lemma after_snapshot_ptrs:
  assumes pre: "snap_pre im (w, r) ns h snap p"
  shows "ptrs_ok (after_snapshot h snap p d sz k r)"
proof -
  note P = snap_preD [OF pre]
  let ?D = "diskData (after_snapshot h snap p d sz k r)"
  have ok: "adistinct (diskData r)"
    and inj: "\<And>a b q. alookup (diskData r) a = Some q \<Longrightarrow> alookup (diskData r) b = Some q \<Longrightarrow> a = b"
    and lt: "\<And>a q. alookup (diskData r) a = Some q \<Longrightarrow> q < length (heap r)"
    using rwfD(9) [OF P(2)] by (auto simp: ptrs_ok_alt)
  have D: "alookup ?D a = (if a = old_head r then None else if a = snap then Some p else if a = h then Some (length (heap r)) else alookup (diskData r) a)" for a
    by (simp add: after_snapshot_sel(5))
  have "a = b" if "alookup ?D a = Some q" "alookup ?D b = Some q" for a b q
  proof (rule ccontr)
    assume ne: "a \<noteq> b"
    have n: "alookup (diskData r) c \<noteq> Some p" if "c \<noteq> old_head r" for c using inj [OF _ P(12)] that by blast
    have l: "alookup (diskData r) c \<noteq> Some (length (heap r))" for c using lt by blast
    show False using that ne n l inj [of a q b] P(13) unfolding D by (auto split: if_splits)
  qed
  moreover have "q < length (heap (after_snapshot h snap p d sz k r))" if "alookup ?D a = Some q" for a q
    using that lt [of a q] P(13) unfolding D by (auto simp: after_snapshot_sel(6) split: if_splits)
  moreover have "adistinct ?D" using ok by (simp add: after_snapshot_sel(5))
  ultimately show ?thesis unfolding ptrs_ok_alt by blast
qed

lemma after_snapshot_stored:
  assumes pre: "snap_pre im (w, r) ns h snap p" and nh: "\<not> os_exists h w" and c: "committed im h snap created sz (w, r) w1"
    and d: "d = taken_disk userCreated created lbls (heap r ! p)" "alookup (entries w1) (snap @ ''.meta'') = Some (DiskJson d)"
    and m: "m \<in> set (h # snap # tl ns)"
  shows "disk_stored w1 (after_snapshot h snap p d sz (length (store w)) r) m"
proof -
  note P = snap_preD [OF pre] and c' = c [unfolded committed_def, simplified]
  let ?r = "after_snapshot h snap p d sz (length (store w)) r"
  have old: "h \<noteq> old_head r" "snap \<noteq> old_head r" using chain_outside(1) [OF pre nh P(17)] P(16) [OF P(17)] by auto
  obtain n ns' where ns: "ns = n # ns'" using rwfD(1) [OF P(2)] by (cases ns) auto
  have n: "n = old_head r" "distinct ns" using rwfD(10) [OF P(2)] ns dir_chain_distinct [OF rwfD(3) [OF P(2)]] by auto
  have len: "length (store w1) = Suc (length (store w))" using c' by simp
  note D = after_snapshot_sel(5,6)
  consider "m = h" | "m = snap" | "m \<in> set ns'" using m ns by auto
  then show ?thesis
  proof cases
    case 1
    have "dCreated d = created" "new_disk h snap created = (new_disk h snap created)\<lparr>dName := h\<rparr>"
      by (simp_all add: d(1) taken_disk_def new_disk_def)
    then show ?thesis using 1 P(6,7,13) c' old len by (simp add: disk_stored_def D nth_append)
  next
    case 2
    obtain k where "alookup (entries w) (old_head r) = Some (Image k)" "k < length (store w)"
      using rwfD(2) [OF P(2,17)] by (auto simp: disk_stored_def)
    then show ?thesis using 2 P(5,13) c' old len d(2) by (simp add: disk_stored_def D)
  next
    case 3
    then have mn: "m \<in> set ns" "m \<noteq> old_head r" "m \<noteq> h" using ns n chain_outside(1) [OF pre nh, of m] by auto
    obtain q e k where q: "alookup (diskData r) m = Some q" "q < length (heap r)" "alookup (entries w) (m @ ''.meta'') = Some (DiskJson e)"
      "heap r ! q = e\<lparr>dName := m\<rparr>" "alookup (entries w) m = Some (Image k)" "k < length (store w)" "good_name m"
      using rwfD(2) [OF P(2) mn(1)] by (auto simp: disk_stored_def)
    have "q \<noteq> p" using rwfD(9) [OF P(2)] q(1) P(12) mn(2) unfolding ptrs_ok_alt by blast
    moreover have fr: "frame (snap_files h snap \<union> {volumeMetaData}) w w1" using c' by simp
    moreover note frame_lookup [OF fr chain_outside(2) [OF pre nh mn(1)]] frame_lookup [OF fr chain_outside(3) [OF pre nh mn(1)]]
    ultimately show ?thesis using q mn P(13) P(16) [OF mn(1)] len by (auto simp: disk_stored_def D nth_append)
  qed
qed

lemma after_snapshot_rwf:
  assumes pre: "snap_pre im (w, r) ns h snap p" and nh: "\<not> os_exists h w" and c: "committed im h snap created sz (w, r) w1"
    and d: "d = taken_disk userCreated created lbls (heap r ! p)" "alookup (entries w1) (snap @ ''.meta'') = Some (DiskJson d)"
  shows "rwf (w1, after_snapshot h snap p d sz (length (store w)) r) (h # snap # tl ns)"
proof -
  note P = snap_preD [OF pre] and c' = c [unfolded committed_def, simplified]
  let ?r = "after_snapshot h snap p d sz (length (store w)) r"
  obtain ks where v: "dir_volume (entries w) ns ks" using rwf_volume [OF P(2)] by blast
  obtain n ns' where ns: "ns = n # ns'" using rwfD(1) [OF P(2)] by (cases ns) auto
  have n: "n = old_head r" "n \<notin> set ns'" using rwfD(10) [OF P(2)] ns dir_chain_distinct [OF rwfD(3) [OF P(2)]] by auto
  have fr: "frame (snap_files h snap \<union> {volumeMetaData}) w w1" using c' by simp
  have out: "m \<noteq> h \<and> m \<noteq> snap \<and> alookup (entries w1) m = alookup (entries w) m" if "m \<in> set ns" for m
    using chain_outside(1) [OF pre nh that] P(16) [OF that] frame_lookup [OF fr chain_outside(2) [OF pre nh that]] by simp
  obtain i where i: "alookup (entries w1) volumeMetaData = Some (InfoJson i)" "iHead i = h" "iSize i = sz"
      "dir_chain (entries w1) (iHead i) (h # snap # ns')"
    using committed_volume [OF c pre v nh] c' ns by (auto simp: dir_volume_def json_info_def)
  have act: "map (alookup (diskData ?r)) (rev (h # snap # ns')) = map (alookup (diskData r)) (rev ns) @ [Some (length (heap r))]"
    using out ns n P(7,12) by (auto simp: after_snapshot_sel(5))
  have fl: "map (image_of (entries w1)) (rev (h # snap # ns')) = map (image_of (entries w)) (rev ns) @ [Some (length (store w))]"
    using out ns n c' by (auto simp: image_of_def)
  show ?thesis
    using after_snapshot_stored [OF pre nh c d] i act fl rwfD(5-8) [OF P(2)] ns after_snapshot_ptrs [OF pre]
    by (simp add: rwf_def after_snapshot_sel new_info_def)
qed

text \<open>Removing the files of the old head does not touch the new chain.\<close>

lemma rwf_frame:
  assumes r: "rwf (w, r) ns" and f: "frame X w w'" "volumeMetaData \<notin> X" "\<And>m. m \<in> set ns \<Longrightarrow> m \<notin> X \<and> m @ ''.meta'' \<notin> X"
  shows "rwf (w', r) ns"
proof -
  have eq: "alookup (entries w') m = alookup (entries w) m \<and> alookup (entries w') (m @ ''.meta'') = alookup (entries w) (m @ ''.meta'')"
    if "m \<in> set ns" for m using frame_lookup [OF f(1)] f(3) [OF that] by simp
  have "dir_chain (entries w') (iHead (info r)) ns" by (rule dir_chain_cong [OF rwfD(3) [OF r]]) (rule eq)
  moreover have "map (image_of (entries w')) (rev ns) = map (image_of (entries w)) (rev ns)"
    using eq by (simp add: image_of_def)
  moreover have "disk_stored w' r n" if "n \<in> set ns" for n
    using rwfD(2) [OF r that] eq [OF that] f(1) by (fastforce simp: disk_stored_def frame_def)
  ultimately show ?thesis using r frame_lookup [OF f(1,2)] by (simp add: rwf_def)
qed

text \<open>The handles of the open files point into the store.\<close>

definition handles_ok :: "'f rs \<Rightarrow> bool" where
  "handles_ok = (\<lambda>(w, r). \<forall>k. Some k \<in> set (files (volume r)) \<longrightarrow> k < length (store w))"

lemma opened_snapshot:
  assumes "handles_ok (w, r)" "store w' = store w @ [f]"
    "volume r' = (volume r)\<lparr>files := files (volume r) @ [Some (length (store w))]\<rparr>"
  shows "opened w' (volume r') = new_head (opened w (volume r)) f"
proof -
  have "map_option (\<lambda>h. store w' ! h) x = map_option (\<lambda>h. store w ! h) x" if "x \<in> set (files (volume r))" for x
    using that assms(1,2) by (cases x rule: option.exhaust) (auto simp: handles_ok_def nth_append)
  then show ?thesis using assms(2,3) by (simp add: opened_def new_head_def)
qed

lemma createDisk_ok:
  assumes pre: "snap_pre im (w, r) ns h snap p" and rem: "getRemainSnapshotCounts r = Some k" "0 < k"
    and snap: "snap = GenerateSnapshotDiskName name" and q: "quiet_os w" and nh: "\<not> os_exists h w"
  obtains w' r' where "createDisk im name userCreated created lbls sz (w, r) = Some ((w', r'), None)"
    "rwf (w', r') (h # snap # tl ns)" "store w' = store w @ [im_truncate im (im_new im) sz]" "quiet_os w'" "info r' = new_info h snap sz r"
    "volume r' = (volume r)\<lparr>files := files (volume r) @ [Some (length (store w))]\<rparr>"
proof -
  note P = snap_preD [OF pre]
  note eq = createDisk_eq [OF pre rem snap, of userCreated created lbls sz]
  have nf: "\<not> (\<exists>k. faults w k)" using q by (simp add: quiet_os_def)
  define d where "d = taken_disk userCreated created lbls (heap r ! p)"
  show ?thesis
  proof (rule body_cases [OF pre d_def, where sz = sz])
    fix w1 rbs
    let ?r = "after_snapshot h snap p d sz (length (store w)) r"
    assume b: "createDisk_body im snap userCreated created lbls sz (w, r) = Some ((w1, ?r), rbs, None)"
        "committed im h snap created sz (w, r) w1" "alookup (entries w1) (snap @ ''.meta'') = Some (DiskJson d)"
        "quiet_os w \<longrightarrow> quiet_os w1"
    obtain w2 e2 where 2: "rmDisk (old_head r) w1 = (w2, e2)" by (metis surj_pair)
    note f = rmDisk_frame [OF 2]
    have "rwf (w2, ?r) (h # snap # tl ns)"
      by (rule rwf_frame [OF after_snapshot_rwf [OF pre nh b(2) d_def b(3)] f(1) new_chain_outside [OF pre nh]])
    moreover have "volume ?r = (volume r)\<lparr>files := files (volume r) @ [Some (length (store w))]\<rparr>"
      by (simp add: after_snapshot_def renamed_def taken_def Let_def)
    ultimately show thesis
      using that [of w2 ?r] eq [OF b(1)] 2 f(2,4) b(2,4) q P(10) by (simp add: committed_def after_snapshot_sel)
  qed (use nf nh in blast)+
qed

end
