(* ===== verification/ReplicaReopen.thy ===== *)
theory ReplicaReopen
  imports ReplicaTaken DiffDiskCache
begin

text \<open>
  Opening a replica: \<open>construct\<close> on a directory finds the chain of the directory and the images of its
  disks, whatever else the directory holds.
\<close>

section \<open>Reading the metadata\<close>

text \<open>Every metadata file of a disk can be decoded.\<close>

definition readable :: "(string \<times> content) list \<Rightarrow> bool" where
  "readable es \<longleftrightarrow> (\<forall>n c. alookup es n = Some c \<longrightarrow> HasSuffix n ''.meta'' \<longrightarrow> n \<noteq> volumeMetaData \<longrightarrow> (\<exists>d. c = DiskJson d))"

text \<open>The disks in memory are those of the directory.\<close>

definition loaded_disks :: "'f world \<Rightarrow> replica \<Rightarrow> bool" where
  "loaded_disks w r \<longleftrightarrow> ptrs_ok r \<and>
     (\<forall>n p. alookup (diskData r) n = Some p \<longrightarrow>
        (\<exists>d. alookup (entries w) (n @ ''.meta'') = Some (DiskJson d) \<and> heap r ! p = d\<lparr>dName := n\<rparr>))"

text \<open>What reading disks leaves alone.\<close>

definition same_rest :: "replica \<Rightarrow> replica \<Rightarrow> bool" where
  "same_rest r r' \<longleftrightarrow> activeDiskData r' = activeDiskData r \<and> files (volume r') = files (volume r) \<and>
     readOnly r' = readOnly r \<and> revisionCounterDisabled r' = revisionCounterDisabled r \<and> location (volume r') = location (volume r) \<and>
     snapshotMaxCount r' = snapshotMaxCount r"

lemma readDiskData_ok:
  assumes "loaded_disks w r" "alookup (entries w) (n @ ''.meta'') = Some (DiskJson d)"
  obtains r' where "readDiskData (n @ ''.meta'') w r = (r', None)" "loaded_disks w r'" "same_rest r r'" "info r' = info r" "volume r' = volume r"
    "\<forall>m. alookup (diskData r') m = None \<longleftrightarrow> m \<noteq> n \<and> alookup (diskData r) m = None"
proof -
  define r1 where "r1 = r\<lparr>heap := heap r @ [d\<lparr>dName := n\<rparr>], diskData := aupdate (diskData r) n (length (heap r))\<rparr>"
  define r' where "r' = (if dParent d \<noteq> [] then addChildDisk (dParent d) n r1 else r1)"
  have s: "diskData r' = aupdate (diskData r) n (length (heap r))" "heap r' = heap r @ [d\<lparr>dName := n\<rparr>]" "info r' = info r" "volume r' = volume r" "same_rest r r'"
    by (auto simp: r'_def r1_def same_rest_def addChildDisk_def Let_def)
  have ok: "adistinct (diskData r)"
    and inj: "\<And>a b q. alookup (diskData r) a = Some q \<Longrightarrow> alookup (diskData r) b = Some q \<Longrightarrow> a = b"
    and lt: "\<And>a q. alookup (diskData r) a = Some q \<Longrightarrow> q < length (heap r)"
    using assms(1) by (auto simp: ptrs_ok_alt loaded_disks_def)
  have l: "alookup (diskData r) a \<noteq> Some (length (heap r))" for a using lt by blast
  have "ptrs_ok r'"
    unfolding ptrs_ok_alt s
  proof (intro conjI allI impI)
    fix a b q assume "alookup (aupdate (diskData r) n (length (heap r))) a = Some q" "alookup (aupdate (diskData r) n (length (heap r))) b = Some q"
    then show "a = b" using l inj [of a q b] by (auto split: if_splits)
  next
    fix a q assume "alookup (aupdate (diskData r) n (length (heap r))) a = Some q"
    then show "q < length (heap r @ [d\<lparr>dName := n\<rparr>])" using lt [of a q] by (auto split: if_splits)
  qed (use ok in simp)
  moreover have "\<exists>e. alookup (entries w) (m @ ''.meta'') = Some (DiskJson e) \<and> heap r' ! p = e\<lparr>dName := m\<rparr>"
    if "alookup (diskData r') m = Some p" for m p
  proof (cases "m = n")
    case True
    then show ?thesis using that assms(2) by (auto simp: s)
  next
    case False
    then have m: "alookup (diskData r) m = Some p" using that by (simp add: s)
    then show ?thesis using lt [OF m] assms(1) by (auto simp: s loaded_disks_def nth_append)
  qed
  ultimately have "loaded_disks w r'" by (simp add: loaded_disks_def)
  moreover have "readDiskData (n @ ''.meta'') w r = (r', None)" using assms(2) by (simp add: readDiskData_def r'_def r1_def Let_def)
  ultimately show thesis using that [of r'] s by simp
qed

lemma HasSuffix_meta: "HasSuffix f ''.meta'' \<longleftrightarrow> (\<exists>n. f = n @ ''.meta'')"
  using HasSuffix_obtain HasSuffix_append by blast

definition metadata_read :: "'f world \<Rightarrow> Info \<Rightarrow> string list \<Rightarrow> replica \<Rightarrow> replica \<Rightarrow> bool" where
  "metadata_read w i fs r r' \<longleftrightarrow> loaded_disks w r' \<and> same_rest r r' \<and>
     (\<forall>m. alookup (diskData r') m = None \<longrightarrow>
        alookup (diskData r) m = None \<and> (m @ ''.meta'' \<in> set fs \<longrightarrow> m @ ''.meta'' = volumeMetaData)) \<and>
     info r' = (if volumeMetaData \<in> set fs then i\<lparr>iBackingFile := iBackingFile (info r)\<rparr> else info r) \<and>
     (if volumeMetaData \<in> set fs then sectorSize (volume r') = 4096 \<and> dsize (volume r') = iSize i else volume r' = volume r)"

lemma readMetadata_loop_ok:
  assumes w: "readable (entries w)" "alookup (entries w) volumeMetaData = Some (InfoJson i)"
  shows "loaded_disks w r \<Longrightarrow> \<forall>f \<in> set fs. alookup (entries w) f \<noteq> None \<Longrightarrow>
    \<exists>r'. readMetadata_loop fs w r = (r', None) \<and> metadata_read w i fs r r'"
proof (induction fs arbitrary: r)
  case Nil
  then show ?case by (simp add: same_rest_def metadata_read_def)
next
  case (Cons f fs)
  have sub: "\<forall>f \<in> set fs. alookup (entries w) f \<noteq> None" using Cons.prems(2) by simp
  consider "f = volumeMetaData" | n where "f \<noteq> volumeMetaData" "f = n @ ''.meta''" | "f \<noteq> volumeMetaData" "\<not> HasSuffix f ''.meta''"
    unfolding HasSuffix_meta by blast
  then show ?case
  proof cases
    case 1
    define r1 where "r1 = r\<lparr>info := i\<lparr>iBackingFile := iBackingFile (info r)\<rparr>, volume := (volume r)\<lparr>sectorSize := 4096, dsize := iSize i\<rparr>\<rparr>"
    have "loaded_disks w r1" using Cons.prems(1) by (simp add: loaded_disks_def ptrs_ok_def r1_def)
    from Cons.IH [OF this sub] obtain r' where "readMetadata_loop fs w r1 = (r', None)" "metadata_read w i fs r1 r'" by blast
    then show ?thesis using 1 w(2) by (auto simp: metadata_read_def same_rest_def r1_def split: if_splits)
  next
    case 2
    then obtain d where d: "alookup (entries w) (n @ ''.meta'') = Some (DiskJson d)"
      using w(1) Cons.prems(2) unfolding readable_def HasSuffix_meta by fastforce
    obtain r1 where r1: "readDiskData (n @ ''.meta'') w r = (r1, None)" "loaded_disks w r1" "same_rest r r1" "info r1 = info r" "volume r1 = volume r"
      "\<forall>m. alookup (diskData r1) m = None \<longleftrightarrow> m \<noteq> n \<and> alookup (diskData r) m = None"
      by (rule readDiskData_ok [OF Cons.prems(1) d])
    from Cons.IH [OF r1(2) sub] obtain r' where r': "readMetadata_loop fs w r1 = (r', None)" "metadata_read w i fs r1 r'" by blast
    then show ?thesis using 2 r1 by (auto simp: metadata_read_def same_rest_def split: if_splits)
  next
    case 3
    from Cons.IH [OF Cons.prems(1) sub] obtain r' where r': "readMetadata_loop fs w r = (r', None)" "metadata_read w i fs r r'" by blast
    moreover have "f \<noteq> m @ ''.meta''" for m using 3(2) unfolding HasSuffix_meta by blast
    ultimately show ?thesis using 3 by (auto simp: metadata_read_def)
  qed
qed

section \<open>Opening the files\<close>

lemma os_open_quiet:
  assumes "opens_images im" "quiet_os w" "image_of (entries w) n = Some k"
  shows "im_open im n False w = (w, Inr k)"
proof -
  have a: "alookup (entries w) n = Some (Image k)" using assms(3) by (auto simp: image_of_def split: option.splits content.splits)
  then have "im_open im n False w = os_open im n False w" using assms(1) by (simp add: opens_images_def)
  moreover have "next_call w = (False, w)" using assms(2) by (simp add: next_call_def quiet_os_def)
  ultimately show ?thesis using a by (simp add: os_open_def)
qed

lemma open_files_ok:
  assumes "opens_images im" "quiet_os w"
  shows "\<forall>n \<in> set names. image_of (entries w) n \<noteq> None \<and> alookup (diskData r) n \<noteq> None \<Longrightarrow>
    open_files im names (w, r) =
      Some ((w, r\<lparr>volume := (volume r)\<lparr>files := files (volume r) @ map (image_of (entries w)) names\<rparr>,
                  activeDiskData := activeDiskData r @ map (alookup (diskData r)) names\<rparr>), None)"
proof (induction names arbitrary: r)
  case (Cons n names)
  then obtain k p where k: "image_of (entries w) n = Some k" "alookup (diskData r) n = Some p" by auto
  let ?r = "r\<lparr>volume := (volume r)\<lparr>files := files (volume r) @ [Some k]\<rparr>, activeDiskData := activeDiskData r @ [Some p]\<rparr>"
  have "open_files im (n # names) (w, r) = open_files im names (w, ?r)"
    using os_open_quiet [OF assms k(1)] k(2) by simp
  then show ?case using Cons.IH [of ?r] Cons.prems k by simp
qed simp

text \<open>The directory of a replica: the chain, with an image and metadata for every disk.\<close>

definition good_dir :: "'f world \<Rightarrow> Info \<Rightarrow> string list \<Rightarrow> nat list \<Rightarrow> bool" where
  "good_dir w i ns ks \<longleftrightarrow> readable (entries w) \<and> alookup (entries w) volumeMetaData = Some (InfoJson i) \<and>
     ns \<noteq> [] \<and> length ns \<le> 250 \<and> (\<forall>n \<in> set ns. good_name n) \<and> (\<forall>k \<in> set ks. k < length (store w)) \<and>
     dir_chain (entries w) (iHead i) ns \<and> map (image_of (entries w)) ns = map Some ks"

definition open_volume :: "int \<Rightarrow> int \<Rightarrow> nat list \<Rightarrow> nat diffDisk" where
  "open_volume sz argSize ks =
     \<lparr> location = replicate (nat (if argSize smod 4096 \<noteq> 0 then sz sdiv 4096 + 1 else sz sdiv 4096)) 0,
       files = None # map Some (rev ks), sectorSize = 4096, dsize = sz \<rparr>"

definition plain_args :: "open_args \<Rightarrow> bool" where
  "plain_args a \<longleftrightarrow> oa_sectorSize a \<noteq> 0 \<and> oa_size a smod oa_sectorSize a = 0 \<and> oa_head a = [] \<and> oa_backing a = None \<and>
     oa_disableRevCounter a \<and> oa_state a \<noteq> ReplicaStateClosed"

lemma readMetadata_ok:
  assumes g: "good_dir w i ns ks" and r: "iBackingFile (info r) = None"
  obtains r' where "readMetadata w r = (r', True, None)" "\<forall>n \<in> set ns. disk_stored w r' n" "ptrs_ok r'" "same_rest r r'"
    "info r' = i\<lparr>iBackingFile := None\<rparr>" "sectorSize (volume r') = 4096" "dsize (volume r') = iSize i"
proof -
  let ?r = "r\<lparr>diskData := []\<rparr>"
  have G: "readable (entries w)" "alookup (entries w) volumeMetaData = Some (InfoJson i)" using g by (auto simp: good_dir_def)
  have "loaded_disks w ?r" by (simp add: loaded_disks_def ptrs_ok_def)
  moreover have in_dir: "f \<in> set (os_ReadDir w) \<longleftrightarrow> alookup (entries w) f \<noteq> None" for f
    by (simp add: os_ReadDir_def alookup_None_iff)
  ultimately obtain r' where r': "readMetadata_loop (os_ReadDir w) w ?r = (r', None)" "metadata_read w i (os_ReadDir w) ?r r'"
    using readMetadata_loop_ok [OF G, of ?r "os_ReadDir w"] by auto
  have st: "disk_stored w r' n" if n: "n \<in> set ns" for n
  proof -
    have gn: "good_name n" using g n by (simp add: good_dir_def)
    obtain k d where k: "alookup (entries w) n = Some (Image k)" "alookup (entries w) (n @ ''.meta'') = Some (DiskJson d)"
      using g dir_chain_exists [of "entries w" "iHead i" ns n] n by (auto simp: good_dir_def)
    obtain p where p: "alookup (diskData r') n = Some p"
      using r'(2) in_dir [of "n @ ''.meta''"] k(2) good_disjoint(6) [OF gn] by (auto simp: metadata_read_def)
    have "image_of (entries w) n \<in> Some ` set ks" using g n by (metis good_dir_def image_eqI set_map)
    then have "k < length (store w)" using g k(1) by (auto simp: image_of_def good_dir_def)
    moreover have ld: "loaded_disks w r'" using r'(2) by (simp add: metadata_read_def)
    then have "heap r' ! p = d\<lparr>dName := n\<rparr>" "p < length (heap r')"
      using p k(2) unfolding loaded_disks_def ptrs_ok_alt by fastforce+
    ultimately show ?thesis using p k gn by (auto simp: disk_stored_def)
  qed
  have "ns \<noteq> []" using g by (simp add: good_dir_def)
  then have ne: "diskData r' \<noteq> []" using st [of "hd ns"] by (auto simp: disk_stored_def)
  have vol: "volumeMetaData \<in> set (os_ReadDir w)" using in_dir G(2) by simp
  show thesis
    by (rule that [of r'])
      (use r' ne st vol r in \<open>auto simp: readMetadata_def metadata_read_def same_rest_def loaded_disks_def\<close>)
qed

lemma same_restD:
  "same_rest r r' \<Longrightarrow> activeDiskData r' = activeDiskData r" "same_rest r r' \<Longrightarrow> readOnly r' = readOnly r"
  "same_rest r r' \<Longrightarrow> revisionCounterDisabled r' = revisionCounterDisabled r"
  by (simp_all add: same_rest_def)

lemma disk_stored_cong:
  "diskData r' = diskData r \<Longrightarrow> heap r' = heap r \<Longrightarrow> disk_stored w r' n = disk_stored w r n"
  by (simp add: disk_stored_def)

lemma openLiveChain_ok:
  assumes g: "good_dir w i ns ks" "opens_images im" "quiet_os w" "\<forall>n \<in> set ns. disk_stored w r n" "iHead (info r) = iHead i"
  shows "openLiveChain im (w, r) =
    Some ((w, r\<lparr>volume := (volume r)\<lparr>files := files (volume r) @ map Some (rev ks)\<rparr>,
                activeDiskData := activeDiskData r @ map (alookup (diskData r)) (rev ns)\<rparr>), None)"
proof -
  have ch: "Chain r = Some (Inr ns)"
    using chain_loop_eq [of ns w r "iHead (info r)" "[]"] assms by (simp add: Chain_def good_dir_def)
  have k: "map (image_of (entries w)) (rev ns) = map Some (rev ks)" "length ns \<le> 250"
    using g(1) by (auto simp: good_dir_def rev_map [symmetric])
  have "\<forall>n \<in> set (rev ns). image_of (entries w) n \<noteq> None \<and> alookup (diskData r) n \<noteq> None"
    using assms(4) by (fastforce simp: disk_stored_def image_of_def)
  from open_files_ok [OF g(2,3) this] show ?thesis
    using ch k by (simp add: openLiveChain_def MaximumTotalSnapshotCount_def)
qed

text \<open>Rewriting the metadata of the volume with the same head keeps the replica well formed.\<close>

lemma rwf_rewritten:
  assumes r: "rwf (w, r) ns" and f: "frame {volumeMetaData, volumeMetaData @ ''.tmp''} w w'"
    and m: "alookup (entries w') volumeMetaData = Some (InfoJson j)" "iHead j = iHead (info r)" "iSize j = iSize (info r)"
    and r': "r' = r\<lparr>info := i'\<rparr>" "iHead i' = iHead (info r)" "iSize i' = iSize (info r)" "iBackingFile i' = iBackingFile (info r)"
  shows "rwf (w', r') ns"
proof -
  have eq: "alookup (entries w') n = alookup (entries w) n \<and> alookup (entries w') (n @ ''.meta'') = alookup (entries w) (n @ ''.meta'')"
    if "n \<in> set ns" for n
  proof -
    have "good_name n" using rwfD(2) [OF r that] by (simp add: disk_stored_def)
    then show ?thesis using frame_lookup [OF f] good_disjoint(4-7) [of n] by simp
  qed
  have "dir_chain (entries w') (iHead (info r)) ns" by (rule dir_chain_cong [OF rwfD(3) [OF r]]) (rule eq)
  moreover have "map (image_of (entries w')) (rev ns) = map (image_of (entries w)) (rev ns)"
    using eq by (simp add: image_of_def)
  moreover have "disk_stored w' r' n" if "n \<in> set ns" for n
    using rwfD(2) [OF r that] eq [OF that] f by (fastforce simp: disk_stored_def frame_def r'(1))
  ultimately show ?thesis using r m r' by (simp add: rwf_def base_def ptrs_ok_def)
qed

theorem construct_ok:
  assumes g: "good_dir w i ns ks" and im: "opens_images im" "\<And>d. im_fiemap im (DiskJson d) = None" and q: "quiet_os w"
    and a: "plain_args a" "0 \<le> iSize i"
  obtains w' r' where "construct im fops False a w = Some (w', Inr r')" "rwf (w', r') ns" "volume r' = open_volume (iSize i) (oa_size a) ks"
    "store w' = store w" "quiet_os w'"
proof -
  have G: "alookup (entries w) volumeMetaData = Some (InfoJson i)" "ns \<noteq> []" "dir_chain (entries w) (iHead i) ns"
    using g by (auto simp: good_dir_def)
  define r1 where "r1 = (new_replica False a)\<lparr>info := i\<lparr>iBackingFile := None\<rparr>\<rparr>"
  have 1: "tryRecoverVolumeMetaFile [] (w, new_replica False a) = ((w, r1), None)"
    using G(1) by (simp add: tryRecoverVolumeMetaFile_def checkValidVolumeMetaData_def r1_def new_replica_def zero_info_def)
  obtain r2 where r2: "readMetadata w r1 = (r2, True, None)" "\<forall>n \<in> set ns. disk_stored w r2 n" "ptrs_ok r2" "same_rest r1 r2"
    "info r2 = i\<lparr>iBackingFile := None\<rparr>" "sectorSize (volume r2) = 4096" "dsize (volume r2) = iSize i"
    by (rule readMetadata_ok [OF g, of r1]) (auto simp: r1_def)
  have s2: "activeDiskData r2 = [None]" "\<not> readOnly r2" "revisionCounterDisabled r2"
    using same_restD [OF r2(4)] a(1) by (simp_all add: r1_def new_replica_def plain_args_def)
  let ?v = "open_volume (iSize i) (oa_size a) []"
  define r5 where "r5 = r2\<lparr>volume := ?v\<rparr>"
  have b: "set_backing None r2 = r2" using r2(5) by (simp add: set_backing_def)
  have "0 \<le> iSize i sdiv 4096" using a(2) by (simp add: sdiv_nonneg)
  then have 5: "init_volume (oa_size a) r2 = Some r5"
    using r2(5,6) by (simp add: init_volume_def r5_def open_volume_def Let_def)
  define r6 where "r6 = r5\<lparr>volume := open_volume (iSize i) (oa_size a) ks, activeDiskData := [None] @ map (alookup (diskData r2)) (rev ns)\<rparr>"
  have "\<forall>n \<in> set ns. disk_stored w r5 n" using r2(2) by (simp add: r5_def disk_stored_def)
  from openLiveChain_ok [OF g im(1) q this] have 6: "openLiveChain im (w, r5) = Some ((w, r6), None)"
    using r2(5) s2(1) by (simp add: r5_def r6_def open_volume_def)
  have od: "open_disks im a True (w, r5) = Some ((w, r6), None)"
    using 6 a(1) by (simp add: open_disks_def isExpandingEncryptedDevRequired_def plain_args_def)
  obtain d where d: "alookup (entries w) (iHead i @ ''.meta'') = Some (DiskJson d)" using G(2,3) by (cases ns) auto
  have hd: "iHead i \<in> set ns" using G(2,3) by (cases ns) auto
  obtain hp where hp: "disk_at r6 (iHead i) = Some hp"
    using r2(2) hd by (fastforce simp: disk_stored_def disk_at_def r6_def r5_def)
  define r7 where "r7 = r6\<lparr>info := (info r6)\<lparr>iParent := dParent hp\<rparr>\<rparr>"
  obtain w' rb where w': "encodeToFile (json_info ((info r7)\<lparr>iDirty := True, iRebuilding := iRebuilding (info r7)\<rparr>)) volumeMetaData r7 w = (w', Some rb, None)"
      "quiet_os w'" "store w' = store w" "frame {volumeMetaData, volumeMetaData @ ''.tmp''} w w'"
      "alookup (entries w') volumeMetaData = Some (json_info ((info r7)\<lparr>iDirty := True, iRebuilding := iRebuilding (info r7)\<rparr>))"
    by (rule encodeToFile_quiet [OF q, of r7]) (use s2 in \<open>auto simp: r7_def r6_def r5_def\<close>)
  have fin: "finish_open im (w, r6) = Some (w', Inr r7)"
    using d im(2) hp r2(5) w'(1)
    by (simp add: finish_open_def isExtentSupported_def r6_def r5_def r7_def insertBackingFile_def writeVolumeMetaData_def)
  have "length ks = length ns" using g by (metis good_dir_def length_map)
  then have "rwf (w, r6) ns"
    using r2(2,3,5) g G by (auto simp: rwf_def good_dir_def base_def r6_def r5_def open_volume_def disk_stored_def ptrs_ok_def rev_map [symmetric])
  then have "rwf (w', r7) ns"
    by (rule rwf_rewritten [OF _ w'(4) w'(5) [unfolded json_info_def], where i' = "(info r6)\<lparr>iParent := dParent hp\<rparr>"]) (simp_all add: r7_def)
  moreover have "construct im fops False a w = Some (w', Inr r7)"
    using a(1) 1 r2(1) b s2 5 od fin by (simp add: construct_def plain_args_def r5_def)
  ultimately show thesis using that w'(2,3) by (simp add: r7_def r6_def)
qed

end
