(* ===== verification/ReplicaRestart.thy ===== *)
theory ReplicaRestart
  imports ReplicaReopen
begin

text \<open>
  A process that dies while it takes a snapshot, and the one that opens the replica afterwards.
\<close>

section \<open>The metadata files stay readable\<close>

lemma readable_upd:
  assumes "readable es" "\<And>n. alookup es' n = None \<or> alookup es' n = alookup es n \<or> \<not> HasSuffix n ''.meta'' \<or> n = volumeMetaData \<or> (\<exists>d. alookup es' n = Some (DiskJson d))"
  shows "readable es'"
  unfolding readable_def
proof (intro allI impI)
  fix n c assume "alookup es' n = Some c" "HasSuffix n ''.meta''" "n \<noteq> volumeMetaData"
  then show "\<exists>d. c = DiskJson d" using assms(1) assms(2) [of n] unfolding readable_def by auto
qed

lemma readable_deletes: "readable (entries w) \<Longrightarrow> deletes w w' \<Longrightarrow> readable (entries w')"
  by (erule readable_upd) (unfold deletes_def, blast)

lemma not_meta: "\<not> HasSuffix (n @ ''.tmp'') ''.meta''" "good_name n \<Longrightarrow> \<not> HasSuffix n ''.meta''"
  using arg_cong [where f = last] good_last [of n] unfolding HasSuffix_meta by fastforce+

lemma encodeToFile_readable:
  assumes r: "readable (entries w)" and e: "encodeToFile obj file r w = (w', rb, e)" "\<not> readOnly r" and f: "file = volumeMetaData \<or> (\<exists>d. obj = DiskJson d)"
  shows "readable (entries w')"
proof (rule encodeToFile_cases [OF e])
  assume a: "frame {file, file @ ''.tmp''} w w'" "alookup (entries w') file = Some obj"
  show ?thesis
  proof (rule readable_upd [OF r])
    fix n show "alookup (entries w') n = None \<or> alookup (entries w') n = alookup (entries w) n \<or> \<not> HasSuffix n ''.meta'' \<or> n = volumeMetaData \<or>
      (\<exists>d. alookup (entries w') n = Some (DiskJson d))"
      using frame_lookup [OF a(1), of n] a(2) f not_meta(1) [of "file"] by (cases "n = file"; cases "n = file @ ''.tmp''") auto
  qed
next
  assume a: "frame {file @ ''.tmp''} w w'"
  show ?thesis
  proof (rule readable_upd [OF r])
    fix n show "alookup (entries w') n = None \<or> alookup (entries w') n = alookup (entries w) n \<or> \<not> HasSuffix n ''.meta'' \<or> n = volumeMetaData \<or>
      (\<exists>d. alookup (entries w') n = Some (DiskJson d))"
      using frame_lookup [OF a(1), of n] not_meta(1) [of "file"] by (cases "n = file @ ''.tmp''") auto
  qed
qed

lemma os_Link_readable:
  assumes r: "readable (entries w)" and l: "os_Link old new w = (w', e)"
    and n: "HasSuffix new ''.meta'' \<Longrightarrow> HasSuffix old ''.meta'' \<and> old \<noteq> volumeMetaData"
  shows "readable (entries w')"
proof (rule readable_upd [OF r])
  fix m
  have "alookup (entries w') m = alookup (entries w) m \<or> m = new \<and> alookup (entries w') m = alookup (entries w) old"
    using l by (auto simp: os_Link_def os_call_eq split: if_splits option.splits)
  then show "alookup (entries w') m = None \<or> alookup (entries w') m = alookup (entries w) m \<or> \<not> HasSuffix m ''.meta'' \<or> m = volumeMetaData \<or>
      (\<exists>d. alookup (entries w') m = Some (DiskJson d))"
    using r n unfolding readable_def by (cases "alookup (entries w) old") auto
qed

lemma linkDisk_readable:
  assumes r: "readable (entries w)" and l: "linkDisk old new w = (w', rb, e)" and g: "good_name old" "good_name new"
  shows "readable (entries w')"
proof -
  have o: "old \<noteq> []" using good_last [OF g(1)] by simp
  obtain w1 e1 where 1: "os_RemoveAll (new @ ''.meta'') w = (w1, e1)" by (metis surj_pair)
  obtain w2 e2 where 2: "os_RemoveAll (new @ ''.checksum'') w1 = (w2, e2)" by (metis surj_pair)
  obtain w3 e3 where 3: "os_RemoveAll new w2 = (w3, e3)" by (metis surj_pair)
  obtain w4 e4 where 4: "os_Link old new w3 = (w4, e4)" by (metis surj_pair)
  obtain w5 e5 where 5: "os_Link (old @ ''.meta'') (new @ ''.meta'') w4 = (w5, e5)" by (metis surj_pair)
  have r1: "readable (entries w1)" by (rule readable_deletes [OF r os_RemoveAll_deletes [OF 1]])
  have r2: "readable (entries w2)" by (rule readable_deletes [OF r1 os_RemoveAll_deletes [OF 2]])
  have r3: "readable (entries w3)" by (rule readable_deletes [OF r2 os_RemoveAll_deletes [OF 3]])
  have r4: "readable (entries w4)" by (rule os_Link_readable [OF r3 4]) (use not_meta(2) [OF g(2)] in simp)
  have r5: "readable (entries w5)"
    by (rule os_Link_readable [OF r4 5]) (use good_disjoint(6) [OF g(1)] HasSuffix_append in simp)
  note rm = readable_deletes [OF _ rmDisk_deletes]
  show ?thesis using l o 1 2 3 4 5 r1 r2 r3 r5 rm [OF r4] rm [OF r5]
    by (cases e1; cases e2; cases e3; cases e4; cases e5) (auto simp: linkDisk_def Let_def split: prod.splits)
qed

lemma createNewHead_readable:
  assumes r: "readable (entries w)" and c: "createNewHead im old parent created sz r w = (w', res, e)" "opens_images im" "\<not> readOnly r"
  shows "readable (entries w')"
proof (cases "nextFile old")
  case (Inl x)
  then show ?thesis using c r by (simp add: createNewHead_def)
next
  case (Inr h)
  show ?thesis
  proof (cases "os_exists h w")
    case True
    then show ?thesis using Inr c r by (simp add: createNewHead_def)
  next
    case False
    have g: "good_name h" using good_nextFile Inr by blast
    obtain w1 x where 1: "im_open im h True w = (w1, x)" by (metis surj_pair)
    obtain w2 e2 where 2: "os_TruncateFile im h sz w1 = (w2, e2)" by (metis surj_pair)
    obtain w3 rb e3 where 3: "encodeToFile (DiskJson \<lparr> dName = h, dParent = parent, dRemoved = False, dUserCreated = False,
        dCreated = created, dLabels = None \<rparr>) (h @ ''.meta'') r w2 = (w3, rb, e3)" by (metis prod_cases3)
    have "os_open im h True w = (w1, x)" using 1 c(2) False by (simp add: opens_images_def os_exists_def)
    then have "entries w1 = entries w \<or> (\<exists>k. entries w1 = aupdate (entries w) h (Image k))"
      using False by (auto simp: os_open_def next_call_def os_exists_def Let_def split: if_splits)
    then have r1: "readable (entries w1)" using r not_meta(2) [OF g] by (auto intro!: readable_upd [OF r] split: if_splits)
    have "entries w2 = entries w1" using 2 by (auto simp: os_TruncateFile_def os_call_eq split: if_splits option.splits content.splits)
    then have r2: "readable (entries w2)" using r1 by simp
    have r3: "readable (entries w3)" by (rule encodeToFile_readable [OF r2 3 c(3)]) simp
    note rm = readable_deletes [OF _ rmDisk_deletes]
    show ?thesis using c(1) Inr False 1 2 3 r1 rm [OF r2] rm [OF r3] r3
      by (cases x; cases e2; cases e3) (auto simp: createNewHead_def Let_def split: prod.splits)
  qed
qed

lemma body_readable:
  assumes pre: "snap_pre im (w, r) ns h snap p" and rd: "readable (entries w)"
    and b: "createDisk_body im snap userCreated created lbls sz (w, r) = Some ((w', r'), rbs, e)"
  shows "readable (entries w')"
proof -
  note P = snap_preD [OF pre]
  have o: "good_name (old_head r)" using P(16,17) by blast
  obtain w1 x e1 where 1: "createNewHead im (old_head r) snap created sz r w = (w1, x, e1)" by (metis prod_cases3)
  have r1: "readable (entries w1)" by (rule createNewHead_readable [OF rd 1 P(1,3)])
  show ?thesis
  proof (cases "e1 = None \<and> x \<noteq> None")
    case False
    then show ?thesis using b 1 r1 by (cases e1; cases x) (auto simp: createDisk_body_def Let_def)
  next
    case True
    then obtain f d rb1 where x: "x = Some (f, d, rb1)" "e1 = None" by (metis option.exhaust prod_cases3)
    obtain w2 rb2 e2 where 2: "linkDisk (old_head r) snap w1 = (w2, rb2, e2)" by (metis prod_cases3)
    have r2: "readable (entries w2)" by (rule linkDisk_readable [OF r1 2 o P(5)])
    let ?i = "(info r)\<lparr>iHead := dName d, iDirty := True, iParent := snap, iSize := sz\<rparr>"
    obtain w3 rb3 e3 where 3: "encodeToFile (json_info ?i) volumeMetaData r w2 = (w3, rb3, e3)" by (metis prod_cases3)
    have r3: "readable (entries w3)" by (rule encodeToFile_readable [OF r2 3 P(3)]) simp
    let ?r1 = "r\<lparr>heap := heap r @ [d], diskData := aupdate (diskData r) (dName d) (length (heap r))\<rparr>"
    have sd: "readable (entries w4)" if "snapshot_disk (old_head r) snap (dName d) userCreated created lbls (w3, ?r1) = Some ((w4, r4), e4)" for w4 r4 e4
    proof -
      obtain q where q: "alookup (diskData (addChildDisk snap (dName d) ?r1)) (old_head r) = Some q"
        using P(12) by (cases "old_head r = dName d") simp_all
      let ?d = "(heap (addChildDisk snap (dName d) ?r1) ! q)\<lparr>dUserCreated := userCreated, dCreated := created, dLabels := lbls\<rparr>"
      let ?r2 = "set_disk q ?d ((addChildDisk snap (dName d) ?r1)\<lparr>diskData := aupdate (diskData (addChildDisk snap (dName d) ?r1)) snap q\<rparr>)"
      obtain w5 rb5 e5 where 5: "encodeToFile (DiskJson ?d) (snap @ ''.meta'') ?r2 w3 = (w5, rb5, e5)" by (metis prod_cases3)
      have "readable (entries w5)" by (rule encodeToFile_readable [OF r3 5]) (use P(3) in simp_all)
      then show ?thesis using that q 5 unfolding snapshot_disk_def prod.case Let_def
        by (auto simp: bind_eq_Some_conv split: if_splits)
    qed
    show ?thesis
    proof (cases "e2 = None \<and> e3 = None")
      case False
      then show ?thesis using b 1 x 2 3 r2 r3 by (cases e2; cases e3) (auto simp: createDisk_body_def Let_def)
    next
      case True
      then show ?thesis using b 1 x 2 3 P(9) sd unfolding createDisk_body_def prod.case Let_def
        by (auto simp: bind_eq_Some_conv split: if_splits)
    qed
  qed
qed

lemma cleans_readable:
  assumes "cleans X g" "g (w, r) = ((w', r'), e)" "readable (entries w)"
  shows "readable (entries w')"
  using readable_deletes [OF assms(3) cleansD(6) [OF assms(1,2)]] .

lemma restore_readable:
  assumes "restore_volume_meta (Some (on_world (os_RemoveAll (volumeMetaData @ ''.tmp'')))) (w, r) = ((w', r'), e)" "\<not> readOnly r" "readable (entries w)"
  shows "readable (entries w')"
proof -
  obtain w1 rb e1 where 1: "encodeToFile (json_info (info r)) volumeMetaData r w = (w1, rb, e1)" by (metis prod_cases3)
  have "readable (entries w1)" by (rule encodeToFile_readable [OF assms(3) 1 assms(2)]) simp
  then show ?thesis using assms(1) 1 readable_deletes [OF _ os_RemoveAll_deletes]
    by (auto simp: restore_volume_meta_def on_world_def split: prod.splits)
qed

lemma run_cleans_readable:
  assumes "list_all (\<lambda>g. \<exists>X. cleans X g) gs" "readable (entries w)" "run_rollbacks gs (w, r) e0 = ((w', r'), e)"
  shows "readable (entries w') \<and> r' = r"
  using assms
proof (induction gs arbitrary: w e0)
  case (Cons g gs)
  then obtain X where X: "cleans X g" by auto
  obtain w1 r1 e1 where 1: "g (w, r) = ((w1, r1), e1)" by (metis prod.exhaust)
  have "r1 = r" using cleansD(1) [OF X 1] .
  then show ?case using Cons.IH [of w1] Cons.prems 1 cleans_readable [OF X 1] by simp
qed simp

lemma run_rollbacks_append: "run_rollbacks (fs @ gs) s e = (let (s', e') = run_rollbacks fs s e in run_rollbacks gs s' e')"
  by (induction fs arbitrary: s e) (auto split: prod.splits)

lemma createDisk_readable:
  assumes pre: "snap_pre im (w, r) ns h snap p" and rem: "getRemainSnapshotCounts r = Some k" "0 < k"
    and snap: "snap = GenerateSnapshotDiskName name" and rd: "readable (entries w)"
    and c: "createDisk im name userCreated created lbls sz (w, r) = Some ((w', r'), e)"
  shows "readable (entries w')"
proof -
  note P = snap_preD [OF pre]
  note eq = createDisk_eq [OF pre rem snap, of userCreated created lbls sz]
  define d where "d = taken_disk userCreated created lbls (heap r ! p)"
  have two: "readable (entries w2)" if b: "createDisk_body im snap userCreated created lbls sz (w, r) = Some ((w1, r), rbs, Some x)"
    and cl: "list_all (\<lambda>g. \<exists>X. cleans X g) rbs" and w2: "w2 = w'" for w1 rbs x w2
  proof -
    obtain w3 r3 e3 where 3: "run_rollbacks rbs (w1, r) None = ((w3, r3), e3)" by (metis prod.exhaust)
    show ?thesis using run_cleans_readable [OF cl body_readable [OF pre rd b] 3] eq [OF b] c w2 3 by simp
  qed
  show ?thesis
  proof (rule body_cases [OF pre d_def, where sz = sz])
    fix w1 x
    assume "createDisk_body im snap userCreated created lbls sz (w, r) = Some ((w1, r), [], Some x)"
    then show ?thesis by (rule two) simp_all
  next
    fix w2 rb1 x
    assume "createDisk_body im snap userCreated created lbls sz (w, r) = Some ((w2, r), [rb1], Some x)" "cleans (head_files h) rb1"
    then show ?thesis by (intro two) auto
  next
    fix w1 rb1 rb2 x
    assume "createDisk_body im snap userCreated created lbls sz (w, r) = Some ((w1, r), [rb1, rb2], Some x)"
        "cleans (head_files h) rb1" "cleans (disk_files snap) rb2"
    then show ?thesis by (intro two) auto
  next
    fix w1 rb1 rb2 x
    let ?t = "taken h snap p d r" and ?m = "restore_volume_meta (Some (on_world (os_RemoveAll (volumeMetaData @ ''.tmp''))))"
    assume b: "createDisk_body im snap userCreated created lbls sz (w, r) =
        Some ((w1, ?t), [rb1, rb2, ?m, forget_disks h snap], Some x)" "cleans (head_files h) rb1" "cleans (disk_files snap) rb2"
    obtain w3 r3 e3 where 3: "run_rollbacks [rb1, rb2] (w1, ?t) None = ((w3, r3), e3)" by (metis prod.exhaust)
    have r3: "readable (entries w3)" "r3 = ?t"
      using run_cleans_readable [OF _ body_readable [OF pre rd b(1)] 3] b(2,3) by auto
    have ro: "\<not> readOnly ?t" using P(3) by (simp add: taken_def Let_def)
    obtain w4 r4 e4 where 4: "?m (w3, ?t) = ((w4, r4), e4)" by (metis prod.exhaust)
    have run: "run_rollbacks ([rb1, rb2] @ [?m, forget_disks h snap]) (w1, ?t) None =
        run_rollbacks [forget_disks h snap] (w4, r4) (CombineErrors [e3, e4])"
      unfolding run_rollbacks_append 3 using 4 r3(2) by simp
    have "w' = w4" using eq [OF b(1)] c run by (auto simp: forget_disks_def Let_def)
    then show ?thesis using restore_readable [OF 4 ro r3(1)] by simp
  next
    fix w1 rbs
    assume b: "createDisk_body im snap userCreated created lbls sz (w, r) =
          Some ((w1, after_snapshot h snap p d sz (length (store w)) r), rbs, None)"
    obtain w2 e2 where 2: "rmDisk (old_head r) w1 = (w2, e2)" by (metis surj_pair)
    show ?thesis using readable_deletes [OF body_readable [OF pre rd b] rmDisk_deletes [OF 2]] eq [OF b] c 2 by simp
  qed
qed

end
