(* ===== verification/ReplicaClaims.thy ===== *)
theory ReplicaClaims
  imports ReplicaRestart MemFile
begin

text \<open>
  The properties of a replica on disk: snapshots that succeed, fail or are cut off by a crash, and the
  process that opens the directory afterwards.
\<close>

section \<open>Replicas that serve a volume\<close>

definition serving :: "'f file_view \<Rightarrow> 'f rs \<Rightarrow> string list \<Rightarrow> bool" where
  "serving v s ns \<longleftrightarrow> rwf s ns \<and> iBackingFile (info (snd s)) = None \<and> hd (files (volume (snd s))) = None \<and>
     sectorSize (volume (snd s)) = 4096 \<and> dsize (volume (snd s)) = iSize (info (snd s)) \<and>
     dd_inv v (opened (fst s) (volume (snd s))) \<and> exact v (opened (fst s) (volume (snd s)))"

definition replica_vol :: "'f file_view \<Rightarrow> 'f rs \<Rightarrow> byte list" where
  "replica_vol v s = vol v (opened (fst s) (volume (snd s)))"

text \<open>A machine that starts again: the files are there, and calls do not fail.\<close>

definition restarted :: "'f world \<Rightarrow> 'f world" where
  "restarted w = w\<lparr>faults := \<lambda>i. False\<rparr>"

lemma restarted_simps [simp]: "entries (restarted w) = entries w" "store (restarted w) = store w" "quiet_os (restarted w)"
  by (simp_all add: restarted_def quiet_os_def)

lemma serving_files:
  assumes "serving v (w, r) ns" "dir_volume (entries w) ns ks"
  shows "files (volume r) = None # map Some (rev ks)" "\<forall>k \<in> set ks. k < length (store w)" "iBackingFile (info r) = None"
proof -
  have r: "rwf (w, r) ns" "hd (files (volume r)) = None" and b: "base r = 1" using assms(1) by (auto simp: serving_def base_def)
  have im: "map (image_of (entries w)) ns = map Some ks" using assms(2) by (simp add: dir_volume_def)
  have "tl (files (volume r)) = map Some (rev ks)" using rwfD(8) [OF r(1)] im b by (simp add: drop_Suc rev_map [symmetric])
  moreover have "files (volume r) \<noteq> []" using rwfD(7) [OF r(1)] b by auto
  ultimately show "files (volume r) = None # map Some (rev ks)" using r(2) by (metis list.collapse)
  show "\<forall>k \<in> set ks. k < length (store w)"
  proof
    fix k assume "k \<in> set ks"
    then have "Some k \<in> image_of (entries w) ` set ns" using im by (metis image_eqI image_set)
    then obtain n where n: "n \<in> set ns" "image_of (entries w) n = Some k" by auto
    then show "k < length (store w)" using rwfD(2) [OF r(1) n(1)] by (auto simp: disk_stored_def image_of_def)
  qed
  show "iBackingFile (info r) = None" using assms(1) by (simp add: serving_def)
qed

text \<open>A replica that is opened again on the same images has the volume with an empty location table.\<close>

lemma opened_again:
  assumes s: "serving v (w, r) ns" and fl: "files (volume r) = None # map Some (rev ks)" and k: "\<forall>k \<in> set ks. store w2 ! k = store w ! k"
  shows "opened w2 (open_volume (iSize (info r)) (iSize (info r)) ks) = cold (opened w (volume r))"
    "store w2 ! j = f \<Longrightarrow> opened w2 (open_volume (iSize (info r)) (iSize (info r)) (j # ks)) = cold (new_head (opened w (volume r)) f)"
proof -
  have d: "dsize (volume r) = iSize (info r)" "sectorSize (volume r) = 4096" "dsize (volume r) = 4096 * int (length (location (volume r)))"
    using s by (auto simp: serving_def dd_inv_def opened_def)
  have sz: "iSize (info r) = 4096 * int (length (location (volume r)))" using d by simp
  have l: "nat (if iSize (info r) smod 4096 \<noteq> 0 then iSize (info r) sdiv 4096 + 1 else iSize (info r) sdiv 4096) = length (location (volume r))"
    unfolding sz by (simp add: sdiv_nonneg smod_nonneg)
  have m: "map (\<lambda>k. Some (store w2 ! k)) (rev ks) = map (\<lambda>k. Some (store w ! k)) (rev ks)" using k by simp
  show "opened w2 (open_volume (iSize (info r)) (iSize (info r)) ks) = cold (opened w (volume r))"
    using d l m fl by (simp add: opened_def open_volume_def cold_def initializeSectorLocation_def comp_def map_replicate_const)
  show "opened w2 (open_volume (iSize (info r)) (iSize (info r)) (j # ks)) = cold (new_head (opened w (volume r)) f)" if "store w2 ! j = f" for f
    using d l m fl that by (simp add: opened_def open_volume_def cold_def initializeSectorLocation_def new_head_def comp_def map_replicate_const)
qed

lemma reopen_after_crash:
  assumes g: "dir_volume (entries w') ns ks" "readable (entries w')" "\<forall>k \<in> set ks. k < length (store w')" "\<forall>n \<in> set ns. good_name n"
      "ns \<noteq> []" "length ns \<le> 250" "\<forall>i. alookup (entries w') volumeMetaData = Some (InfoJson i) \<longrightarrow> iSize i = iSize (info r)"
    and im: "opens_images im" "\<And>d. im_fiemap im (DiskJson d) = None" and a: "plain_args (reload_args now lh r)" "0 \<le> iSize (info r)"
  obtains w2 r2 where "construct im fops False (reload_args now lh r) (restarted w') = Some (w2, Inr r2)" "rwf (w2, r2) ns"
    "volume r2 = open_volume (iSize (info r)) (iSize (info r)) ks" "store w2 = store w'"
proof -
  obtain i where i: "alookup (entries w') volumeMetaData = Some (InfoJson i)" "dir_chain (entries w') (iHead i) ns"
      "map (image_of (entries w')) ns = map Some ks" using g(1) by (auto simp: dir_volume_def)
  have sz: "iSize i = iSize (info r)" using g(7) i(1) by blast
  have "good_dir (restarted w') i ns ks" using g i by (simp add: good_dir_def)
  then show thesis
    by (rule construct_ok [OF _ im _ a(1), of "restarted w'" i ns ks fops]) (use that sz a(2) in \<open>auto simp: reload_args_def\<close>)
qed

lemma serving_bounds:
  assumes "serving v (w, r) ns"
  shows "0 \<le> iSize (info r)" "length (files (volume r)) = Suc (length ns)" "handles_ok (w, r)"
proof -
  show "0 \<le> iSize (info r)" using assms by (auto simp: serving_def dd_inv_def opened_def)
  have r: "rwf (w, r) ns" using assms by (simp add: serving_def)
  show "length (files (volume r)) = Suc (length ns)" using assms rwfD(7) [OF r] by (simp add: serving_def base_def)
  obtain ks where ks: "dir_volume (entries w) ns ks" using rwf_volume [OF r] by blast
  show "handles_ok (w, r)" using serving_files [OF assms ks] by (auto simp: handles_ok_def)
qed

text \<open>The volume with a fresh head on top.\<close>

lemma serving_new_head:
  assumes s: "serving v (w, r) ns" and f: "fresh_file v f (iSize (info r))" "length ns < 250"
  shows "dd_inv v (new_head (opened w (volume r)) f)" "exact v (new_head (opened w (volume r)) f)"
    "vol v (new_head (opened w (volume r)) f) = replica_vol v (w, r)"
proof -
  have d: "dd_inv v (opened w (volume r))" "exact v (opened w (volume r))" "dsize (volume r) = iSize (info r)" using s by (auto simp: serving_def)
  have "length (files (opened w (volume r))) < 256" "dsize (opened w (volume r)) = iSize (info r)"
    using serving_bounds(2) [OF s] f(2) d(3) by (simp_all add: opened_def)
  then show "dd_inv v (new_head (opened w (volume r)) f)" "exact v (new_head (opened w (volume r)) f)"
    "vol v (new_head (opened w (volume r)) f) = replica_vol v (w, r)"
    using new_head_correct [OF d(1), of f] d(2) f(1) by (simp_all add: replica_vol_def)
qed

section \<open>An example\<close>

text \<open>Image files that are opened as the operating system does, and a replica of one sector with a single disk.\<close>

definition images_of :: "'f \<Rightarrow> ('f \<Rightarrow> int \<Rightarrow> 'f) \<Rightarrow> 'f image_ops" where
  "images_of new trunc =
     (let im = \<lparr> im_open = (\<lambda>_ _ w. (w, Inl EOF)), im_new = new, im_truncate = trunc, im_blocks = (\<lambda>f. 0), im_fiemap = (\<lambda>_. None) \<rparr>
      in im\<lparr>im_open := os_open im\<rparr>)"

definition mem_truncate :: "memfile \<Rightarrow> int \<Rightarrow> memfile" where
  "mem_truncate f sz = take (nat sz) f @ replicate (nat sz - length f) (0, False)"

text \<open>Files with one byte everywhere, given by their size and the byte; zero stands for a hole.\<close>

type_synonym flat = "int \<times> byte"

definition flat_truncate :: "flat \<Rightarrow> int \<Rightarrow> flat" where
  "flat_truncate f sz = (sz, snd f)"

definition flat_view :: "flat file_view" where
  "flat_view = \<lparr> content = (\<lambda>f k. snd f), fsize = fst, alloc = (\<lambda>f k. snd f \<noteq> 0) \<rparr>"

definition ex_disk :: disk where
  "ex_disk = zero_disk\<lparr>dName := ''volume-head-000.img''\<rparr>"

definition ex_info :: Info where
  "ex_info = zero_info\<lparr>iSize := 4096, iHead := ''volume-head-000.img'', iSectorSize := 4096\<rparr>"

definition ex_world :: "'f \<Rightarrow> (nat \<Rightarrow> bool) \<Rightarrow> 'f world" where
  "ex_world f F = \<lparr> entries = [(''volume.meta'', InfoJson ex_info), (''volume-head-000.img'', Image 0),
       (''volume-head-000.img.meta'', DiskJson ex_disk)], store = [f], faults = F, revisionCounterBuf = [] \<rparr>"

definition ex_replica :: replica where
  "ex_replica = \<lparr> volume = \<lparr> location = [0], files = [None, Some 0], sectorSize = 4096, dsize = 4096 \<rparr>, info = ex_info,
     heap = [ex_disk], diskData = [(''volume-head-000.img'', 0)], diskChildrenMap = [], activeDiskData = [None, Some 0],
     readOnly = False, revisionCache = 0, revisionFile = None, revisionCounterDisabled = True,
     unmapMarkDiskChainRemoved = False, snapshotMaxCount = 250, snapshotMaxSize = 0 \<rparr>"

lemma os_open_cong:
  assumes "im_new a = im_new b" "im_truncate a = im_truncate b"
  shows "os_open a n t w = os_open b n t w"
  unfolding os_open_def assms ..

lemma images_open: "opens_images (images_of new trunc)"
  unfolding opens_images_def by (auto simp: images_of_def Let_def intro!: os_open_cong)

lemma images_simps [simp]:
  "im_new (images_of new trunc) = new" "im_truncate (images_of new trunc) = trunc" "im_fiemap (images_of new trunc) c = None"
  by (simp_all add: images_of_def)

lemma ex_serving:
  assumes "fsize v f = 4096"
  shows "serving v (ex_world f F, ex_replica) [''volume-head-000.img'']"
  using assms by (simp add: serving_def rwf_def disk_stored_def good_name_def HasSuffix_def ex_world_def ex_replica_def ex_info_def ex_disk_def
    zero_disk_def zero_info_def base_def image_of_def ptrs_ok_def adistinct_def volumeMetaData_def dd_inv_def opened_def
    exact_def file_of_def file_top_def)

lemma ex_pre:
  "snap_pre (images_of new trunc) (ex_world f F, ex_replica) [''volume-head-000.img''] ''volume-head-001.img'' (GenerateSnapshotDiskName ''s'') 0"
proof -
  have "nextFile ''volume-head-000.img'' = Inr ''volume-head-001.img''" by code_simp
  moreover have "rwf (ex_world f F, ex_replica) [''volume-head-000.img'']"
    using ex_serving [of "\<lparr>content = \<lambda>_ _. 0, fsize = \<lambda>_. 4096, alloc = \<lambda>_ _. False\<rparr>" f F] by (simp add: serving_def)
  ultimately show ?thesis using images_open
    by (simp add: snap_pre_def ex_replica_def ex_info_def GenerateSnapshotDiskName_def good_name_def HasSuffix_def)
qed

lemma ex_remain: "getRemainSnapshotCounts ex_replica = Some 250"
  by code_simp

lemma ex_readable: "readable (entries (ex_world f F))"
  by (simp add: readable_def ex_world_def HasSuffix_def volumeMetaData_def)

lemma ex_args: "plain_args (reload_args now lh ex_replica)"
  by (simp add: plain_args_def reload_args_def ex_replica_def ex_info_def zero_info_def smod_nonneg)

lemma ex_vol: "replica_vol v (ex_world f F, ex_replica) = map (\<lambda>k. file_byte v f (int k)) [0..<4096]"
  by (simp add: replica_vol_def vol_def vol_byte_def file_of_def ex_replica_def opened_def ex_world_def)

lemma mem_fresh: "fresh_file mem_view (im_truncate (images_of [] mem_truncate) (im_new (images_of [] mem_truncate)) (iSize (info ex_replica))) (iSize (info ex_replica))"
  by (simp add: fresh_file_def mem_view_def mem_truncate_def ex_replica_def ex_info_def)

abbreviation mem_images :: "memfile image_ops" where
  "mem_images \<equiv> images_of [] mem_truncate"

abbreviation ex_file :: memfile where
  "ex_file \<equiv> replicate 4096 (7, True)"

lemma ex_file_bytes: "map (\<lambda>k. file_byte mem_view ex_file (int k)) [0..<4096] = replicate 4096 7"
  by (rule nth_equalityI) (simp_all add: file_byte_def mem_view_def)

lemma ex_file_size: "fsize mem_view ex_file = 4096"
  by (simp add: mem_view_def)

section \<open>Taking a snapshot\<close>

text \<open>
  C12: when nothing fails, taking a snapshot succeeds and the replica serves the same volume: its chain
  is the old one with the old head renamed to the snapshot and a new, empty head above it.
\<close>

theorem snapshot_succeeds:
  assumes "serving v (w, r) ns" "snap_pre im (w, r) ns h (GenerateSnapshotDiskName name) p"
    and "getRemainSnapshotCounts r = Some k" "0 < k" "quiet_os w" "\<not> os_exists h w" "length ns < 250"
    and "fresh_file v (im_truncate im (im_new im) (iSize (info r))) (iSize (info r))"
  shows "\<exists>w' r'. Snapshot im name userCreated created lbls (w, r) = Some ((w', r'), None) \<and>
           serving v (w', r') (h # GenerateSnapshotDiskName name # tl ns) \<and> replica_vol v (w', r') = replica_vol v (w, r)"
proof (rule createDisk_ok [OF assms(2-4) refl assms(5,6), where sz = "iSize (info r)"])
  fix w' r'
  let ?f = "im_truncate im (im_new im) (iSize (info r))" and ?snap = "GenerateSnapshotDiskName name"
  assume c: "createDisk im name userCreated created lbls (iSize (info r)) (w, r) = Some ((w', r'), None)"
    "rwf (w', r') (h # ?snap # tl ns)" "store w' = store w @ [?f]" "info r' = new_info h ?snap (iSize (info r)) r"
    "volume r' = (volume r)\<lparr>files := files (volume r) @ [Some (length (store w))]\<rparr>"
  note o = opened_snapshot [OF serving_bounds(3) [OF assms(1)] c(3,5)]
  have "files (volume r) \<noteq> []" using serving_bounds(2) [OF assms(1)] by auto
  then have "serving v (w', r') (h # ?snap # tl ns)"
    using assms(1) c(2,4,5) o serving_new_head(1,2) [OF assms(1,8,7)] by (simp add: serving_def new_info_def)
  then show ?thesis using c(1) o serving_new_head(3) [OF assms(1,8,7)] by (auto simp: Snapshot_def replica_vol_def)
qed

theorem snapshot_succeeds_witness:
  "\<exists>w' r'. Snapshot mem_images ''s'' True ''now'' None (ex_world ex_file (\<lambda>i. False), ex_replica) = Some ((w', r'), None) \<and>
     replica_vol mem_view (w', r') = replicate 4096 7"
  using snapshot_succeeds [OF ex_serving [OF ex_file_size] ex_pre ex_remain _ _ _ _ mem_fresh, of "\<lambda>i. False" True "''now''" None]
  by (auto simp: quiet_os_def os_exists_def ex_world_def simp flip: ex_file_bytes ex_vol [where F = "\<lambda>i. False"])





end
