(* ===== verification/Spec2Isabelle.thy ===== *)
theory Spec2Isabelle
  imports DiffDiskProps ControllerLife DataconnLoop ControllerClaims ReplicaClaims
begin

text \<open>
  A verification of weft-block.
\<close>

end
